theory Spec2Isabelle
  imports Main "HOL-Library.Multiset"
begin

section \<open>Snapshots and job groups (package restic)\<close>

text \<open>
  A \<open>time.Time\<close> is an instant; it is modelled as the integer number of nanoseconds
  since the Unix epoch, so that \<open>a.After(b)\<close> is \<open>b < a\<close>.
\<close>

type_synonym instant = int

record Snapshot =
  ID :: string
  ShortID :: string
  Time :: instant
  Hostname :: string
  Tags :: "string list"
  Paths :: "string list"

text \<open>
  \<open>TagMap\<close>: every tag \<open>K=V\<close> whose first \<open>=\<close> is not at position 0 is stored under
  \<open>K\<close>; later tags overwrite earlier ones. Reading a missing key of a Go map of strings
  gives the empty string.
\<close>

definition tagPair :: "string \<Rightarrow> (string \<times> string) option" where
  "tagPair t =
     (let k = takeWhile (\<lambda>c. c \<noteq> CHR ''='') t in
      if CHR ''='' \<in> set t \<and> k \<noteq> []
      then Some (k, tl (dropWhile (\<lambda>c. c \<noteq> CHR ''='') t))
      else None)"

definition TagMap :: "Snapshot \<Rightarrow> (string \<rightharpoonup> string)" where
  "TagMap s =
     foldl (\<lambda>m t. case tagPair t of None \<Rightarrow> m | Some (k, v) \<Rightarrow> m(k \<mapsto> v))
       Map.empty (Tags s)"

definition jobTag :: "Snapshot \<Rightarrow> string" where
  "jobTag s = (case TagMap s ''job'' of None \<Rightarrow> [] | Some v \<Rightarrow> v)"

text \<open>The key under which \<open>GroupByJob\<close> files a snapshot.\<close>

definition jobKey :: "Snapshot \<Rightarrow> string" where
  "jobKey s = (if jobTag s = [] then ''ungrouped-'' @ ShortID s else jobTag s)"



text \<open>
  \<open>JobGroup\<close>; its field \<open>Time\<close> is called \<open>GroupTime\<close> here, since \<open>Time\<close> is already
  the field of \<open>Snapshot\<close>.
\<close>

record JobGroup =
  JobID :: string
  GroupTime :: instant
  Snapshots :: "Snapshot list"

text \<open>
  The first loop of \<open>GroupByJob\<close>: the map from job id to group, kept as the list of its
  entries in order of first insertion. A snapshot joins the group of its key, or opens a
  new group that takes the snapshot's time.
\<close>

fun addSnapshot :: "Snapshot \<Rightarrow> JobGroup list \<Rightarrow> JobGroup list" where
  "addSnapshot s [] = [\<lparr>JobID = jobKey s, GroupTime = Time s, Snapshots = [s]\<rparr>]"
| "addSnapshot s (g # gs) =
     (if JobID g = jobKey s then g\<lparr>Snapshots := Snapshots g @ [s]\<rparr> # gs
      else g # addSnapshot s gs)"

definition collectGroups :: "Snapshot list \<Rightarrow> JobGroup list" where
  "collectGroups snapshots = foldl (\<lambda>gs s. addSnapshot s gs) [] snapshots"

text \<open>
  \<open>sort.Slice\<close> with \<open>less i j = result[i].Time.After(result[j].Time)\<close> orders the
  groups by descending time. Go leaves the order of groups with equal times open (map
  iteration and an unstable sort); the model fixes it by a stable sort of the
  first-insertion order. No statement below depends on that choice.
\<close>

definition GroupByJob :: "Snapshot list \<Rightarrow> JobGroup list" where
  "GroupByJob snapshots = sort_key (\<lambda>g. - GroupTime g) (collectGroups snapshots)"

section \<open>UTC calendar keys\<close>

text \<open>
  The retention windows are the strings \<open>Format("2006-01-02")\<close>, \<open>ISOWeek\<close> printed as
  \<open>%d-%02d\<close>, and \<open>Format("2006-01")\<close> of the UTC time. These come from Go's standard
  library; they are modelled by the proleptic Gregorian calendar, and each string by
  the tuple of numbers it prints, which determines it.
\<close>

definition unixDay :: "instant \<Rightarrow> int" where
  "unixDay t = t div 86400000000000"

text \<open>Days in the first \<open>p\<close> years of the calendar (years \<open>1..p\<close>).\<close>

definition daysBefore :: "int \<Rightarrow> int" where
  "daysBefore p = 365 * p + p div 4 - p div 100 + p div 400"

text \<open>Number of whole years before day \<open>n\<close>, counted from 0001-01-01 as day 0.\<close>

definition yearIdx :: "int \<Rightarrow> int" where
  "yearIdx n =
     (let e = (400 * n) div 146097 in
      if daysBefore (e + 1) \<le> n then e + 1
      else if n < daysBefore e then e - 1
      else e)"

definition rataDie :: "int \<Rightarrow> int" where
  "rataDie d = d + 719162"

definition yearOf :: "int \<Rightarrow> int" where
  "yearOf d = yearIdx (rataDie d) + 1"

definition ydayOf :: "int \<Rightarrow> int" where
  "ydayOf d = rataDie d - daysBefore (yearIdx (rataDie d))"

definition isLeap :: "int \<Rightarrow> bool" where
  "isLeap y = (y mod 4 = 0 \<and> (y mod 100 \<noteq> 0 \<or> y mod 400 = 0))"

text \<open>Month (1..12) of a zero-based day of the year.\<close>

definition monthOfYday :: "bool \<Rightarrow> int \<Rightarrow> int" where
  "monthOfYday leap yd =
     (let l = (if leap then 1 else 0) in
      if yd < 31 then 1
      else if yd < 59 + l then 2
      else if yd < 90 + l then 3
      else if yd < 120 + l then 4
      else if yd < 151 + l then 5
      else if yd < 181 + l then 6
      else if yd < 212 + l then 7
      else if yd < 243 + l then 8
      else if yd < 273 + l then 9
      else if yd < 304 + l then 10
      else if yd < 334 + l then 11
      else 12)"

definition monthOf :: "int \<Rightarrow> int" where
  "monthOf d = monthOfYday (isLeap (yearOf d)) (ydayOf d)"

text \<open>\<open>Format("2006-01-02")\<close>: the calendar date, that is year and day of the year.\<close>

definition dayKey :: "instant \<Rightarrow> int \<times> int" where
  "dayKey t = (yearOf (unixDay t), ydayOf (unixDay t))"

text \<open>\<open>Format("2006-01")\<close>.\<close>

definition monthKey :: "instant \<Rightarrow> int \<times> int" where
  "monthKey t = (yearOf (unixDay t), monthOf (unixDay t))"

text \<open>
  \<open>ISOWeek\<close>: year and week number are those of the Thursday of the Monday-based
  week; 1970-01-01 was a Thursday.
\<close>

definition thursdayOf :: "int \<Rightarrow> int" where
  "thursdayOf d = d - (d + 3) mod 7 + 3"

definition ISOWeek :: "instant \<Rightarrow> int \<times> int" where
  "ISOWeek t =
     (let th = thursdayOf (unixDay t) in (yearOf th, ydayOf th div 7 + 1))"

section \<open>Group-aware retention\<close>

record RetentionPolicy =
  KeepLast :: int
  KeepDaily :: int
  KeepWeekly :: int
  KeepMonthly :: int

text \<open>The keep-last loop: \<open>i\<close> is the loop index.\<close>

fun markLast :: "nat \<Rightarrow> int \<Rightarrow> JobGroup list \<Rightarrow> string list" where
  "markLast i n [] = []"
| "markLast i n (g # gs) =
     (if int i \<ge> n then [] else JobID g # markLast (Suc i) n gs)"

text \<open>
  The keep-daily, keep-weekly and keep-monthly loops share one shape: \<open>seen\<close> counts the
  windows met so far and \<open>lastW\<close> is the window of the previous group (\<open>None\<close> for the
  initial empty string, which no formatted window equals).
\<close>

fun markWindows ::
  "(instant \<Rightarrow> 'k) \<Rightarrow> int \<Rightarrow> int \<Rightarrow> 'k option \<Rightarrow> JobGroup list \<Rightarrow> string list" where
  "markWindows key n seen lastW [] = []"
| "markWindows key n seen lastW (g # gs) =
     (let w = key (GroupTime g) in
      if Some w \<noteq> lastW then
        (if seen + 1 > n then []
         else JobID g # markWindows key n (seen + 1) (Some w) gs)
      else markWindows key n seen lastW gs)"

definition keepSet :: "JobGroup list \<Rightarrow> RetentionPolicy \<Rightarrow> string set" where
  "keepSet groups policy =
     (if KeepLast policy > 0 then set (markLast 0 (KeepLast policy) groups) else {})
     \<union> (if KeepDaily policy > 0
        then set (markWindows dayKey (KeepDaily policy) 0 None groups) else {})
     \<union> (if KeepWeekly policy > 0
        then set (markWindows ISOWeek (KeepWeekly policy) 0 None groups) else {})
     \<union> (if KeepMonthly policy > 0
        then set (markWindows monthKey (KeepMonthly policy) 0 None groups) else {})"

definition allZero :: "RetentionPolicy \<Rightarrow> bool" where
  "allZero policy =
     (KeepLast policy = 0 \<and> KeepDaily policy = 0 \<and>
      KeepWeekly policy = 0 \<and> KeepMonthly policy = 0)"

definition ApplyGroupRetention ::
  "JobGroup list \<Rightarrow> RetentionPolicy \<Rightarrow> JobGroup list \<times> JobGroup list" where
  "ApplyGroupRetention groups policy =
     (if groups = [] then ([], [])
      else if allZero policy then (groups, [])
      else (filter (\<lambda>g. JobID g \<in> keepSet groups policy) groups,
            filter (\<lambda>g. JobID g \<notin> keepSet groups policy) groups))"

text \<open>All snapshots of a list of groups, as \<open>ForgetGrouped\<close> walks them.\<close>

definition snapshotsOf :: "JobGroup list \<Rightarrow> Snapshot list" where
  "snapshotsOf groups = concat (map Snapshots groups)"


text \<open>
  What \<open>GroupByJob\<close> establishes for a group \<open>g\<close> built from \<open>snaps\<close>: its members are
  the snapshots filed under its id, in input order, and its time is that of the first.
\<close>

definition groupOK :: "Snapshot list \<Rightarrow> JobGroup \<Rightarrow> bool" where
  "groupOK snaps g =
     (Snapshots g = filter (\<lambda>s. jobKey s = JobID g) snaps \<and>
      filter (\<lambda>s. jobKey s = JobID g) snaps \<noteq> [] \<and>
      GroupTime g = Time (hd (filter (\<lambda>s. jobKey s = JobID g) snaps)))"

text \<open>The job ids marked by one of the windowed dimensions.\<close>

definition markedBy :: "(instant \<Rightarrow> int \<times> int) \<Rightarrow> int \<Rightarrow> JobGroup list \<Rightarrow> string set" where
  "markedBy key n gs = (if n > 0 then set (markWindows key n 0 None gs) else {})"

text \<open>
  The windowed dimensions as the specification words them: walk the groups newest
  first; the first group met of a window not seen before marks that window as seen,
  and is marked while fewer than \<open>n\<close> windows have been seen. \<open>seenW\<close> is the list of
  the windows seen so far.
\<close>

fun spec_markWindows ::
  "(instant \<Rightarrow> 'k) \<Rightarrow> int \<Rightarrow> 'k list \<Rightarrow> JobGroup list \<Rightarrow> string list" where
  "spec_markWindows key n seenW [] = []"
| "spec_markWindows key n seenW (g # gs) =
     (let w = key (GroupTime g) in
      if w \<in> set seenW then spec_markWindows key n seenW gs
      else (if int (length seenW) < n then [JobID g] else [])
           @ spec_markWindows key n (w # seenW) gs)"

text \<open>
  The windows as the specification names them, from the instant alone: the UTC date is
  the number of whole days since 1970-01-01, and the ISO week is the number of whole
  Monday-to-Sunday weeks since Monday 1969-12-29 (1970-01-01 was a Thursday).
\<close>

definition spec_dateWindow :: "instant \<Rightarrow> int" where
  "spec_dateWindow t = t div 86400000000000"

definition spec_weekWindow :: "instant \<Rightarrow> int" where
  "spec_weekWindow t = (t div 86400000000000 + 3) div 7"

text \<open>
  The day number of the first day of month \<open>m\<close> of year \<open>y\<close>: the days of the years
  before \<open>y\<close>, the days of the months before \<open>m\<close>, and the leap day once February has
  passed. A calendar month is the span of days from one such day up to the next.
\<close>

definition spec_monthStart :: "int \<Rightarrow> int \<Rightarrow> int" where
  "spec_monthStart y m =
     365 * (y - 1) + (y - 1) div 4 - (y - 1) div 100 + (y - 1) div 400
     + [0, 31, 59, 90, 120, 151, 181, 212, 243, 273, 304, 334] ! nat (m - 1)
     + (if 2 < m \<and> y mod 4 = 0 \<and> (y mod 100 \<noteq> 0 \<or> y mod 400 = 0) then 1 else 0)
     - 719162"

text \<open>
  The keep-set as the specification words it: keep-last marks the first \<open>KeepLast\<close>
  groups, and the daily, weekly and monthly walks run over the windows above.
\<close>

definition spec_keepSet :: "JobGroup list \<Rightarrow> RetentionPolicy \<Rightarrow> string set" where
  "spec_keepSet groups policy =
     (if KeepLast policy > 0
        then set (map JobID (take (nat (KeepLast policy)) groups)) else {})
     \<union> (if KeepDaily policy > 0
        then set (spec_markWindows spec_dateWindow (KeepDaily policy) [] groups) else {})
     \<union> (if KeepWeekly policy > 0
        then set (spec_markWindows spec_weekWindow (KeepWeekly policy) [] groups) else {})
     \<union> (if KeepMonthly policy > 0
        then set (spec_markWindows monthKey (KeepMonthly policy) [] groups) else {})"

text \<open>Groups ordered newest first, as \<open>GroupByJob\<close> returns them.\<close>

definition newestFirst :: "JobGroup list \<Rightarrow> bool" where
  "newestFirst groups = sorted_wrt (\<lambda>a b. GroupTime b \<le> GroupTime a) groups"

text \<open>
  A window key is convex when the instants of one window form an interval; a list of
  windows is contiguous when every window is followed by itself or never met again.
\<close>

definition convex :: "(int \<Rightarrow> 'k) \<Rightarrow> bool" where
  "convex key = (\<forall>a b c. a \<le> b \<and> b \<le> c \<and> key a = key c \<longrightarrow> key b = key a)"

fun contiguous :: "'k list \<Rightarrow> bool" where
  "contiguous [] = True"
| "contiguous [k] = True"
| "contiguous (k # k2 # ks) = ((k2 = k \<or> k \<notin> set (k2 # ks)) \<and> contiguous (k2 # ks))"

section \<open>Strings and numbers of the Go standard library\<close>

text \<open>
  \<open>strings.TrimSpace\<close>, \<open>strings.Split\<close> on a one-byte separator, \<open>strconv.ParseInt\<close>
  with bit size 64, and the \<open>%d\<close> verb. \<open>TrimSpace\<close> is modelled on the ASCII white
  space; \<open>ParseInt\<close> accepts an optional sign and digits of the base only, and fails
  on the empty string and outside the 64-bit signed range.
\<close>

definition isSpace :: "char \<Rightarrow> bool" where
  "isSpace c = (c \<in> set [CHR '' '', CHR 0x09, CHR 0x0A, CHR 0x0B, CHR 0x0C, CHR 0x0D])"

definition TrimSpace :: "string \<Rightarrow> string" where
  "TrimSpace s = rev (dropWhile isSpace (rev (dropWhile isSpace s)))"

fun splitOn :: "char \<Rightarrow> string \<Rightarrow> string list" where
  "splitOn c [] = [[]]"
| "splitOn c (x # xs) =
     (let r = splitOn c xs in if x = c then [] # r else (x # hd r) # tl r)"

definition digitVal :: "char \<Rightarrow> int option" where
  "digitVal c =
     (let n = (of_char c :: int) in
      if 48 \<le> n \<and> n \<le> 57 then Some (n - 48)
      else if 97 \<le> n \<and> n \<le> 122 then Some (n - 87)
      else if 65 \<le> n \<and> n \<le> 90 then Some (n - 55)
      else None)"

fun parseDigits :: "int \<Rightarrow> int \<Rightarrow> string \<Rightarrow> int option" where
  "parseDigits base acc [] = Some acc"
| "parseDigits base acc (c # cs) =
     (case digitVal c of
        None \<Rightarrow> None
      | Some d \<Rightarrow> if d < base then parseDigits base (acc * base + d) cs else None)"

definition ParseInt :: "int \<Rightarrow> string \<Rightarrow> int option" where
  "ParseInt base s =
     (let neg = (s \<noteq> [] \<and> hd s = CHR ''-'');
          ds = (if s \<noteq> [] \<and> (hd s = CHR ''+'' \<or> hd s = CHR ''-'') then tl s else s)
      in if ds = [] then None
         else case parseDigits base 0 ds of
                None \<Rightarrow> None
              | Some v \<Rightarrow>
                  if neg then (if v \<le> 9223372036854775808 then Some (- v) else None)
                  else (if v < 9223372036854775808 then Some v else None))"

text \<open>Two's-complement wrap-around of \<open>int64\<close> arithmetic.\<close>

definition wrap64 :: "int \<Rightarrow> int" where
  "wrap64 x = (x + 9223372036854775808) mod 18446744073709551616 - 9223372036854775808"

definition digitChar :: "int \<Rightarrow> char" where
  "digitChar d = ''0123456789'' ! nat d"

text \<open>The decimal digits of a number that is not negative.\<close>

function showDec :: "int \<Rightarrow> string" where
  "showDec n =
     (if n < 10 then [digitChar n]
      else showDec (n div 10) @ [digitChar (n mod 10)])"
  by pat_completeness auto
termination
  by (relation "measure nat") auto

declare showDec.simps [simp del]

definition showInt :: "int \<Rightarrow> string" where
  "showInt i = (if i < 0 then CHR ''-'' # showDec (- i) else showDec i)"

text \<open>\<open>appendInt\<close> of package time: the number zero-padded to a width.\<close>

definition appendInt :: "int \<Rightarrow> nat \<Rightarrow> string" where
  "appendInt x width =
     (let ds = showDec \<bar>x\<bar> in
      (if x < 0 then ''-'' else []) @ replicate (width - length ds) CHR ''0'' @ ds)"

section \<open>Triage results (package common)\<close>

text \<open>
  \<open>InstanceAssessment\<close> with the fields the repair flow reads; \<open>Notes\<close> and
  \<open>Recommendation\<close> are display text and the Galera-only fields are left out. A Go
  struct literal leaves every field it does not name at its zero value.
\<close>

record InstanceAssessment =
  Pod :: string
  Instance :: int
  IsRunning :: bool
  IsReady :: bool
  NeedsHeal :: bool
  IsPrimary :: bool
  Timeline :: int
  LSN :: string

record DataComparison =
  MostAdvanced :: string
  MostAdvancedValue :: int
  SafeToHeal :: bool
  Warnings :: "string list"
  SplitBrainDetails :: "string list"
  CheckpointLocation :: string
  PrimaryMembers :: "string list"
  BestPrimarySeqno :: int

text \<open>\<open>TriageResult\<close>; its field \<open>DataComparison\<close> is called \<open>Comparison\<close> here.\<close>

record TriageResult =
  Assessments :: "InstanceAssessment list"
  Comparison :: DataComparison
  TotalCount :: int

record Config =
  ClusterName :: string
  Namespace :: string
  InstanceNumber :: "int option"
  Force :: bool
  BackupsPath :: string
  NoEscrow :: bool
  ResticPassword :: string

section \<open>Triage analysis of the Postgres engine (package cnpg)\<close>

text \<open>The fields of \<open>controlData\<close> carry the prefix \<open>cd\<close>.\<close>

record controlData =
  cdPod :: string
  cdSource :: string
  cdReachable :: bool
  cdClusterState :: string
  cdTimeline :: string
  cdCheckpointLocation :: string
  cdCheckpointTime :: string
  cdMinRecoveryEnd :: string
  cdCrashReason :: string

text \<open>
  \<open>triageData\<close>, the part that decides the comparison and \<open>NeedsHeal\<close>;
  \<open>crashloopPods\<close> holds the pod names. Disk usage and PVC states only feed the notes.
\<close>

record triageData =
  controlDataList :: "controlData list"
  primaryControlData :: "controlData option"
  primaryTimeline :: string
  missingInstances :: "string list"
  crashloopPods :: "string list"
  streamingReplicas :: "string list"

definition parseLSNValue :: "string \<Rightarrow> int" where
  "parseLSNValue lsn =
     (if lsn = [] \<or> lsn = ''unknown'' then 0
      else case splitOn CHR ''/'' lsn of
             [a, b] \<Rightarrow>
               (case (ParseInt 16 a, ParseInt 16 b) of
                  (Some hi, Some lo) \<Rightarrow> wrap64 (hi * 4294967296 + lo)
                | _ \<Rightarrow> 0)
           | _ \<Rightarrow> 0)"

definition parseTimelineInt :: "string \<Rightarrow> int" where
  "parseTimelineInt tline =
     (let t = TrimSpace tline in
      if t = [] \<or> t = ''unknown'' then 0
      else case ParseInt 10 t of None \<Rightarrow> 0 | Some n \<Rightarrow> n)"

text \<open>
  The loop of \<open>crossInstanceComparison\<close> (named \<open>cnpg_crossInstanceComparison\<close>
  below, since the Galera engine has a function of the same name); the state is
  \<open>(mostAdvanced, mostAdvancedTL, mostAdvancedLSN, splitBrain)\<close>.
\<close>

fun compareLoop ::
  "string \<Rightarrow> int \<Rightarrow> string \<Rightarrow> controlData list \<Rightarrow>
   string \<times> int \<times> string \<times> string list \<Rightarrow> string \<times> int \<times> string \<times> string list" where
  "compareLoop primaryName pTL pLSN [] st = st"
| "compareLoop primaryName pTL pLSN (inst # rest) (ma, maTL, maLSN, sb) =
     (if cdPod inst = primaryName \<or> cdTimeline inst = ''unknown''
      then compareLoop primaryName pTL pLSN rest (ma, maTL, maLSN, sb)
      else
        let instTL = parseTimelineInt (cdTimeline inst) in
        if instTL > maTL then
          compareLoop primaryName pTL pLSN rest
            (cdPod inst, instTL, cdCheckpointLocation inst,
             sb @ [cdPod inst @ '' has timeline '' @ cdTimeline inst @
                   '' > primary timeline '' @ showInt pTL])
        else if instTL = maTL \<and> cdCheckpointLocation inst \<noteq> ''unknown'' \<and>
                pLSN \<noteq> ''unknown'' then
          (if parseLSNValue (cdCheckpointLocation inst) > parseLSNValue pLSN then
             compareLoop primaryName pTL pLSN rest
               (ma, maTL, maLSN,
                sb @ [cdPod inst @ '' LSN '' @ cdCheckpointLocation inst @
                      '' ahead of primary '' @ pLSN @ '' on same timeline''])
           else compareLoop primaryName pTL pLSN rest (ma, maTL, maLSN, sb))
        else compareLoop primaryName pTL pLSN rest (ma, maTL, maLSN, sb))"

definition primaryTL :: "triageData \<Rightarrow> int" where
  "primaryTL data =
     (case primaryControlData data of
        None \<Rightarrow> 0 | Some p \<Rightarrow> parseTimelineInt (primaryTimeline data))"

definition primaryLSN :: "triageData \<Rightarrow> string" where
  "primaryLSN data =
     (case primaryControlData data of
        None \<Rightarrow> ''unknown'' | Some p \<Rightarrow> cdCheckpointLocation p)"

definition cnpg_crossInstanceComparison :: "triageData \<Rightarrow> string \<Rightarrow> DataComparison" where
  "cnpg_crossInstanceComparison data primaryName =
     (let pTL = primaryTL data;
          pLSN = primaryLSN data;
          (mostAdvanced, mostAdvancedTL, mostAdvancedLSN, splitBrain) =
             compareLoop primaryName pTL pLSN (controlDataList data)
               (primaryName, pTL, pLSN, []);
          safe = (splitBrain = [])
      in \<lparr>MostAdvanced = mostAdvanced,
          MostAdvancedValue = mostAdvancedTL,
          SafeToHeal = safe,
          Warnings =
            (if safe
             then [''OK: Primary '' @ primaryName @ '' has the most recent data (timeline '' @
                   showInt pTL @ '', LSN '' @ pLSN @ '')'']
             else map (\<lambda>sb. ''SPLIT-BRAIN RISK: '' @ sb) splitBrain),
          SplitBrainDetails = splitBrain,
          CheckpointLocation = mostAdvancedLSN,
          PrimaryMembers = [],
          BestPrimarySeqno = 0\<rparr>)"

text \<open>
  \<open>buildAssessments\<close>: the switch that decides \<open>NeedsHeal\<close>, and the struct literal
  appended for each instance. The literal names \<open>Pod\<close>, \<open>IsPrimary\<close>, \<open>Timeline\<close>,
  \<open>LSN\<close>, \<open>Notes\<close>, \<open>Recommendation\<close> and \<open>NeedsHeal\<close>; \<open>Instance\<close>, \<open>IsRunning\<close> and
  \<open>IsReady\<close> keep their zero values.
\<close>

definition cnpg_assess ::
  "triageData \<Rightarrow> DataComparison \<Rightarrow> string \<Rightarrow> controlData \<Rightarrow> InstanceAssessment" where
  "cnpg_assess data comparison primaryName inst =
     (let pTL = primaryTimeline data;
          pLSN = (case primaryControlData data of
                    None \<Rightarrow> ''unknown'' | Some p \<Rightarrow> TrimSpace (cdCheckpointLocation p));
          pLSNVal = parseLSNValue pLSN;
          isPrimary = (cdPod inst = primaryName);
          isMissing = (cdPod inst \<in> set (missingInstances data));
          isCrashloop = (cdPod inst \<in> set (crashloopPods data));
          isStreaming = (cdPod inst \<in> set (streamingReplicas data));
          diskFull = (cdCrashReason inst = ''disk_full'');
          hasData = (cdSource inst \<noteq> ''none'');
          instTL = TrimSpace (cdTimeline inst);
          instLSN = TrimSpace (cdCheckpointLocation inst);
          instLSNVal = parseLSNValue instLSN;
          sameTL = (instTL = pTL \<and> instTL \<noteq> ''unknown'');
          behindTL = (instTL \<noteq> ''unknown'' \<and> pTL \<noteq> ''unknown'' \<and>
                      parseTimelineInt instTL < parseTimelineInt pTL);
          behindLSN = (sameTL \<and> instLSNVal < pLSNVal);
          needsHeal =
            (if isPrimary then False
             else if \<not> SafeToHeal comparison then False
             else if \<not> hasData then False
             else if behindTL then True
             else if sameTL \<and> behindLSN \<and> isStreaming then False
             else if sameTL \<and> behindLSN then
               (if diskFull then True
                else if isMissing then False
                else if isCrashloop then False
                else True)
             else False)
      in \<lparr>Pod = cdPod inst, Instance = 0, IsRunning = False, IsReady = False,
          NeedsHeal = needsHeal, IsPrimary = isPrimary,
          Timeline = parseTimelineInt instTL, LSN = instLSN\<rparr>)"

definition cnpg_buildAssessments ::
  "triageData \<Rightarrow> DataComparison \<Rightarrow> string \<Rightarrow> InstanceAssessment list" where
  "cnpg_buildAssessments data comparison primaryName =
     map (cnpg_assess data comparison primaryName) (controlDataList data)"

text \<open>
  The engine: its configuration, and \<open>status.currentPrimary\<close> and \<open>spec.instances\<close> of
  the cluster resource it holds.
\<close>

record cnpgEngine =
  cfg :: Config
  currentPrimary :: string
  instances :: int

definition cnpg_triageAnalyze :: "cnpgEngine \<Rightarrow> triageData \<Rightarrow> TriageResult" where
  "cnpg_triageAnalyze e data =
     (let comparison = cnpg_crossInstanceComparison data (currentPrimary e) in
      \<lparr>Assessments = cnpg_buildAssessments data comparison (currentPrimary e),
       Comparison = comparison,
       TotalCount = instances e\<rparr>)"

section \<open>Triage analysis of the Galera engine (package galera)\<close>

text \<open>
  The fields of \<open>grastate\<close> carry the prefix \<open>gs\<close>. The Go maps \<open>wsrepMap\<close> and
  \<open>effectiveSeqnos\<close> are association lists, walked in list order where Go walks the
  map in an unspecified order; no statement below depends on the order.
\<close>

record grastate =
  gsPod :: string
  gsSource :: string
  gsReachable :: bool
  gsUUID :: string
  gsSeqno :: string
  gsSafeToBootstrap :: string

record wsrepStatus =
  LocalState :: int
  LocalStateComment :: string
  ClusterStatus :: string
  ClusterSize :: string
  Connected :: string
  Ready :: string
  ClusterStateUUID :: string
  LastCommitted :: int
  FlowControlPaused :: string

record effectiveSeqno =
  Value :: int
  Source :: string

record galeraTriageData =
  grastateData :: "grastate list"
  wsrepMap :: "(string \<times> wsrepStatus) list"
  effectiveSeqnos :: "(string \<times> effectiveSeqno) list"
  primaryMembers :: "string list"
  bestSeqnoNode :: string
  bestSeqnoValue :: int

text \<open>The last loop of \<open>triageCollect\<close>, which fills \<open>primaryMembers\<close>.\<close>

definition collectPrimaryMembers :: "(string \<times> wsrepStatus) list \<Rightarrow> string list" where
  "collectPrimaryMembers wm = map fst (filter (\<lambda>(name, ws). ClusterStatus ws = ''Primary'') wm)"

definition Join :: "string list \<Rightarrow> string \<Rightarrow> string" where
  "Join xs sep = (case xs of [] \<Rightarrow> [] | x # rest \<Rightarrow> foldl (\<lambda>acc y. acc @ sep @ y) x rest)"

text \<open>The keys of \<open>uuidSet\<close>.\<close>

definition observedUUIDs :: "galeraTriageData \<Rightarrow> string list" where
  "observedUUIDs data =
     remdups
       (filter (\<lambda>u. u \<noteq> ''unknown'' \<and> u \<noteq> ''00000000-0000-0000-0000-000000000000'')
          (map gsUUID (grastateData data))
        @ filter (\<lambda>u. u \<noteq> []) (map (\<lambda>(name, ws). ClusterStateUUID ws) (wsrepMap data)))"

fun bestPrimaryLoop ::
  "(string \<times> effectiveSeqno) list \<Rightarrow> string list \<Rightarrow> int \<times> string \<Rightarrow> int \<times> string" where
  "bestPrimaryLoop es [] st = st"
| "bestPrimaryLoop es (pm # pms) (best, pod) =
     (case map_of es pm of
        Some e \<Rightarrow>
          if Value e > best then bestPrimaryLoop es pms (Value e, pm)
          else bestPrimaryLoop es pms (best, pod)
      | None \<Rightarrow> bestPrimaryLoop es pms (best, pod))"

definition galera_crossInstanceComparison :: "galeraTriageData \<Rightarrow> DataComparison" where
  "galera_crossInstanceComparison data =
     (let uuids = observedUUIDs data;
          sb1 = (if length uuids > 1
                 then [''Multiple cluster UUIDs detected: '' @ Join uuids '', ''] else []);
          sb2 = map (\<lambda>(name, ws). name @ '' cluster_status='' @ ClusterStatus ws)
                  (filter (\<lambda>(name, ws). ClusterStatus ws \<noteq> [] \<and> ClusterStatus ws \<noteq> ''Primary'')
                     (wsrepMap data));
          (bestPrimarySeqno, bestPrimaryPod) =
             bestPrimaryLoop (effectiveSeqnos data) (primaryMembers data) (- 2, []);
          sb3 = (if primaryMembers data \<noteq> [] then
                   map (\<lambda>(name, es). name @ '' has seqno '' @ showInt (Value es) @
                          '' > primary best '' @ showInt bestPrimarySeqno @
                          '' ('' @ bestPrimaryPod @ '')'')
                     (filter (\<lambda>(name, es). name \<notin> set (primaryMembers data) \<and>
                                Value es > bestPrimarySeqno \<and> Value es > 0)
                        (effectiveSeqnos data))
                 else []);
          splitBrain = sb1 @ sb2 @ sb3;
          safe = (splitBrain = [])
      in \<lparr>MostAdvanced = bestSeqnoNode data,
          MostAdvancedValue = bestSeqnoValue data,
          SafeToHeal = safe,
          Warnings =
            (if safe then
               (if primaryMembers data \<noteq> [] then
                  [''OK: Primary component ('' @ Join (primaryMembers data) '', '' @
                   '') has the most recent data (best seqno: '' @ showInt bestPrimarySeqno @ '')'']
                else
                  [''WARNING: No nodes in Primary component. Most advanced: '' @
                   bestSeqnoNode data @ '' (seqno: '' @ showInt (bestSeqnoValue data) @ '')''])
             else map (\<lambda>sb. ''SPLIT-BRAIN RISK: '' @ sb) splitBrain),
          SplitBrainDetails = splitBrain,
          CheckpointLocation = [],
          PrimaryMembers = primaryMembers data,
          BestPrimarySeqno = bestPrimarySeqno\<rparr>)"

text \<open>
  The reading of invariant I-SAFE for Galera as the specification words it: a node
  outside the Primary component is ahead of the component's best seqno, or more than
  one cluster UUID is observed.
\<close>

definition spec_galera_unsafe :: "galeraTriageData \<Rightarrow> bool" where
  "spec_galera_unsafe data =
     ((\<exists>(name, es) \<in> set (effectiveSeqnos data).
         name \<notin> set (primaryMembers data) \<and>
         Value es > BestPrimarySeqno (galera_crossInstanceComparison data))
      \<or> card (set (observedUUIDs data)) > 1)"

text \<open>An instance that the Postgres comparison counts as ahead of the primary.\<close>

definition aheadOf :: "string \<Rightarrow> int \<Rightarrow> string \<Rightarrow> controlData \<Rightarrow> bool" where
  "aheadOf primaryName pTL pLSN inst =
     (cdPod inst \<noteq> primaryName \<and> cdTimeline inst \<noteq> ''unknown'' \<and>
      (parseTimelineInt (cdTimeline inst) > pTL \<or>
       (parseTimelineInt (cdTimeline inst) = pTL \<and>
        cdCheckpointLocation inst \<noteq> ''unknown'' \<and> pLSN \<noteq> ''unknown'' \<and>
        parseLSNValue (cdCheckpointLocation inst) > parseLSNValue pLSN)))"

section \<open>The repair flow of the Postgres engine (package cnpg)\<close>

text \<open>\<open>start.UTC().Format("20060102T150405Z")\<close>.\<close>

definition daysBeforeMonth :: "bool \<Rightarrow> int \<Rightarrow> int" where
  "daysBeforeMonth leap m =
     [0, 31, 59, 90, 120, 151, 181, 212, 243, 273, 304, 334] ! nat (m - 1)
     + (if leap \<and> m > 2 then 1 else 0)"

definition mdayOf :: "int \<Rightarrow> int" where
  "mdayOf d = ydayOf d - daysBeforeMonth (isLeap (yearOf d)) (monthOf d) + 1"

definition jobIDOf :: "instant \<Rightarrow> string" where
  "jobIDOf t =
     (let d = unixDay t;
          secs = (t div 1000000000) mod 86400
      in appendInt (yearOf d) 4 @ appendInt (monthOf d) 2 @ appendInt (mdayOf d) 2 @ ''T'' @
         appendInt (secs div 3600) 2 @ appendInt ((secs div 60) mod 60) 2 @
         appendInt (secs mod 60) 2 @ ''Z'')"

text \<open>The arguments of one call of \<open>BackupDump\<close>.\<close>

record backupCall =
  backupType :: string
  donor :: string
  stdinFilename :: string
  jobTime :: instant
  extraTags :: "(string \<times> string) list"

definition cnpg_DumpFilename :: string where
  "cnpg_DumpFilename = ''pgdumpall.sql''"

text \<open>
  Phase 2.6 of \<open>Repair\<close>: the calls of \<open>BackupDump\<close> that the loop over the assessments
  issues. A failed call is logged and the loop continues, so the calls do not depend
  on each other's outcome.
\<close>

definition divergedCalls :: "Config \<Rightarrow> string \<Rightarrow> instant \<Rightarrow> TriageResult \<Rightarrow> backupCall list" where
  "divergedCalls c dumpFile start result =
     (if \<not> SafeToHeal (Comparison result) \<and> \<not> NoEscrow c then
        map (\<lambda>a. \<lparr>backupType = ''diverged'', donor = Pod a,
                   stdinFilename = Namespace c @ ''/'' @ ClusterName c @ ''/'' @
                                   showInt (Instance a) @ ''-'' @ dumpFile,
                   jobTime = start,
                   extraTags = [(''job'', jobIDOf start)]\<rparr>)
          (filter (\<lambda>a. IsRunning a \<and> IsReady a) (Assessments result))
      else [])"

record podStatus =
  Phase :: string
  ContainerReady :: "bool list"

definition runningAndReady :: "podStatus \<Rightarrow> bool" where
  "runningAndReady p = (Phase p = ''Running'' \<and> ContainerReady p \<noteq> [] \<and> hd (ContainerReady p))"

record RepairResult =
  HealedInstances :: "string list"
  SkippedInstances :: "string list"
  PostTriageResult :: "TriageResult option"

text \<open>
  The platform, over a state \<open>'w\<close> of the cluster and the archive that the model
  leaves open. Each operation may fail with a message. \<open>triageCollect\<close> may create and
  delete probe pods, \<open>backupDump\<close> writes a snapshot, \<open>healInstance\<close> is the heal
  sequence of \<open>heal.go\<close>, the only place of the repair flow that fences an instance,
  creates a heal pod or deletes a database pod; \<open>getPod\<close> and \<open>getPVC\<close> only read.
\<close>

record 'w cnpgPlatform =
  triageCollect :: "'w \<Rightarrow> (string + triageData) \<times> 'w"
  getPod :: "string \<Rightarrow> 'w \<Rightarrow> string + podStatus"
  backupDump :: "backupCall \<Rightarrow> 'w \<Rightarrow> (string + string) \<times> 'w"
  getPVC :: "string \<Rightarrow> 'w \<Rightarrow> string option"
  healInstance :: "string \<Rightarrow> string \<Rightarrow> 'w \<Rightarrow> string option \<times> 'w"
  refetchCluster :: "cnpgEngine \<Rightarrow> 'w \<Rightarrow> cnpgEngine"

fun runDiverged :: "'w cnpgPlatform \<Rightarrow> backupCall list \<Rightarrow> 'w \<Rightarrow> 'w" where
  "runDiverged pf [] w = w"
| "runDiverged pf (c # cs) w = runDiverged pf cs (snd (backupDump pf c w))"

text \<open>\<open>repairTargeted\<close>, for the instance number \<open>n\<close> that the configuration points to.\<close>

definition cnpg_repairTargeted ::
  "'w cnpgPlatform \<Rightarrow> cnpgEngine \<Rightarrow> int \<Rightarrow> TriageResult \<Rightarrow> RepairResult \<Rightarrow> 'w \<Rightarrow>
   string option \<times> RepairResult \<times> 'w" where
  "cnpg_repairTargeted pf e n result repairResult w =
     (let targetPod = ClusterName (cfg e) @ ''-'' @ showInt n;
          primary = currentPrimary e
      in if targetPod = primary then
           (Some (''ABORT: '' @ targetPod @
                  '' is the PRIMARY. Cannot heal primary. Use switchover first''),
            repairResult, w)
         else case find (\<lambda>a. Pod a = targetPod) (Assessments result) of
           None \<Rightarrow>
             (Some (''ABORT: '' @ targetPod @
                    '' not found in instance assessments. Check cluster_name and instance_number''),
              repairResult, w)
         | Some targetAssessment \<Rightarrow>
             if \<not> SafeToHeal (Comparison result) \<and> \<not> Force (cfg e) then
               (Some (''ABORT: Split-brain detected. Healing '' @ targetPod @
                      '' may cause DATA LOSS. Re-run with --force to override''),
                repairResult, w)
             else if \<not> NeedsHeal targetAssessment \<and> \<not> Force (cfg e) then
               (None,
                repairResult\<lparr>SkippedInstances := SkippedInstances repairResult @ [targetPod]\<rparr>,
                w)
             else case getPVC pf targetPod w of
               Some err \<Rightarrow>
                 (Some (''PVC '' @ targetPod @ '' not found: '' @ err), repairResult, w)
             | None \<Rightarrow>
                 (case healInstance pf targetPod targetPod w of
                    (Some err, w') \<Rightarrow> (Some err, repairResult, w')
                  | (None, w') \<Rightarrow>
                      (None,
                       repairResult\<lparr>HealedInstances :=
                                      HealedInstances repairResult @ [targetPod]\<rparr>,
                       w')))"

fun healTargets ::
  "'w cnpgPlatform \<Rightarrow> InstanceAssessment list \<Rightarrow> RepairResult \<Rightarrow> 'w \<Rightarrow>
   string option \<times> RepairResult \<times> 'w" where
  "healTargets pf [] repairResult w = (None, repairResult, w)"
| "healTargets pf (t # ts) repairResult w =
     (case healInstance pf (Pod t) (Pod t) w of
        (Some err, w') \<Rightarrow>
          (Some (''heal failed for '' @ Pod t @ '': '' @ err), repairResult, w')
      | (None, w') \<Rightarrow>
          healTargets pf ts
            (repairResult\<lparr>HealedInstances := HealedInstances repairResult @ [Pod t]\<rparr>) w')"

definition cnpg_repairUntargeted ::
  "'w cnpgPlatform \<Rightarrow> cnpgEngine \<Rightarrow> TriageResult \<Rightarrow> RepairResult \<Rightarrow> 'w \<Rightarrow>
   string option \<times> RepairResult \<times> 'w" where
  "cnpg_repairUntargeted pf e result repairResult w =
     (if \<not> SafeToHeal (Comparison result) then
        (Some (''HARD STOP: Split-brain detected. Cannot auto-heal all replicas. '' @
               ''Admin must review triage output, then use targeted repair: --instance <N>''),
         repairResult, w)
      else
        let targets = filter NeedsHeal (Assessments result);
            rr = repairResult\<lparr>SkippedInstances := SkippedInstances repairResult @
                    map Pod (filter (\<lambda>a. \<not> NeedsHeal a) (Assessments result))\<rparr>
        in if targets = [] then (None, rr, w)
           else case healTargets pf targets rr w of
             (Some err, rr', w') \<Rightarrow> (Some err, rr', w')
           | (None, rr', w') \<Rightarrow>
               (case triageCollect pf w' of
                  (Inl err, w'') \<Rightarrow> (None, rr'\<lparr>PostTriageResult := None\<rparr>, w'')
                | (Inr data, w'') \<Rightarrow>
                    (None,
                     rr'\<lparr>PostTriageResult :=
                           Some (cnpg_triageAnalyze (refetchCluster pf e w') data)\<rparr>,
                     w'')))"

text \<open>
  \<open>Repair\<close>, started at the instant \<open>start\<close>. The reads of the postgres UID, GID and
  image name only fill the heal configuration and are left out.
\<close>

definition cnpg_Repair ::
  "'w cnpgPlatform \<Rightarrow> cnpgEngine \<Rightarrow> instant \<Rightarrow> 'w \<Rightarrow> (string + RepairResult) \<times> 'w" where
  "cnpg_Repair pf e start w =
     (case triageCollect pf w of
        (Inl err, w1) \<Rightarrow> (Inl (''triage failed: triage collect failed: '' @ err), w1)
      | (Inr data, w1) \<Rightarrow>
          let result = cnpg_triageAnalyze e data;
              primary = currentPrimary e
          in if primary = [] then
               (Inl (''ABORT: No primary detected. '' @
                     ''Cannot heal replicas without a healthy primary''), w1)
             else case getPod pf primary w1 of
               Inl err \<Rightarrow>
                 (Inl (''ABORT: Primary pod '' @ primary @ '' not found: '' @ err), w1)
             | Inr primaryPod \<Rightarrow>
                 if \<not> runningAndReady primaryPod then
                   (Inl (''ABORT: Primary '' @ primary @
                         '' is not running and ready. Fix primary first''), w1)
                 else if \<not> NoEscrow (cfg e) \<and>
                         (BackupsPath (cfg e) = [] \<or> ResticPassword (cfg e) = []) then
                   (Inl (''repair requires --backups-path and RESTIC_PASSWORD for escrow '' @
                         ''(or --no-escrow to skip)''), w1)
                 else
                   case (if \<not> NoEscrow (cfg e) then
                           backupDump pf
                             \<lparr>backupType = ''backup'', donor = primary,
                              stdinFilename = Namespace (cfg e) @ ''/'' @ ClusterName (cfg e) @
                                              ''/'' @ cnpg_DumpFilename,
                              jobTime = start, extraTags = []\<rparr> w1
                         else (Inr [], w1)) of
                     (Inl err, w2) \<Rightarrow> (Inl (''pre-repair backup failed: '' @ err), w2)
                   | (Inr escrow, w2) \<Rightarrow>
                       let w3 = runDiverged pf
                                  (divergedCalls (cfg e) cnpg_DumpFilename start result) w2;
                           empty = \<lparr>HealedInstances = [], SkippedInstances = [],
                                    PostTriageResult = None\<rparr>
                       in case (case InstanceNumber (cfg e) of
                                  Some n \<Rightarrow> cnpg_repairTargeted pf e n result empty w3
                                | None \<Rightarrow> cnpg_repairUntargeted pf e result empty w3) of
                            (Some err, rr, w4) \<Rightarrow> (Inl err, w4)
                          | (None, rr, w4) \<Rightarrow> (Inr rr, w4))"

text \<open>The escrow call of phase 2.5 and the message of the primary gate.\<close>

definition escrowCall :: "cnpgEngine \<Rightarrow> instant \<Rightarrow> backupCall" where
  "escrowCall e start =
     \<lparr>backupType = ''backup'', donor = currentPrimary e,
      stdinFilename = Namespace (cfg e) @ ''/'' @ ClusterName (cfg e) @ ''/'' @ cnpg_DumpFilename,
      jobTime = start, extraTags = []\<rparr>"

definition abortPrimary :: "string \<Rightarrow> string" where
  "abortPrimary pod =
     ''ABORT: '' @ pod @ '' is the PRIMARY. Cannot heal primary. Use switchover first''"

section \<open>The streaming dump backup (packages cnpg, galera, k8s and restic)\<close>

record BackupSummary =
  SnapshotID :: string
  DataAdded :: int
  TotalSize :: int

text \<open>\<open>BackupResult\<close>; the fields carry the prefix \<open>br\<close>, the duration is left out.\<close>

record BackupResult =
  brSnapshotID :: string
  brRepository :: string
  brSize :: int
  brTags :: "(string \<times> string) list"

text \<open>
  One run of \<open>BackupDump\<close>, as the platform, the remote dump and the restic process
  determine it. \<open>healthyPod\<close> is the result of \<open>findHealthyPod\<close> (Galera, empty donor
  only), \<open>donorPod\<close> that of reading the donor pod, \<open>initErr\<close> the error of \<open>Init\<close>.
  The remote dump makes \<open>dumpWrites\<close> writes to the pipe, after which \<open>ExecStream\<close>
  returns \<open>execResult\<close>. \<open>pipeErr\<close> and \<open>startErr\<close> are the errors of \<open>StdoutPipe\<close> and
  \<open>Start\<close> of the restic command, \<open>resticTakes\<close> is the number of writes to its standard
  input that restic takes before it is gone (\<open>None\<close>: it reads until its input is
  closed), \<open>resticExit\<close> the error of its exit and \<open>summaryLine\<close> the summary message in
  its output. The context is taken to stay live.
\<close>

record dumpRun =
  healthyPod :: "string + string"
  donorPod :: "string + podStatus"
  initErr :: "string option"
  dumpWrites :: nat
  execResult :: "string option"
  pipeErr :: "string option"
  startErr :: "string option"
  resticTakes :: "nat option"
  resticExit :: "string option"
  summaryLine :: "BackupSummary option"

text \<open>Assignment to a key of the tag map.\<close>

fun setTag :: "string \<Rightarrow> string \<Rightarrow> (string \<times> string) list \<Rightarrow> (string \<times> string) list" where
  "setTag k v [] = [(k, v)]"
| "setTag k v ((k', v') # rest) =
     (if k' = k then (k, v) # rest else (k', v') # setTag k v rest)"

definition dumpTags :: "string \<Rightarrow> Config \<Rightarrow> backupCall \<Rightarrow> (string \<times> string) list" where
  "dumpTags engineName c call =
     foldl (\<lambda>tags (k, v). setTag k v tags)
       [(''engine'', engineName), (''cluster'', ClusterName c), (''namespace'', Namespace c),
        (''type'', backupType call)]
       (extraTags call)"

text \<open>
  The loop by which the restic command copies the reader of \<open>ExecPipeOut\<close> to the
  standard input of restic, for a dump with \<open>pending\<close> writes left and a restic that
  still takes \<open>takes\<close> writes. It reads one write of the dump at a time and passes it
  on. It ends at the end of the stream, which the dump goroutine marks by closing the
  pipe (with its error, if any), or at the first write that restic no longer takes (a
  broken pipe, which is not reported). The result tells whether the loop saw the end of
  the stream, and how many writes of the dump it read.
\<close>

fun stdinCopy :: "nat \<Rightarrow> nat option \<Rightarrow> bool \<times> nat" where
  "stdinCopy 0 takes = (True, 0)"
| "stdinCopy (Suc pending) None =
     (let (sawEnd, reads) = stdinCopy pending None in (sawEnd, Suc reads))"
| "stdinCopy (Suc pending) (Some 0) = (False, 1)"
| "stdinCopy (Suc pending) (Some (Suc k)) =
     (let (sawEnd, reads) = stdinCopy pending (Some k) in (sawEnd, Suc reads))"

text \<open>
  \<open>BackupStdin\<close>, with the number of writes of the dump that were read from the pipe.
  \<open>Wait\<close> of the restic command reports the exit error of restic and, when restic
  exited cleanly, the error with which the copy loop ended.
\<close>

definition BackupStdin :: "dumpRun \<Rightarrow> (string + BackupSummary) \<times> nat" where
  "BackupStdin run =
     (case pipeErr run of
        Some err \<Rightarrow> (Inl (''failed to create stdout pipe: '' @ err), 0)
      | None \<Rightarrow>
          (case startErr run of
             Some err \<Rightarrow> (Inl (''failed to start restic backup: '' @ err), 0)
           | None \<Rightarrow>
               (let (sawEnd, reads) = stdinCopy (dumpWrites run) (resticTakes run);
                    waitErr = (case resticExit run of
                                 Some err \<Rightarrow> Some err
                               | None \<Rightarrow> if sawEnd then execResult run else None)
                in (case waitErr of
                      Some err \<Rightarrow> Inl (''restic backup failed: '' @ err)
                    | None \<Rightarrow>
                        (case summaryLine run of
                           None \<Rightarrow> Inl ''restic backup completed but no summary in output''
                         | Some summary \<Rightarrow> Inr summary),
                    reads))))"

text \<open>
  \<open>wait()\<close> of \<open>ExecPipeOut\<close>: the dump goroutine ends, and \<open>done\<close> is closed, once every
  write of the dump has been read; a write that nobody reads blocks for ever, and then
  \<open>wait()\<close> does not return (\<open>None\<close>).
\<close>

definition execWait :: "dumpRun \<Rightarrow> nat \<Rightarrow> string option option" where
  "execWait run reads = (if reads = dumpWrites run then Some (execResult run) else None)"

text \<open>
  The part of \<open>BackupDump\<close> that both engines share, from the donor check on. \<open>None\<close>:
  the call does not return.
\<close>

definition dumpFrom ::
  "string \<Rightarrow> string \<Rightarrow> Config \<Rightarrow> string \<Rightarrow> backupCall \<Rightarrow> dumpRun \<Rightarrow>
   (string + BackupResult) option" where
  "dumpFrom engineName tool c donorName call run =
     (case donorPod run of
        Inl err \<Rightarrow> Some (Inl (''donor pod '' @ donorName @ '' not found: '' @ err))
      | Inr pod \<Rightarrow>
          if \<not> runningAndReady pod then
            Some (Inl (''donor pod '' @ donorName @ '' is not running and ready''))
          else case initErr run of
            Some err \<Rightarrow> Some (Inl (''failed to initialize restic repository: '' @ err))
          | None \<Rightarrow>
              (let (archive, reads) = BackupStdin run in
               case execWait run reads of
                 None \<Rightarrow> None
               | Some execErr \<Rightarrow>
                   (case archive of
                      Inl err \<Rightarrow> Some (Inl (''restic backup failed: '' @ err))
                    | Inr summary \<Rightarrow>
                        (case execErr of
                           Some err \<Rightarrow> Some (Inl (tool @ '' exec failed: '' @ err))
                         | None \<Rightarrow>
                             Some (Inr \<lparr>brSnapshotID = SnapshotID summary,
                                        brRepository = BackupsPath c,
                                        brSize = TotalSize summary,
                                        brTags = dumpTags engineName c call\<rparr>)))))"

definition cnpg_BackupDump ::
  "Config \<Rightarrow> backupCall \<Rightarrow> dumpRun \<Rightarrow> (string + BackupResult) option" where
  "cnpg_BackupDump c call run = dumpFrom ''cnpg'' ''pg_dumpall'' c (donor call) call run"

definition galera_BackupDump ::
  "Config \<Rightarrow> backupCall \<Rightarrow> dumpRun \<Rightarrow> (string + BackupResult) option" where
  "galera_BackupDump c call run =
     (if donor call = [] then
        (case healthyPod run of
           Inl err \<Rightarrow> Some (Inl err)
         | Inr found \<Rightarrow> dumpFrom ''galera'' ''mysqldump'' c found call run)
      else dumpFrom ''galera'' ''mysqldump'' c (donor call) call run)"

text \<open>
  The streaming step is reached when the donor is running and ready and \<open>Init\<close>
  succeeded. The dump is drained when every write of it was read, so that \<open>wait()\<close>
  returns. The step has failed when the archive step or the remote dump reports an
  error.
\<close>

definition pipelineReached :: "dumpRun \<Rightarrow> bool" where
  "pipelineReached run =
     ((case donorPod run of Inl err \<Rightarrow> False | Inr pod \<Rightarrow> runningAndReady pod) \<and>
      initErr run = None)"

definition dumpDrained :: "dumpRun \<Rightarrow> bool" where
  "dumpDrained run = (snd (BackupStdin run) = dumpWrites run)"

definition pipelineFailed :: "dumpRun \<Rightarrow> bool" where
  "pipelineFailed run = (isl (fst (BackupStdin run)) \<or> execResult run \<noteq> None)"

text \<open>
  The remote dump failed first when it ended with an error while restic was running and
  still reading: the copy loop then saw the end of the stream, closed with that error.
\<close>

definition execFailedFirst :: "dumpRun \<Rightarrow> bool" where
  "execFailedFirst run =
     (execResult run \<noteq> None \<and> pipeErr run = None \<and> startErr run = None \<and>
      fst (stdinCopy (dumpWrites run) (resticTakes run)))"

text \<open>
  The error that the specification words for a failed pipeline: the archive error,
  unless the dump exec failed first.
\<close>

definition spec_pipelineError :: "string \<Rightarrow> dumpRun \<Rightarrow> string" where
  "spec_pipelineError tool run =
     (case (fst (BackupStdin run), execResult run) of
        (Inl a, Some x) \<Rightarrow>
          if execFailedFirst run then tool @ '' exec failed: '' @ x
          else ''restic backup failed: '' @ a
      | (Inl a, None) \<Rightarrow> ''restic backup failed: '' @ a
      | (Inr summary, Some x) \<Rightarrow> tool @ '' exec failed: '' @ x
      | (Inr summary, None) \<Rightarrow> [])"

section \<open>The heal sequence of the Galera engine (package galera)\<close>

text \<open>
  The mutating platform calls of \<open>healNode\<close>. \<open>Scale\<close> is \<open>scaleStatefulSet\<close> (read the
  scale, then update it), \<open>RunHelper name pvc\<close> is \<open>runHelperPod\<close> (create the pod, wait
  for its phase, delete it), \<open>DeleteRecoveryPods\<close> is \<open>deleteRecoveryPods\<close>.
\<close>

datatype action =
    SuspendCR
  | ResumeCR
  | Scale int
  | RunHelper string string
  | DeletePod string
  | DeleteRecoveryPods

text \<open>
  The state of the cluster that the sequence changes, and the calls attempted so far.
  The \<open>i\<close>-th attempted call fails with \<open>err\<close> when \<open>fails i = Some err\<close>; a failed call
  changes nothing. The waits for the target pod only read and are left out.
\<close>

record galeraWorld =
  crSuspended :: bool
  stsReplicas :: int
  trace :: "action list"

definition effect :: "action \<Rightarrow> galeraWorld \<Rightarrow> galeraWorld" where
  "effect a w =
     (case a of
        SuspendCR \<Rightarrow> w\<lparr>crSuspended := True\<rparr>
      | ResumeCR \<Rightarrow> w\<lparr>crSuspended := False\<rparr>
      | Scale n \<Rightarrow> w\<lparr>stsReplicas := n\<rparr>
      | _ \<Rightarrow> w)"

definition attempt ::
  "(nat \<Rightarrow> string option) \<Rightarrow> action \<Rightarrow> galeraWorld \<Rightarrow> string option \<times> galeraWorld" where
  "attempt fails a w =
     (let w' = w\<lparr>trace := trace w @ [a]\<rparr> in
      case fails (length (trace w)) of
        Some err \<Rightarrow> (Some err, w')
      | None \<Rightarrow> (None, effect a w'))"

record galeraEngine =
  gcfg :: Config
  replicas :: int

definition storageHelper :: "galeraEngine \<Rightarrow> int \<Rightarrow> int \<Rightarrow> string" where
  "storageHelper e instanceNum now =
     ClusterName (gcfg e) @ ''-heal-storage-'' @ showInt instanceNum @ ''-'' @ showInt now"

definition galeraHelper :: "galeraEngine \<Rightarrow> int \<Rightarrow> int \<Rightarrow> string" where
  "galeraHelper e instanceNum now =
     ClusterName (gcfg e) @ ''-heal-galera-'' @ showInt instanceNum @ ''-'' @ showInt now"

definition storagePVC :: "string \<Rightarrow> string" where
  "storagePVC targetPod = ''storage-'' @ targetPod"

definition galeraPVC :: "string \<Rightarrow> string" where
  "galeraPVC targetPod = ''galera-'' @ targetPod"

definition scaleTarget :: "galeraEngine \<Rightarrow> int \<Rightarrow> int" where
  "scaleTarget e instanceNum = (if instanceNum = replicas e - 1 then instanceNum else 0)"

text \<open>
  The closure \<open>rescue\<close>, with the values of \<open>suspended\<close> and \<open>scaledDown\<close> at the call.
  The errors of its calls are discarded.
\<close>

definition rescue ::
  "(nat \<Rightarrow> string option) \<Rightarrow> galeraEngine \<Rightarrow> int \<Rightarrow> int \<Rightarrow> bool \<Rightarrow> bool \<Rightarrow> bool \<Rightarrow>
   galeraWorld \<Rightarrow> galeraWorld" where
  "rescue fails e instanceNum now hasGaleraPVC suspended scaledDown w =
     (let w1 = snd (attempt fails (DeletePod (storageHelper e instanceNum now)) w);
          w2 = (if hasGaleraPVC
                then snd (attempt fails (DeletePod (galeraHelper e instanceNum now)) w1)
                else w1);
          w3 = (if scaledDown then snd (attempt fails (Scale (replicas e)) w2) else w2)
      in if suspended then snd (attempt fails ResumeCR w3) else w3)"

text \<open>
  \<open>healNode\<close> for the pod \<open>targetPod\<close> with ordinal \<open>instanceNum\<close>, started at Unix time
  \<open>now\<close>; \<open>hasGaleraPVC\<close> is the answer of the read of the config volume claim.
\<close>

definition healNode ::
  "(nat \<Rightarrow> string option) \<Rightarrow> galeraEngine \<Rightarrow> string \<Rightarrow> int \<Rightarrow> int \<Rightarrow> bool \<Rightarrow>
   galeraWorld \<Rightarrow> string option \<times> galeraWorld" where
  "healNode fails e targetPod instanceNum now hasGaleraPVC w =
     (case attempt fails SuspendCR w of
        (Some err, w1) \<Rightarrow> (Some (''failed to suspend CR: '' @ err), w1)
      | (None, w1) \<Rightarrow>
     (case attempt fails (Scale (scaleTarget e instanceNum)) w1 of
        (Some err, w2) \<Rightarrow>
          (Some (''failed to scale StatefulSet: '' @ err),
           rescue fails e instanceNum now hasGaleraPVC True False w2)
      | (None, w2) \<Rightarrow>
     (case attempt fails
             (RunHelper (storageHelper e instanceNum now) (storagePVC targetPod)) w2 of
        (Some err, w3) \<Rightarrow>
          (Some (''storage helper failed: '' @ err),
           rescue fails e instanceNum now hasGaleraPVC True True w3)
      | (None, w3) \<Rightarrow>
     (case (if hasGaleraPVC
            then attempt fails
                   (RunHelper (galeraHelper e instanceNum now) (galeraPVC targetPod)) w3
            else (None, w3)) of
        (Some err, w4) \<Rightarrow>
          (Some (''galera config helper failed: '' @ err),
           rescue fails e instanceNum now hasGaleraPVC True True w4)
      | (None, w4) \<Rightarrow>
     (let w5 = snd (attempt fails DeleteRecoveryPods w4) in
      case attempt fails (Scale (replicas e)) w5 of
        (Some err, w6) \<Rightarrow>
          (Some (''failed to scale StatefulSet back up: '' @ err),
           rescue fails e instanceNum now hasGaleraPVC True True w6)
      | (None, w6) \<Rightarrow>
     (case attempt fails ResumeCR w6 of
        (Some err, w7) \<Rightarrow>
          (Some (''failed to resume CR: '' @ err),
           rescue fails e instanceNum now hasGaleraPVC True False w7)
      | (None, w7) \<Rightarrow> (None, w7)))))))"

text \<open>The calls of the rescue path, in order.\<close>

definition rescueActs :: "galeraEngine \<Rightarrow> int \<Rightarrow> int \<Rightarrow> bool \<Rightarrow> bool \<Rightarrow> action list" where
  "rescueActs e instanceNum now hasGaleraPVC scaledDown =
     [DeletePod (storageHelper e instanceNum now)]
     @ (if hasGaleraPVC then [DeletePod (galeraHelper e instanceNum now)] else [])
     @ (if scaledDown then [Scale (replicas e)] else [])
     @ [ResumeCR]"

text \<open>The calls \<open>healNode\<close> makes when nothing fails, in order. The deletion of stale
  recovery pods is a call whose error the source discards.\<close>

definition healPlan :: "galeraEngine \<Rightarrow> string \<Rightarrow> int \<Rightarrow> int \<Rightarrow> bool \<Rightarrow> action list" where
  "healPlan e targetPod instanceNum now hasGaleraPVC =
     [SuspendCR, Scale (scaleTarget e instanceNum),
      RunHelper (storageHelper e instanceNum now) (storagePVC targetPod)]
     @ (if hasGaleraPVC
        then [RunHelper (galeraHelper e instanceNum now) (galeraPVC targetPod)] else [])
     @ [DeleteRecoveryPods, Scale (replicas e), ResumeCR]"

text \<open>\<open>rescued\<close>: the heal stopped at call \<open>k\<close> of the plan, the rescue ran after it, and
  the returned message ends with the error of call \<open>k\<close>.\<close>

definition rescued ::
  "(nat \<Rightarrow> string option) \<Rightarrow> galeraEngine \<Rightarrow> string \<Rightarrow> int \<Rightarrow> int \<Rightarrow> bool \<Rightarrow>
   galeraWorld \<Rightarrow> string \<Rightarrow> galeraWorld \<Rightarrow> bool" where
  "rescued fails e targetPod instanceNum now hasGaleraPVC w msg w' =
     (\<exists>k scaledDown prefix err.
        0 < k \<and> k < length (healPlan e targetPod instanceNum now hasGaleraPVC) \<and>
        trace w' = trace w @ take (Suc k) (healPlan e targetPod instanceNum now hasGaleraPVC)
                   @ rescueActs e instanceNum now hasGaleraPVC scaledDown \<and>
        (scaledDown \<longleftrightarrow>
           1 < k \<and> healPlan e targetPod instanceNum now hasGaleraPVC ! k \<noteq> ResumeCR) \<and>
        fails (length (trace w) + k) = Some err \<and>
        msg = prefix @ err \<and>
        (crSuspended w' \<longleftrightarrow>
           fails (length (trace w) + k +
                  length (rescueActs e instanceNum now hasGaleraPVC scaledDown)) \<noteq> None))"

section \<open>Example data\<close>

definition exGroup :: "string \<Rightarrow> instant \<Rightarrow> JobGroup" where
  "exGroup j t = \<lparr>JobID = j, GroupTime = t, Snapshots = []\<rparr>"

definition exSnap :: "string \<Rightarrow> instant \<Rightarrow> string list \<Rightarrow> Snapshot" where
  "exSnap i t tags = \<lparr>ID = i, ShortID = i, Time = t, Hostname = [], Tags = tags, Paths = []\<rparr>"

definition exCD :: "string \<Rightarrow> string \<Rightarrow> string \<Rightarrow> controlData" where
  "exCD pod tline lsn = \<lparr>cdPod = pod, cdSource = ''exec'', cdReachable = True,
     cdClusterState = ''in production'', cdTimeline = tline, cdCheckpointLocation = lsn,
     cdCheckpointTime = ''unknown'', cdMinRecoveryEnd = ''unknown'', cdCrashReason = []\<rparr>"

text \<open>Triage data as \<open>triageCollect\<close> leaves it for a primary \<open>p\<close> that was probed.\<close>

definition exTriage :: "controlData \<Rightarrow> controlData list \<Rightarrow> triageData" where
  "exTriage p cds = \<lparr>controlDataList = cds, primaryControlData = Some p,
     primaryTimeline = TrimSpace (cdTimeline p), missingInstances = [], crashloopPods = [],
     streamingReplicas = []\<rparr>"

definition exWsrep :: "string \<Rightarrow> string \<Rightarrow> int \<Rightarrow> wsrepStatus" where
  "exWsrep status uuid committed = \<lparr>LocalState = 4, LocalStateComment = ''Synced'',
     ClusterStatus = status, ClusterSize = ''3'', Connected = ''ON'', Ready = ''ON'',
     ClusterStateUUID = uuid, LastCommitted = committed, FlowControlPaused = ''0''\<rparr>"

definition exGrastate :: "string \<Rightarrow> string \<Rightarrow> string \<Rightarrow> grastate" where
  "exGrastate pod uuid seqno = \<lparr>gsPod = pod, gsSource = ''exec'', gsReachable = True,
     gsUUID = uuid, gsSeqno = seqno, gsSafeToBootstrap = ''0''\<rparr>"

text \<open>
  Three Galera nodes with one cluster UUID: \<open>g-0\<close> and \<open>g-1\<close> in the Primary component
  at seqno 100, \<open>g-2\<close> outside it and behind, at seqno 50.
\<close>

definition exGalera :: galeraTriageData where
  "exGalera =
     (let wm = [(''g-0'', exWsrep ''Primary'' ''u1'' 100), (''g-1'', exWsrep ''Primary'' ''u1'' 100),
                (''g-2'', exWsrep ''non-Primary'' ''u1'' 50)] in
      \<lparr>grastateData = [exGrastate ''g-0'' ''u1'' ''-1'', exGrastate ''g-1'' ''u1'' ''-1'',
                        exGrastate ''g-2'' ''u1'' ''-1''],
       wsrepMap = wm,
       effectiveSeqnos = [(''g-0'', \<lparr>Value = 100, Source = ''wsrep_last_committed''\<rparr>),
                          (''g-1'', \<lparr>Value = 100, Source = ''wsrep_last_committed''\<rparr>),
                          (''g-2'', \<lparr>Value = 50, Source = ''wsrep_last_committed''\<rparr>)],
       primaryMembers = collectPrimaryMembers wm,
       bestSeqnoNode = ''g-0'', bestSeqnoValue = 100\<rparr>)"

text \<open>
  A configuration for cluster \<open>c\<close> in namespace \<open>db\<close> with escrow enabled, and a platform
  whose state is the log of what was written: every call succeeds, a backup logs its
  virtual path, a heal logs fence, heal and unfence.
\<close>

definition exConfig :: "int option \<Rightarrow> bool \<Rightarrow> Config" where
  "exConfig n force = \<lparr>ClusterName = ''c'', Namespace = ''db'', InstanceNumber = n,
     Force = force, BackupsPath = ''/backups'', NoEscrow = False, ResticPassword = ''secret''\<rparr>"

definition exPlatform :: "triageData \<Rightarrow> string list cnpgPlatform" where
  "exPlatform data =
     \<lparr>triageCollect = (\<lambda>w. (Inr data, w)),
      getPod = (\<lambda>name w. Inr \<lparr>Phase = ''Running'', ContainerReady = [True]\<rparr>),
      backupDump = (\<lambda>c w. (Inr ''snap'', w @ [''snapshot '' @ stdinFilename c])),
      getPVC = (\<lambda>name w. None),
      healInstance = (\<lambda>pod pvc w. (None, w @ [''fence '' @ pod, ''heal '' @ pod, ''unfence '' @ pod])),
      refetchCluster = (\<lambda>e w. e)\<rparr>"

text \<open>
  The split-brain cluster of three instances of scenario 3, an engine for it in
  untargeted mode, and an assessment as the repair loop expects it for a pod that is
  running and ready.
\<close>

definition exReady :: "string \<Rightarrow> int \<Rightarrow> InstanceAssessment" where
  "exReady pod n = \<lparr>Pod = pod, Instance = n, IsRunning = True, IsReady = True,
     NeedsHeal = False, IsPrimary = False, Timeline = 5, LSN = ''0/A0''\<rparr>"

definition exSplitBrain :: triageData where
  "exSplitBrain = exTriage (exCD ''c-1'' ''5'' ''0/A0'')
     [exCD ''c-1'' ''5'' ''0/A0'', exCD ''c-2'' ''6'' ''0/50'', exCD ''c-3'' ''5'' ''0/99'']"

definition exEngine :: cnpgEngine where
  "exEngine = \<lparr>cfg = exConfig None False, currentPrimary = ''c-1'', instances = 3\<rparr>"

text \<open>
  Two runs in which the remote dump writes twice and then fails with a reset
  connection, while restic reads its input to the end. In the first restic exits with
  status 1; in the second it exits cleanly, having saved what it was given.
\<close>

definition exRun :: dumpRun where
  "exRun = \<lparr>healthyPod = Inr ''g-0'',
            donorPod = Inr \<lparr>Phase = ''Running'', ContainerReady = [True]\<rparr>,
            initErr = None,
            dumpWrites = 2,
            execResult = Some ''connection reset by peer'',
            pipeErr = None, startErr = None,
            resticTakes = None,
            resticExit = Some ''exit status 1'',
            summaryLine = None\<rparr>"

definition exRunClean :: dumpRun where
  "exRunClean = exRun\<lparr>resticExit := None,
     summaryLine := Some \<lparr>SnapshotID = ''4f2a'', DataAdded = 10, TotalSize = 10\<rparr>\<rparr>"

text \<open>A run in which restic exits at once and the dump still has three writes to make.\<close>

definition exRunEarly :: dumpRun where
  "exRunEarly = exRun\<lparr>dumpWrites := 3, execResult := None, resticTakes := Some 0\<rparr>"

definition exCall :: backupCall where
  "exCall = \<lparr>backupType = ''backup'', donor = ''c-1'', stdinFilename = ''db/c/pgdumpall.sql'',
             jobTime = 1719835200000000000, extraTags = []\<rparr>"

definition exGaleraEngine :: galeraEngine where
  "exGaleraEngine = \<lparr>gcfg = exConfig (Some 2) False, replicas = 3\<rparr>"

definition exWorld :: galeraWorld where
  "exWorld = \<lparr>crSuspended = False, stsReplicas = 3, trace = []\<rparr>"

definition exFails :: "nat \<Rightarrow> string option" where
  "exFails i = (if i = 1 then Some ''conflict'' else if i = 4 then Some ''timeout'' else None)"

text \<open>
  Six jobs of early 2024: Monday 4 March, two on Saturday 2 March, Thursday 29 February
  (the same ISO week as 2 March, another month), Sunday 25 February and 15 January.
\<close>

definition exRetGroups :: "JobGroup list" where
  "exRetGroups =
     [exGroup ''J6'' 1709542800000000000,
      exGroup ''J5'' 1709373600000000000,
      exGroup ''J4'' 1709366400000000000,
      exGroup ''J3'' 1709164800000000000,
      exGroup ''J2'' 1708819200000000000,
      exGroup ''J1'' 1705276800000000000]"



section \<open>Properties of grouping and retention\<close>

lemma collectGroups_snoc: "collectGroups (xs @ [x]) = addSnapshot x (collectGroups xs)"
  by (simp add: collectGroups_def)

lemma JobID_addSnapshot: "JobID ` set (addSnapshot s gs) = insert (jobKey s) (JobID ` set gs)"
  by (induction gs) auto

lemma distinct_addSnapshot:
  "distinct (map JobID gs) \<Longrightarrow> distinct (map JobID (addSnapshot s gs))"
proof (induction gs)
  case Nil
  then show ?case by simp
next
  case (Cons g gs)
  have "JobID g \<notin> JobID ` set (addSnapshot s gs)" if "JobID g \<noteq> jobKey s"
    using that Cons.prems by (simp add: JobID_addSnapshot)
  with Cons show ?case by auto
qed

lemma mset_addSnapshot:
  "mset (concat (map Snapshots (addSnapshot s gs))) = add_mset s (mset (concat (map Snapshots gs)))"
  by (induction gs) auto

lemma addSnapshot_absent:
  "jobKey s \<notin> JobID ` set gs \<Longrightarrow>
   addSnapshot s gs = gs @ [\<lparr>JobID = jobKey s, GroupTime = Time s, Snapshots = [s]\<rparr>]"
  by (induction gs) auto

lemma addSnapshot_present:
  "distinct (map JobID gs) \<Longrightarrow> jobKey s \<in> JobID ` set gs \<Longrightarrow>
   addSnapshot s gs =
     map (\<lambda>g. if JobID g = jobKey s then g\<lparr>Snapshots := Snapshots g @ [s]\<rparr> else g) gs"
proof (induction gs)
  case Nil
  then show ?case by simp
next
  case (Cons g gs)
  show ?case
  proof (cases "JobID g = jobKey s")
    case True
    with Cons.prems have "jobKey s \<notin> JobID ` set gs" by simp
    then have "\<forall>h\<in>set gs. JobID h \<noteq> jobKey s" by (metis imageI)
    then have "map (\<lambda>g. if JobID g = jobKey s then g\<lparr>Snapshots := Snapshots g @ [s]\<rparr> else g) gs = gs"
      by (simp add: map_idI)
    with True show ?thesis by simp
  next
    case False
    with Cons show ?thesis by auto
  qed
qed

lemma groupOK_extend_other:
  "groupOK snaps g \<Longrightarrow> JobID g \<noteq> jobKey s \<Longrightarrow> groupOK (snaps @ [s]) g"
  by (simp add: groupOK_def)

lemma groupOK_extend_same:
  "groupOK snaps g \<Longrightarrow> JobID g = jobKey s \<Longrightarrow>
   groupOK (snaps @ [s]) (g\<lparr>Snapshots := Snapshots g @ [s]\<rparr>)"
  by (auto simp: groupOK_def hd_append)

lemma groupOK_new:
  "jobKey s \<notin> jobKey ` set snaps \<Longrightarrow>
   groupOK (snaps @ [s]) \<lparr>JobID = jobKey s, GroupTime = Time s, Snapshots = [s]\<rparr>"
proof -
  assume "jobKey s \<notin> jobKey ` set snaps"
  then have "filter (\<lambda>x. jobKey x = jobKey s) snaps = []"
    unfolding filter_empty_conv by (metis imageI)
  then show ?thesis by (simp add: groupOK_def)
qed

lemma groupOK_addSnapshot:
  assumes ok: "\<forall>g\<in>set gs. groupOK snaps g"
    and dist: "distinct (map JobID gs)"
    and ids: "JobID ` set gs = jobKey ` set snaps"
    and mem: "g' \<in> set (addSnapshot s gs)"
  shows "groupOK (snaps @ [s]) g'"
proof (cases "jobKey s \<in> JobID ` set gs")
  case True
  from mem obtain g where g: "g \<in> set gs"
    and g': "g' = (if JobID g = jobKey s then g\<lparr>Snapshots := Snapshots g @ [s]\<rparr> else g)"
    unfolding addSnapshot_present[OF dist True] by auto
  from ok g have "groupOK snaps g" by blast
  then show ?thesis
    unfolding g' by (simp add: groupOK_extend_other groupOK_extend_same)
next
  case False
  with ids have fresh: "jobKey s \<notin> jobKey ` set snaps" by simp
  from mem have "g' \<in> set gs \<or> g' = \<lparr>JobID = jobKey s, GroupTime = Time s, Snapshots = [s]\<rparr>"
    unfolding addSnapshot_absent[OF False] by auto
  then show ?thesis
  proof
    assume "g' \<in> set gs"
    with ok False have "groupOK snaps g'" "JobID g' \<noteq> jobKey s" by (blast, metis imageI)
    then show ?thesis by (rule groupOK_extend_other)
  next
    assume "g' = \<lparr>JobID = jobKey s, GroupTime = Time s, Snapshots = [s]\<rparr>"
    with fresh show ?thesis by (simp add: groupOK_new)
  qed
qed

lemma collectGroups_inv:
  "distinct (map JobID (collectGroups snaps)) \<and>
   JobID ` set (collectGroups snaps) = jobKey ` set snaps \<and>
   (\<forall>g\<in>set (collectGroups snaps). groupOK snaps g) \<and>
   mset (concat (map Snapshots (collectGroups snaps))) = mset snaps"
proof (induction snaps rule: rev_induct)
  case Nil
  then show ?case by (simp add: collectGroups_def)
next
  case (snoc x xs)
  have 1: "distinct (map JobID (collectGroups (xs @ [x])))"
    using snoc by (simp add: collectGroups_snoc distinct_addSnapshot)
  have 2: "JobID ` set (collectGroups (xs @ [x])) = jobKey ` set (xs @ [x])"
    using snoc by (simp add: collectGroups_snoc JobID_addSnapshot)
  have 3: "\<forall>g\<in>set (collectGroups (xs @ [x])). groupOK (xs @ [x]) g"
    using snoc groupOK_addSnapshot[of "collectGroups xs" xs _ x]
    by (simp add: collectGroups_snoc)
  have 4: "mset (concat (map Snapshots (collectGroups (xs @ [x])))) = mset (xs @ [x])"
    using snoc by (simp add: collectGroups_snoc mset_addSnapshot)
  from 1 2 3 4 show ?case by blast
qed

lemma GroupByJob_set: "set (GroupByJob snaps) = set (collectGroups snaps)"
  by (simp add: GroupByJob_def)





lemma ApplyGroupRetention_filter:
  "\<exists>K. ApplyGroupRetention gs p =
        (filter (\<lambda>g. JobID g \<in> K) gs, filter (\<lambda>g. JobID g \<notin> K) gs)"
proof (cases "gs = [] \<or> allZero p")
  case True
  then have "ApplyGroupRetention gs p =
        (filter (\<lambda>g. JobID g \<in> UNIV) gs, filter (\<lambda>g. JobID g \<notin> UNIV) gs)"
    by (auto simp: ApplyGroupRetention_def)
  then show ?thesis by blast
next
  case False
  then show ?thesis by (auto simp: ApplyGroupRetention_def)
qed


lemma members_kept:
  assumes "j \<in> K"
  shows "{s \<in> set snaps. jobKey s = j} \<subseteq> set (snapshotsOf (filter (\<lambda>g. JobID g \<in> K) (GroupByJob snaps)))"
proof
  fix s assume "s \<in> {s \<in> set snaps. jobKey s = j}"
  then have s: "s \<in> set snaps" "jobKey s = j" by auto
  then have "j \<in> JobID ` set (collectGroups snaps)"
    using collectGroups_inv[of snaps] by auto
  then obtain g where g: "g \<in> set (collectGroups snaps)" "JobID g = j" by auto
  then have "groupOK snaps g" using collectGroups_inv[of snaps] by blast
  with s g have "s \<in> set (Snapshots g)" by (simp add: groupOK_def)
  with g assms show "s \<in> set (snapshotsOf (filter (\<lambda>g. JobID g \<in> K) (GroupByJob snaps)))"
    by (auto simp: snapshotsOf_def GroupByJob_set)
qed

lemma members_not_elsewhere:
  assumes "j \<in> K"
  shows "{s \<in> set snaps. jobKey s = j} \<inter> set (snapshotsOf (filter (\<lambda>g. JobID g \<notin> K) (GroupByJob snaps))) = {}"
proof -
  have "jobKey s \<noteq> j" if "s \<in> set (snapshotsOf (filter (\<lambda>g. JobID g \<notin> K) (GroupByJob snaps)))" for s
  proof -
    from that obtain g where g: "g \<in> set (collectGroups snaps)" "JobID g \<notin> K" "s \<in> set (Snapshots g)"
      by (auto simp: snapshotsOf_def GroupByJob_set)
    then have "groupOK snaps g" using collectGroups_inv[of snaps] by blast
    with g have "jobKey s = JobID g" by (auto simp: groupOK_def)
    with g assms show ?thesis by auto
  qed
  then show ?thesis by auto
qed

text \<open>
  Claim C3. For every snapshot list and every retention policy, the snapshots that
  share a job key (the job tag, or the key derived from the short id) are all in the
  kept output and none in the removed one, or all in the removed output and none in
  the kept one.
\<close>

theorem group_atomic:
  "\<forall>j. ({s \<in> set snapshots. jobKey s = j}
          \<subseteq> set (snapshotsOf (fst (ApplyGroupRetention (GroupByJob snapshots) policy))) \<and>
        {s \<in> set snapshots. jobKey s = j}
          \<inter> set (snapshotsOf (snd (ApplyGroupRetention (GroupByJob snapshots) policy))) = {})
     \<or> ({s \<in> set snapshots. jobKey s = j}
          \<subseteq> set (snapshotsOf (snd (ApplyGroupRetention (GroupByJob snapshots) policy))) \<and>
        {s \<in> set snapshots. jobKey s = j}
          \<inter> set (snapshotsOf (fst (ApplyGroupRetention (GroupByJob snapshots) policy))) = {})"
proof
  fix j
  obtain K where K: "ApplyGroupRetention (GroupByJob snapshots) policy =
        (filter (\<lambda>g. JobID g \<in> K) (GroupByJob snapshots),
         filter (\<lambda>g. JobID g \<notin> K) (GroupByJob snapshots))"
    using ApplyGroupRetention_filter by blast
  show "({s \<in> set snapshots. jobKey s = j}
          \<subseteq> set (snapshotsOf (fst (ApplyGroupRetention (GroupByJob snapshots) policy))) \<and>
        {s \<in> set snapshots. jobKey s = j}
          \<inter> set (snapshotsOf (snd (ApplyGroupRetention (GroupByJob snapshots) policy))) = {})
     \<or> ({s \<in> set snapshots. jobKey s = j}
          \<subseteq> set (snapshotsOf (snd (ApplyGroupRetention (GroupByJob snapshots) policy))) \<and>
        {s \<in> set snapshots. jobKey s = j}
          \<inter> set (snapshotsOf (fst (ApplyGroupRetention (GroupByJob snapshots) policy))) = {})"
  proof (cases "j \<in> K")
    case True
    then show ?thesis
      unfolding K fst_conv snd_conv
      using members_kept[of j K snapshots] members_not_elsewhere[of j K snapshots] by blast
  next
    case False
    then have "j \<in> - K" by simp
    then show ?thesis
      unfolding K fst_conv snd_conv
      using members_kept[of j "- K" snapshots] members_not_elsewhere[of j "- K" snapshots]
      by simp
  qed
qed

theorem group_atomic_witness:
  "{s \<in> set [exSnap ''a1'' 3 [''job=J3''], exSnap ''b1'' 5 [''job=J1''],
                exSnap ''a2'' 3 [''job=J3'']]. jobKey s = ''J3''}
     = {exSnap ''a1'' 3 [''job=J3''], exSnap ''a2'' 3 [''job=J3'']} \<and>
   {exSnap ''a1'' 3 [''job=J3''], exSnap ''a2'' 3 [''job=J3'']} \<inter>
     set (snapshotsOf (fst (ApplyGroupRetention
       (GroupByJob [exSnap ''a1'' 3 [''job=J3''], exSnap ''b1'' 5 [''job=J1''],
                    exSnap ''a2'' 3 [''job=J3'']])
       \<lparr>KeepLast = 1, KeepDaily = 0, KeepWeekly = 0, KeepMonthly = 0\<rparr>))) = {} \<and>
   {exSnap ''a1'' 3 [''job=J3''], exSnap ''a2'' 3 [''job=J3'']} \<subseteq>
     set (snapshotsOf (snd (ApplyGroupRetention
       (GroupByJob [exSnap ''a1'' 3 [''job=J3''], exSnap ''b1'' 5 [''job=J1''],
                    exSnap ''a2'' 3 [''job=J3'']])
       \<lparr>KeepLast = 1, KeepDaily = 0, KeepWeekly = 0, KeepMonthly = 0\<rparr>)))"
proof -
  let ?snaps = "[exSnap ''a1'' 3 [''job=J3''], exSnap ''b1'' 5 [''job=J1''],
                 exSnap ''a2'' 3 [''job=J3'']]"
  let ?pol = "\<lparr>KeepLast = 1, KeepDaily = 0, KeepWeekly = 0, KeepMonthly = 0\<rparr>"
  have k1: "jobKey (exSnap ''a1'' 3 [''job=J3'']) = ''J3''"
    and k2: "jobKey (exSnap ''b1'' 5 [''job=J1'']) = ''J1''"
    and k3: "jobKey (exSnap ''a2'' 3 [''job=J3'']) = ''J3''"
    by (simp_all add: jobKey_def jobTag_def TagMap_def tagPair_def exSnap_def)
  have members: "{s \<in> set ?snaps. jobKey s = ''J3''}
     = {exSnap ''a1'' 3 [''job=J3''], exSnap ''a2'' 3 [''job=J3'']}"
    using k1 k2 k3 by auto
  have groups: "GroupByJob ?snaps =
     [\<lparr>JobID = ''J1'', GroupTime = 5, Snapshots = [exSnap ''b1'' 5 [''job=J1'']]\<rparr>,
      \<lparr>JobID = ''J3'', GroupTime = 3,
         Snapshots = [exSnap ''a1'' 3 [''job=J3''], exSnap ''a2'' 3 [''job=J3'']]\<rparr>]"
    by (simp add: GroupByJob_def collectGroups_def k1 k2 k3) (simp add: exSnap_def)
  have kept: "snapshotsOf (fst (ApplyGroupRetention (GroupByJob ?snaps) ?pol))
     = [exSnap ''b1'' 5 [''job=J1'']]"
    unfolding groups
    by (simp add: ApplyGroupRetention_def allZero_def keepSet_def snapshotsOf_def)
  have notkept: "{exSnap ''a1'' 3 [''job=J3''], exSnap ''a2'' 3 [''job=J3'']} \<inter>
     set (snapshotsOf (fst (ApplyGroupRetention (GroupByJob ?snaps) ?pol))) = {}"
    unfolding kept by (simp add: exSnap_def)
  from group_atomic[of ?snaps ?pol] have
    "({s \<in> set ?snaps. jobKey s = ''J3''}
          \<subseteq> set (snapshotsOf (fst (ApplyGroupRetention (GroupByJob ?snaps) ?pol))) \<and>
        {s \<in> set ?snaps. jobKey s = ''J3''}
          \<inter> set (snapshotsOf (snd (ApplyGroupRetention (GroupByJob ?snaps) ?pol))) = {})
     \<or> ({s \<in> set ?snaps. jobKey s = ''J3''}
          \<subseteq> set (snapshotsOf (snd (ApplyGroupRetention (GroupByJob ?snaps) ?pol))) \<and>
        {s \<in> set ?snaps. jobKey s = ''J3''}
          \<inter> set (snapshotsOf (fst (ApplyGroupRetention (GroupByJob ?snaps) ?pol))) = {})"
    by (rule spec)
  then have "{exSnap ''a1'' 3 [''job=J3''], exSnap ''a2'' 3 [''job=J3'']} \<subseteq>
     set (snapshotsOf (snd (ApplyGroupRetention (GroupByJob ?snaps) ?pol)))"
    unfolding members using notkept by blast
  with members notkept show ?thesis by blast
qed











lemma markLast_mono:
  "n \<le> n' \<Longrightarrow> x \<in> set (markLast i n gs) \<Longrightarrow> x \<in> set (markLast i n' gs)"
  by (induction gs arbitrary: i) (auto split: if_splits)

lemma markWindows_mono:
  "n \<le> n' \<Longrightarrow> x \<in> set (markWindows key n seen lastW gs) \<Longrightarrow>
   x \<in> set (markWindows key n' seen lastW gs)"
proof (induction gs arbitrary: seen lastW)
  case Nil
  then show ?case by simp
next
  case (Cons g gs)
  show ?case
  proof (cases "Some (key (GroupTime g)) \<noteq> lastW")
    case True
    show ?thesis
    proof (cases "seen + 1 > n")
      case True
      with \<open>Some (key (GroupTime g)) \<noteq> lastW\<close> Cons.prems show ?thesis by (simp add: Let_def)
    next
      case False
      with Cons.prems(1) have "\<not> seen + 1 > n'" by simp
      with False \<open>Some (key (GroupTime g)) \<noteq> lastW\<close> Cons.prems Cons.IH[of "seen + 1" "Some (key (GroupTime g))"]
      show ?thesis by (auto simp: Let_def)
    qed
  next
    case False
    with Cons.prems Cons.IH[of seen lastW] show ?thesis by (simp add: Let_def)
  qed
qed

lemma keepSet_alt:
  "keepSet gs p =
     (if KeepLast p > 0 then set (markLast 0 (KeepLast p) gs) else {})
     \<union> markedBy dayKey (KeepDaily p) gs
     \<union> markedBy ISOWeek (KeepWeekly p) gs
     \<union> markedBy monthKey (KeepMonthly p) gs"
  by (simp only: keepSet_def markedBy_def)

lemma markedBy_mono: "n \<le> n' \<Longrightarrow> markedBy key n gs \<subseteq> markedBy key n' gs"
  unfolding markedBy_def using markWindows_mono[of n n' _ key 0 None gs] by auto

lemma lastMarked_mono:
  "n \<le> n' \<Longrightarrow> (if n > 0 then set (markLast 0 n gs) else {})
        \<subseteq> (if n' > 0 then set (markLast 0 n' gs) else {})"
  using markLast_mono[of n n' _ 0 gs] by auto

lemma keepSet_mono:
  assumes "KeepLast p \<le> KeepLast p'" "KeepDaily p \<le> KeepDaily p'"
    "KeepWeekly p \<le> KeepWeekly p'" "KeepMonthly p \<le> KeepMonthly p'"
  shows "keepSet gs p \<subseteq> keepSet gs p'"
  unfolding keepSet_alt
  using lastMarked_mono[OF assms(1), of gs] markedBy_mono[OF assms(2), of dayKey gs]
    markedBy_mono[OF assms(3), of ISOWeek gs] markedBy_mono[OF assms(4), of monthKey gs]
  by blast

lemma kept_mono:
  assumes "\<not> allZero p"
    and "KeepLast p \<le> KeepLast p'" "KeepDaily p \<le> KeepDaily p'"
    "KeepWeekly p \<le> KeepWeekly p'" "KeepMonthly p \<le> KeepMonthly p'"
  shows "set (fst (ApplyGroupRetention gs p)) \<subseteq> set (fst (ApplyGroupRetention gs p'))"
proof (cases "gs = [] \<or> allZero p'")
  case True
  then show ?thesis by (auto simp: ApplyGroupRetention_def)
next
  case False
  with assms(1) have "fst (ApplyGroupRetention gs p) = filter (\<lambda>g. JobID g \<in> keepSet gs p) gs"
    "fst (ApplyGroupRetention gs p') = filter (\<lambda>g. JobID g \<in> keepSet gs p') gs"
    by (simp_all add: ApplyGroupRetention_def)
  with keepSet_mono[OF assms(2-5), of gs] show ?thesis
    by auto
qed

text \<open>
  Claim C4, amended. From a policy that is not all-zero, raising any single keep
  dimension (the other three unchanged) never removes a group from the kept output.
  The all-zero policy keeps every group, so the first raise from it can only shrink.
\<close>

theorem retention_monotonic:
  assumes "\<not> allZero policy" and "0 \<le> k"
  shows "set (fst (ApplyGroupRetention groups policy))
           \<subseteq> set (fst (ApplyGroupRetention groups (policy\<lparr>KeepLast := KeepLast policy + k\<rparr>))) \<and>
         set (fst (ApplyGroupRetention groups policy))
           \<subseteq> set (fst (ApplyGroupRetention groups (policy\<lparr>KeepDaily := KeepDaily policy + k\<rparr>))) \<and>
         set (fst (ApplyGroupRetention groups policy))
           \<subseteq> set (fst (ApplyGroupRetention groups (policy\<lparr>KeepWeekly := KeepWeekly policy + k\<rparr>))) \<and>
         set (fst (ApplyGroupRetention groups policy))
           \<subseteq> set (fst (ApplyGroupRetention groups (policy\<lparr>KeepMonthly := KeepMonthly policy + k\<rparr>)))"
proof (intro conjI)
  show "set (fst (ApplyGroupRetention groups policy))
           \<subseteq> set (fst (ApplyGroupRetention groups (policy\<lparr>KeepLast := KeepLast policy + k\<rparr>)))"
    using assms by (intro kept_mono) simp_all
  show "set (fst (ApplyGroupRetention groups policy))
           \<subseteq> set (fst (ApplyGroupRetention groups (policy\<lparr>KeepDaily := KeepDaily policy + k\<rparr>)))"
    using assms by (intro kept_mono) simp_all
  show "set (fst (ApplyGroupRetention groups policy))
           \<subseteq> set (fst (ApplyGroupRetention groups (policy\<lparr>KeepWeekly := KeepWeekly policy + k\<rparr>)))"
    using assms by (intro kept_mono) simp_all
  show "set (fst (ApplyGroupRetention groups policy))
           \<subseteq> set (fst (ApplyGroupRetention groups (policy\<lparr>KeepMonthly := KeepMonthly policy + k\<rparr>)))"
    using assms by (intro kept_mono) simp_all
qed


theorem retention_monotonic_counterexample:
  "\<not> set (fst (ApplyGroupRetention [exGroup ''J1'' 5, exGroup ''J2'' 4]
                \<lparr>KeepLast = 0, KeepDaily = 0, KeepWeekly = 0, KeepMonthly = 0\<rparr>))
       \<subseteq> set (fst (ApplyGroupRetention [exGroup ''J1'' 5, exGroup ''J2'' 4]
                \<lparr>KeepLast = 0 + 1, KeepDaily = 0, KeepWeekly = 0, KeepMonthly = 0\<rparr>))"
  by (simp add: ApplyGroupRetention_def allZero_def keepSet_def exGroup_def)

theorem retention_monotonic_witness:
  "\<not> allZero \<lparr>KeepLast = 1, KeepDaily = 0, KeepWeekly = 0, KeepMonthly = 0\<rparr> \<and>
   set (fst (ApplyGroupRetention [exGroup ''J1'' 5, exGroup ''J2'' 4]
                \<lparr>KeepLast = 1, KeepDaily = 0, KeepWeekly = 0, KeepMonthly = 0\<rparr>))
       \<subseteq> set (fst (ApplyGroupRetention [exGroup ''J1'' 5, exGroup ''J2'' 4]
                \<lparr>KeepLast = 2, KeepDaily = 0, KeepWeekly = 0, KeepMonthly = 0\<rparr>))"
proof -
  have nz: "\<not> allZero \<lparr>KeepLast = 1, KeepDaily = 0, KeepWeekly = 0, KeepMonthly = 0\<rparr>"
    by (simp add: allZero_def)
  have k: "(0::int) \<le> 1" by simp
  from retention_monotonic[OF nz k, of "[exGroup ''J1'' 5, exGroup ''J2'' 4]"] nz
  show ?thesis by simp
qed

subsection \<open>The keep-set against its specification\<close>

lemma divmod_int:
  fixes p k :: int assumes "0 < k"
  obtains q r where "p div k = q" "p = k * q + r" "0 \<le> r" "r < k"
proof
  show "p div k = p div k" by (rule refl)
  show "p = k * (p div k) + p mod k" by simp
  show "0 \<le> p mod k" using assms by simp
  show "p mod k < k" using assms by simp
qed

lemma daysBefore_bounds:
  "146097 * p - 699 \<le> 400 * daysBefore p \<and> 400 * daysBefore p \<le> 146097 * p + 396"
proof -
  obtain q4 r4 where a: "p div 4 = q4" "p = 4 * q4 + r4" "0 \<le> r4" "r4 < 4"
    by (rule divmod_int[of 4 p]) simp_all
  obtain q1 r1 where b: "p div 100 = q1" "p = 100 * q1 + r1" "0 \<le> r1" "r1 < 100"
    by (rule divmod_int[of 100 p]) simp_all
  obtain q0 r0 where c: "p div 400 = q0" "p = 400 * q0 + r0" "0 \<le> r0" "r0 < 400"
    by (rule divmod_int[of 400 p]) simp_all
  have d: "daysBefore p = 365 * p + q4 - q1 + q0"
    by (simp add: daysBefore_def a(1) b(1) c(1))
  have e4: "400 * q4 = 100 * p - 100 * r4" using a(2) by simp
  have e1: "400 * q1 = 4 * p - 4 * r1" using b(2) by simp
  have e0: "400 * q0 = p - r0" using c(2) by simp
  have "400 * daysBefore p = 146000 * p + 400 * q4 - 400 * q1 + 400 * q0"
    unfolding d by (simp add: algebra_simps)
  then have "400 * daysBefore p = 146097 * p - 100 * r4 + 4 * r1 - r0"
    unfolding e4 e1 e0 by simp
  then show ?thesis using a(3-) b(3-) c(3-) by simp
qed

lemma daysBefore_less:
  assumes "p < q" shows "daysBefore p < daysBefore q"
proof -
  have "400 * daysBefore p \<le> 146097 * p + 396" using daysBefore_bounds[of p] by simp
  moreover have "146097 * q - 699 \<le> 400 * daysBefore q" using daysBefore_bounds[of q] by simp
  moreover have "146097 * p + 146097 \<le> 146097 * q" using assms by simp
  ultimately show ?thesis by (simp add: algebra_simps)
qed

lemma yearIdx_bracket:
  "daysBefore (yearIdx n) \<le> n \<and> n < daysBefore (yearIdx n + 1)"
proof -
  define e where "e = (400 * n) div 146097"
  have e1: "146097 * e \<le> 400 * n" and e2: "400 * n < 146097 * (e + 1)"
  proof -
    obtain q r where d: "(400 * n) div 146097 = q" "400 * n = 146097 * q + r" "0 \<le> r" "r < 146097"
      by (rule divmod_int[of 146097 "400 * n"]) simp_all
    have "e = q" by (simp add: e_def d(1))
    then have "146097 * e \<le> 400 * n \<and> 400 * n < 146097 * e + 146097" using d(2-) by simp
    then show "146097 * e \<le> 400 * n" "400 * n < 146097 * (e + 1)" by (simp_all add: algebra_simps)
  qed
  have y: "yearIdx n = (if daysBefore (e + 1) \<le> n then e + 1
                        else if n < daysBefore e then e - 1 else e)"
    by (simp add: yearIdx_def e_def Let_def)
  show ?thesis
  proof (cases "daysBefore (e + 1) \<le> n")
    case True
    have "146097 * (e + 2) - 699 \<le> 400 * daysBefore (e + 2)"
      using daysBefore_bounds[of "e + 2"] by simp
    then have "n < daysBefore (e + 2)" using e2 by (simp add: algebra_simps)
    moreover have "e + 1 + 1 = e + 2" by simp
    ultimately show ?thesis using True y by (simp add: add.commute)
  next
    case False
    show ?thesis
    proof (cases "n < daysBefore e")
      case True
      have "400 * daysBefore (e - 1) \<le> 146097 * (e - 1) + 396"
        using daysBefore_bounds[of "e - 1"] by simp
      then have "daysBefore (e - 1) \<le> n" using e1 by (simp add: algebra_simps)
      then show ?thesis using True False y by simp
    next
      case F2: False
      then show ?thesis using False y by simp
    qed
  qed
qed

lemma yearIdx_mono:
  assumes "n \<le> m" shows "yearIdx n \<le> yearIdx m"
proof (rule ccontr)
  assume "\<not> yearIdx n \<le> yearIdx m"
  then have "yearIdx m + 1 \<le> yearIdx n" by simp
  then have "daysBefore (yearIdx m + 1) \<le> daysBefore (yearIdx n)"
    using daysBefore_less[of "yearIdx m + 1" "yearIdx n"] by (cases "yearIdx m + 1 = yearIdx n") auto
  with yearIdx_bracket[of n] yearIdx_bracket[of m] assms show False by linarith
qed

lemma step_mono:
  fixes a b t :: int
  shows "a \<le> b \<Longrightarrow> (if t \<le> a then 1 else 0) \<le> (if t \<le> b then (1::int) else 0)"
  by simp

lemma monthOfYday_steps:
  "monthOfYday leap yd =
     (let l = (if leap then 1 else 0) in
      1 + (if 31 \<le> yd then 1 else 0) + (if 59 + l \<le> yd then 1 else 0)
        + (if 90 + l \<le> yd then 1 else 0) + (if 120 + l \<le> yd then 1 else 0)
        + (if 151 + l \<le> yd then 1 else 0) + (if 181 + l \<le> yd then 1 else 0)
        + (if 212 + l \<le> yd then 1 else 0) + (if 243 + l \<le> yd then 1 else 0)
        + (if 273 + l \<le> yd then 1 else 0) + (if 304 + l \<le> yd then 1 else 0)
        + (if 334 + l \<le> yd then 1 else 0))"
  by (cases leap) (simp_all add: monthOfYday_def Let_def)

lemma monthOfYday_mono:
  "a \<le> b \<Longrightarrow> monthOfYday l a \<le> monthOfYday l b"
  unfolding monthOfYday_steps Let_def
  by (intro add_mono step_mono order_refl)

lemma unixDay_mono: "s \<le> t \<Longrightarrow> unixDay s \<le> unixDay t"
  by (simp add: unixDay_def zdiv_mono1)

lemma thursdayOf_eq: "thursdayOf d = 7 * ((d + 3) div 7)"
proof -
  define q where "q = (d + 3) div 7"
  define r where "r = (d + 3) mod 7"
  have "d + 3 = 7 * q + r" by (simp add: q_def r_def)
  then have "d - r + 3 = 7 * q" by simp
  then show ?thesis by (simp only: thursdayOf_def q_def r_def)
qed

lemma thursdayOf_mono: "a \<le> b \<Longrightarrow> thursdayOf a \<le> thursdayOf b"
  by (simp add: thursdayOf_eq zdiv_mono1)

lemma dayKey_convex: "convex dayKey"
  unfolding convex_def
proof (intro allI impI)
  fix a b c :: int
  assume h: "a \<le> b \<and> b \<le> c \<and> dayKey a = dayKey c"
  then have "yearIdx (rataDie (unixDay a)) = yearIdx (rataDie (unixDay c))"
    and "ydayOf (unixDay a) = ydayOf (unixDay c)"
    by (simp_all add: dayKey_def yearOf_def)
  then have "unixDay a = unixDay c" by (simp add: ydayOf_def rataDie_def)
  moreover have "unixDay a \<le> unixDay b" "unixDay b \<le> unixDay c"
    using h by (simp_all add: unixDay_mono)
  ultimately have "unixDay b = unixDay a" by simp
  then show "dayKey b = dayKey a" by (simp add: dayKey_def)
qed

lemma ISOWeek_convex: "convex ISOWeek"
  unfolding convex_def
proof (intro allI impI)
  fix a b c :: int
  assume h: "a \<le> b \<and> b \<le> c \<and> ISOWeek a = ISOWeek c"
  let ?ta = "thursdayOf (unixDay a)" and ?tb = "thursdayOf (unixDay b)"
  and ?tc = "thursdayOf (unixDay c)"
  from h have y: "yearIdx (rataDie ?ta) = yearIdx (rataDie ?tc)"
    and w: "ydayOf ?ta div 7 = ydayOf ?tc div 7"
    by (simp_all add: ISOWeek_def yearOf_def Let_def)
  have ab: "unixDay a \<le> unixDay b" and bc: "unixDay b \<le> unixDay c"
    using h by (simp_all add: unixDay_mono)
  have tab: "?ta \<le> ?tb" and tbc: "?tb \<le> ?tc"
    using ab bc by (simp_all add: thursdayOf_mono)
  have le: "?ta \<le> ?tc" using tab tbc by simp
  have "ydayOf ?tc - ydayOf ?ta = ?tc - ?ta" using y by (simp add: ydayOf_def rataDie_def)
  moreover have "ydayOf ?tc - ydayOf ?ta < 7"
  proof -
    obtain q r where c: "ydayOf ?tc div 7 = q" "ydayOf ?tc = 7 * q + r" "0 \<le> r" "r < 7"
      by (rule divmod_int[of 7 "ydayOf ?tc"]) simp_all
    obtain q' r' where a: "ydayOf ?ta div 7 = q'" "ydayOf ?ta = 7 * q' + r'" "0 \<le> r'" "r' < 7"
      by (rule divmod_int[of 7 "ydayOf ?ta"]) simp_all
    have "q = q'" using w a(1) c(1) by simp
    then show ?thesis using a(2-) c(2-) by linarith
  qed
  ultimately have "?tc - ?ta < 7" by simp
  moreover define j where "j = (unixDay c + 3) div 7 - (unixDay a + 3) div 7"
  moreover have "?tc - ?ta = 7 * j"
    unfolding thursdayOf_eq j_def by (simp only: right_diff_distrib)
  ultimately have "7 * j < 7" "0 \<le> 7 * j" using le by simp_all
  then have "j = 0" by simp
  with \<open>?tc - ?ta = 7 * j\<close> have "?tc = ?ta" by simp
  then have "?tb = ?ta" using tab tbc by simp
  then show "ISOWeek b = ISOWeek a" by (simp add: ISOWeek_def)
qed

lemma monthKey_convex: "convex monthKey"
  unfolding convex_def
proof (intro allI impI)
  fix a b c :: int
  assume h: "a \<le> b \<and> b \<le> c \<and> monthKey a = monthKey c"
  let ?a = "unixDay a" and ?b = "unixDay b" and ?c = "unixDay c"
  have ab: "?a \<le> ?b" and bc: "?b \<le> ?c" using h by (simp_all add: unixDay_mono)
  from h have y: "yearIdx (rataDie ?a) = yearIdx (rataDie ?c)"
    and m: "monthOf ?a = monthOf ?c"
    by (simp_all add: monthKey_def yearOf_def)
  have "yearIdx (rataDie ?a) \<le> yearIdx (rataDie ?b)" "yearIdx (rataDie ?b) \<le> yearIdx (rataDie ?c)"
    using ab bc by (simp_all add: yearIdx_mono rataDie_def)
  with y have yb: "yearIdx (rataDie ?b) = yearIdx (rataDie ?a)" by simp
  then have yo: "yearOf ?b = yearOf ?a" "yearOf ?c = yearOf ?a"
    using y by (simp_all add: yearOf_def)
  have "ydayOf ?a \<le> ydayOf ?b" "ydayOf ?b \<le> ydayOf ?c"
    using ab bc yb y by (simp_all add: ydayOf_def rataDie_def)
  then have "monthOf ?a \<le> monthOf ?b" "monthOf ?b \<le> monthOf ?c"
    unfolding monthOf_def yo by (simp_all add: monthOfYday_mono)
  with m have "monthOf ?b = monthOf ?a" by simp
  then show "monthKey b = monthKey a" by (simp add: monthKey_def yo)
qed

lemma convex_contiguous:
  assumes c: "convex key"
  shows "newestFirst gs \<Longrightarrow> contiguous (map (\<lambda>g. key (GroupTime g)) gs)"
proof (induction gs)
  case Nil
  show ?case by simp
next
  case (Cons g gs)
  show ?case
  proof (cases gs)
    case Nil
    then show ?thesis by simp
  next
    case (Cons g2 rest)
    have s: "newestFirst gs" using Cons.prems by (simp add: newestFirst_def)
    have t2: "GroupTime g2 \<le> GroupTime g"
      using Cons.prems Cons by (simp add: newestFirst_def)
    have step: "key (GroupTime g2) = key (GroupTime g) \<or>
                key (GroupTime g) \<notin> set (map (\<lambda>g. key (GroupTime g)) (g2 # rest))"
    proof (rule disjCI)
      assume "\<not> key (GroupTime g) \<notin> set (map (\<lambda>g. key (GroupTime g)) (g2 # rest))"
      then have "key (GroupTime g) \<in> (\<lambda>g. key (GroupTime g)) ` set (g2 # rest)"
        by (simp only: set_map not_not)
      then obtain x where x: "x \<in> set (g2 # rest)" "key (GroupTime g) = key (GroupTime x)"
        by (rule imageE)
      show "key (GroupTime g2) = key (GroupTime g)"
      proof (cases "x = g2")
        case True
        then show ?thesis using x(2) by simp
      next
        case False
        then have "x \<in> set rest" using x(1) by simp
        then have "GroupTime x \<le> GroupTime g2"
          using s Cons by (auto simp: newestFirst_def)
        with t2 x(2) c show ?thesis
          unfolding convex_def by metis
      qed
    qed
    from Cons.IH[OF s] step show ?thesis using Cons by simp
  qed
qed

lemma spec_markWindows_full:
  "n \<le> int (length seenW) \<Longrightarrow> spec_markWindows key n seenW gs = []"
proof (induction gs arbitrary: seenW)
  case Nil
  show ?case by simp
next
  case (Cons g gs)
  have a: "spec_markWindows key n seenW gs = []" using Cons.IH[OF Cons.prems] .
  have "n \<le> int (length (key (GroupTime g) # seenW))" using Cons.prems by simp
  then have b: "spec_markWindows key n (key (GroupTime g) # seenW) gs = []" by (rule Cons.IH)
  show ?case using a b Cons.prems by (simp add: Let_def)
qed

lemma markWindows_walk:
  "contiguous (case lastW of None \<Rightarrow> map (\<lambda>g. key (GroupTime g)) gs
                            | Some w \<Rightarrow> w # map (\<lambda>g. key (GroupTime g)) gs) \<Longrightarrow>
   (\<forall>w \<in> set seenW. Some w \<noteq> lastW \<longrightarrow> w \<notin> set (map (\<lambda>g. key (GroupTime g)) gs)) \<Longrightarrow>
   (\<forall>w. lastW = Some w \<longrightarrow> w \<in> set seenW) \<Longrightarrow>
   markWindows key n (int (length seenW)) lastW gs = spec_markWindows key n seenW gs"
proof (induction gs arbitrary: seenW lastW)
  case Nil
  show ?case by simp
next
  case (Cons g gs)
  let ?w = "key (GroupTime g)"
  let ?ks = "map (\<lambda>g. key (GroupTime g)) gs"
  have cw: "contiguous (?w # ?ks)"
    using Cons.prems(1) by (cases lastW) simp_all
  show ?case
  proof (cases "Some ?w = lastW")
    case True
    then have l: "lastW = Some ?w" by simp
    have in_seen: "?w \<in> set seenW" using Cons.prems(3) l by simp
    have p1: "contiguous (case lastW of None \<Rightarrow> ?ks | Some w \<Rightarrow> w # ?ks)"
      using cw l by simp
    have p2: "\<forall>w \<in> set seenW. Some w \<noteq> lastW \<longrightarrow> w \<notin> set ?ks"
      using Cons.prems(2) by simp
    have "markWindows key n (int (length seenW)) lastW gs = spec_markWindows key n seenW gs"
      using Cons.IH[OF p1 p2 Cons.prems(3)] .
    then show ?thesis using True in_seen by (simp add: Let_def)
  next
    case False
    have notin: "?w \<notin> set seenW"
    proof
      assume "?w \<in> set seenW"
      with Cons.prems(2) False have "?w \<notin> set (map (\<lambda>g. key (GroupTime g)) (g # gs))" by blast
      then show False by simp
    qed
    show ?thesis
    proof (cases "int (length seenW) + 1 > n")
      case True
      then have "n \<le> int (length (?w # seenW))" by simp
      then have "spec_markWindows key n (?w # seenW) gs = []" by (rule spec_markWindows_full)
      then show ?thesis using True False notin by (simp add: Let_def)
    next
      case nb: False
      have p1: "contiguous (case Some ?w of None \<Rightarrow> ?ks | Some w \<Rightarrow> w # ?ks)"
        using cw by simp
      have p2: "\<forall>w \<in> set (?w # seenW). Some w \<noteq> Some ?w \<longrightarrow> w \<notin> set ?ks"
      proof (intro ballI impI)
        fix w' assume w': "w' \<in> set (?w # seenW)" "Some w' \<noteq> Some ?w"
        then have ws: "w' \<in> set seenW" "w' \<noteq> ?w" by simp_all
        show "w' \<notin> set ?ks"
        proof (cases "lastW = Some w'")
          case True
          then have "contiguous (w' # ?w # ?ks)" using Cons.prems(1) by simp
          then show ?thesis using ws(2) by simp
        next
          case False
          then have "Some w' \<noteq> lastW" by simp
          with Cons.prems(2) ws(1) have "w' \<notin> set (map (\<lambda>g. key (GroupTime g)) (g # gs))"
            by blast
          then show ?thesis by simp
        qed
      qed
      have p3: "\<forall>w. Some ?w = Some w \<longrightarrow> w \<in> set (?w # seenW)" by simp
      have "markWindows key n (int (length (?w # seenW))) (Some ?w) gs
              = spec_markWindows key n (?w # seenW) gs"
        using Cons.IH[OF p1 p2 p3] .
      then have "markWindows key n (int (length seenW) + 1) (Some ?w) gs
              = spec_markWindows key n (?w # seenW) gs"
        by (simp add: add.commute)
      then show ?thesis using nb False notin by (simp add: Let_def)
    qed
  qed
qed

lemma markWindows_spec:
  assumes "convex key" "newestFirst gs"
  shows "markWindows key n 0 None gs = spec_markWindows key n [] gs"
proof -
  have "contiguous (map (\<lambda>g. key (GroupTime g)) gs)"
    using convex_contiguous[OF assms] .
  then have "markWindows key n (int (length ([] :: 'a list))) None gs
               = spec_markWindows key n [] gs"
    by (intro markWindows_walk) simp_all
  then show ?thesis by simp
qed

lemma markLast_take:
  "markLast i n gs = map JobID (take (nat (n - int i)) gs)"
proof (induction gs arbitrary: i)
  case Nil
  show ?case by simp
next
  case (Cons g gs)
  show ?case
  proof (cases "int i \<ge> n")
    case True
    then show ?thesis by simp
  next
    case False
    then have "nat (n - int i) = Suc (nat (n - int (Suc i)))" by simp
    then show ?thesis using False Cons.IH[of "Suc i"] by simp
  qed
qed

lemma spec_markWindows_transfer:
  assumes eqv: "\<And>s t. key s = key t \<longleftrightarrow> key' s = key' t"
  shows "spec_markWindows key n (map key ts) gs = spec_markWindows key' n (map key' ts) gs"
proof (induction gs arbitrary: ts)
  case Nil
  show ?case by simp
next
  case (Cons g gs)
  have m: "key (GroupTime g) \<in> set (map key ts) \<longleftrightarrow> key' (GroupTime g) \<in> set (map key' ts)"
    using eqv by (auto simp: image_iff)
  have a: "spec_markWindows key n (map key ts) gs = spec_markWindows key' n (map key' ts) gs"
    by (rule Cons.IH)
  have "spec_markWindows key n (map key (GroupTime g # ts)) gs
          = spec_markWindows key' n (map key' (GroupTime g # ts)) gs"
    by (rule Cons.IH)
  then have b: "spec_markWindows key n (key (GroupTime g) # map key ts) gs
          = spec_markWindows key' n (key' (GroupTime g) # map key' ts) gs"
    by simp
  show ?case using m a b by (simp add: Let_def)
qed

lemma dayKey_eq: "dayKey s = dayKey t \<longleftrightarrow> spec_dateWindow s = spec_dateWindow t"
proof
  assume "dayKey s = dayKey t"
  then have "yearIdx (rataDie (unixDay s)) = yearIdx (rataDie (unixDay t))"
    and "ydayOf (unixDay s) = ydayOf (unixDay t)"
    by (simp_all add: dayKey_def yearOf_def)
  then have "unixDay s = unixDay t" by (simp add: ydayOf_def rataDie_def)
  then show "spec_dateWindow s = spec_dateWindow t" by (simp add: spec_dateWindow_def unixDay_def)
next
  assume "spec_dateWindow s = spec_dateWindow t"
  then have "unixDay s = unixDay t" by (simp add: spec_dateWindow_def unixDay_def)
  then show "dayKey s = dayKey t" by (simp add: dayKey_def)
qed

lemma ISOWeek_thursday:
  assumes "ISOWeek a = ISOWeek c"
  shows "thursdayOf (unixDay a) = thursdayOf (unixDay c)"
proof -
  let ?ta = "thursdayOf (unixDay a)" and ?tc = "thursdayOf (unixDay c)"
  from assms have y: "yearIdx (rataDie ?ta) = yearIdx (rataDie ?tc)"
    and w: "ydayOf ?ta div 7 = ydayOf ?tc div 7"
    by (simp_all add: ISOWeek_def yearOf_def Let_def)
  have d: "ydayOf ?tc - ydayOf ?ta = ?tc - ?ta" using y by (simp add: ydayOf_def rataDie_def)
  obtain q r where c: "ydayOf ?tc div 7 = q" "ydayOf ?tc = 7 * q + r" "0 \<le> r" "r < 7"
    by (rule divmod_int[of 7 "ydayOf ?tc"]) simp_all
  obtain q' r' where a: "ydayOf ?ta div 7 = q'" "ydayOf ?ta = 7 * q' + r'" "0 \<le> r'" "r' < 7"
    by (rule divmod_int[of 7 "ydayOf ?ta"]) simp_all
  have "q = q'" using w a(1) c(1) by simp
  then have "ydayOf ?tc - ydayOf ?ta < 7" "- 7 < ydayOf ?tc - ydayOf ?ta"
    using a(2-) c(2-) by simp_all
  then have lt: "?tc - ?ta < 7" "- 7 < ?tc - ?ta" using d by simp_all
  define j where "j = (unixDay c + 3) div 7 - (unixDay a + 3) div 7"
  have e: "?tc - ?ta = 7 * j"
    unfolding thursdayOf_eq j_def by (simp only: right_diff_distrib)
  from lt have "7 * j < 7" "- 7 < 7 * j" unfolding e by simp_all
  then have "j = 0" by simp
  with e show ?thesis by simp
qed

lemma ISOWeek_eq: "ISOWeek s = ISOWeek t \<longleftrightarrow> spec_weekWindow s = spec_weekWindow t"
proof
  assume "ISOWeek s = ISOWeek t"
  then have "thursdayOf (unixDay s) = thursdayOf (unixDay t)" by (rule ISOWeek_thursday)
  then have "7 * ((unixDay s + 3) div 7) = 7 * ((unixDay t + 3) div 7)"
    by (simp only: thursdayOf_eq)
  then show "spec_weekWindow s = spec_weekWindow t"
    by (simp add: spec_weekWindow_def unixDay_def)
next
  assume "spec_weekWindow s = spec_weekWindow t"
  then have "(unixDay s + 3) div 7 = (unixDay t + 3) div 7"
    by (simp add: spec_weekWindow_def unixDay_def)
  then have "thursdayOf (unixDay s) = thursdayOf (unixDay t)" by (simp only: thursdayOf_eq)
  then show "ISOWeek s = ISOWeek t" by (simp add: ISOWeek_def)
qed

lemma markWindows_day_spec:
  assumes "newestFirst gs"
  shows "markWindows dayKey n 0 None gs = spec_markWindows spec_dateWindow n [] gs"
  using markWindows_spec[OF dayKey_convex assms, of n]
    spec_markWindows_transfer[of dayKey spec_dateWindow n "[]" gs, OF dayKey_eq]
  by simp

lemma markWindows_week_spec:
  assumes "newestFirst gs"
  shows "markWindows ISOWeek n 0 None gs = spec_markWindows spec_weekWindow n [] gs"
  using markWindows_spec[OF ISOWeek_convex assms, of n]
    spec_markWindows_transfer[of ISOWeek spec_weekWindow n "[]" gs, OF ISOWeek_eq]
  by simp

lemma daysBeforeMonth_vals:
  "daysBeforeMonth l 1 = 0" "daysBeforeMonth l 2 = 31"
  "daysBeforeMonth l 3 = 59 + (if l then 1 else 0)"
  "daysBeforeMonth l 4 = 90 + (if l then 1 else 0)"
  "daysBeforeMonth l 5 = 120 + (if l then 1 else 0)"
  "daysBeforeMonth l 6 = 151 + (if l then 1 else 0)"
  "daysBeforeMonth l 7 = 181 + (if l then 1 else 0)"
  "daysBeforeMonth l 8 = 212 + (if l then 1 else 0)"
  "daysBeforeMonth l 9 = 243 + (if l then 1 else 0)"
  "daysBeforeMonth l 10 = 273 + (if l then 1 else 0)"
  "daysBeforeMonth l 11 = 304 + (if l then 1 else 0)"
  "daysBeforeMonth l 12 = 334 + (if l then 1 else 0)"
  by (simp_all add: daysBeforeMonth_def)

lemma monthOfYday_range:
  assumes "0 \<le> yd"
  shows "1 \<le> monthOfYday leap yd \<and> monthOfYday leap yd \<le> 12 \<and>
         daysBeforeMonth leap (monthOfYday leap yd) \<le> yd \<and>
         (monthOfYday leap yd = 12 \<or> yd < daysBeforeMonth leap (monthOfYday leap yd + 1))"
proof -
  define l :: int where "l = (if leap then 1 else 0)"
  have m: "monthOfYday leap yd =
      (if yd < 31 then 1
      else if yd < 59 + l then 2
      else if yd < 90 + l then 3
      else if yd < 120 + l then 4
      else if yd < 151 + l then 5
      else if yd < 181 + l then 6
      else if yd < 212 + l then 7
      else if yd < 243 + l then 8
      else if yd < 273 + l then 9
      else if yd < 304 + l then 10
      else if yd < 334 + l then 11
      else 12)"
    by (simp add: monthOfYday_def Let_def l_def)
  have v: "daysBeforeMonth leap 1 = 0" "daysBeforeMonth leap 2 = 31"
    "daysBeforeMonth leap 3 = 59 + l" "daysBeforeMonth leap 4 = 90 + l"
    "daysBeforeMonth leap 5 = 120 + l" "daysBeforeMonth leap 6 = 151 + l"
    "daysBeforeMonth leap 7 = 181 + l" "daysBeforeMonth leap 8 = 212 + l"
    "daysBeforeMonth leap 9 = 243 + l" "daysBeforeMonth leap 10 = 273 + l"
    "daysBeforeMonth leap 11 = 304 + l" "daysBeforeMonth leap 12 = 334 + l"
    by (simp_all add: daysBeforeMonth_vals l_def)
  have l01: "0 \<le> l" "l \<le> 1" by (simp_all add: l_def)
  consider "yd < 31" | "31 \<le> yd" "yd < 59 + l" | "59 + l \<le> yd" "yd < 90 + l"
    | "90 + l \<le> yd" "yd < 120 + l" | "120 + l \<le> yd" "yd < 151 + l"
    | "151 + l \<le> yd" "yd < 181 + l" | "181 + l \<le> yd" "yd < 212 + l"
    | "212 + l \<le> yd" "yd < 243 + l" | "243 + l \<le> yd" "yd < 273 + l"
    | "273 + l \<le> yd" "yd < 304 + l" | "304 + l \<le> yd" "yd < 334 + l"
    | "334 + l \<le> yd"
    by linarith
  then show ?thesis
  proof cases
    case 1
    then have "monthOfYday leap yd = 1" unfolding m by simp
    then show ?thesis using 1 assms by (simp add: v)
  next
    case 2
    then have "monthOfYday leap yd = 2" unfolding m using l01 by simp
    then show ?thesis using 2 by (simp add: v)
  next
    case 3
    then have "monthOfYday leap yd = 3" unfolding m using l01 by simp
    then show ?thesis using 3 by (simp add: v)
  next
    case 4
    then have "monthOfYday leap yd = 4" unfolding m using l01 by simp
    then show ?thesis using 4 by (simp add: v)
  next
    case 5
    then have "monthOfYday leap yd = 5" unfolding m using l01 by simp
    then show ?thesis using 5 by (simp add: v)
  next
    case 6
    then have "monthOfYday leap yd = 6" unfolding m using l01 by simp
    then show ?thesis using 6 by (simp add: v)
  next
    case 7
    then have "monthOfYday leap yd = 7" unfolding m using l01 by simp
    then show ?thesis using 7 by (simp add: v)
  next
    case 8
    then have "monthOfYday leap yd = 8" unfolding m using l01 by simp
    then show ?thesis using 8 by (simp add: v)
  next
    case 9
    then have "monthOfYday leap yd = 9" unfolding m using l01 by simp
    then show ?thesis using 9 by (simp add: v)
  next
    case 10
    then have "monthOfYday leap yd = 10" unfolding m using l01 by simp
    then show ?thesis using 10 by (simp add: v)
  next
    case 11
    then have "monthOfYday leap yd = 11" unfolding m using l01 by simp
    then show ?thesis using 11 by (simp add: v)
  next
    case 12
    then have "monthOfYday leap yd = 12" unfolding m using l01 by simp
    then show ?thesis using 12 by (simp add: v)
  qed
qed

lemma spec_monthStart_eq:
  "spec_monthStart y m = daysBefore (y - 1) + daysBeforeMonth (isLeap y) m - 719162"
  by (simp add: spec_monthStart_def daysBefore_def daysBeforeMonth_def isLeap_def)

lemma monthKey_interval:
  "(case monthKey t of (y, m) \<Rightarrow>
      1 \<le> m \<and> m \<le> 12 \<and>
      spec_monthStart y m \<le> spec_dateWindow t \<and>
      spec_dateWindow t < spec_monthStart (if m = 12 then y + 1 else y)
                                          (if m = 12 then 1 else m + 1))"
proof -
  define d where "d = unixDay t"
  define p where "p = yearIdx (rataDie d)"
  define yd where "yd = rataDie d - daysBefore p"
  define m where "m = monthOfYday (isLeap (p + 1)) yd"
  have br: "daysBefore p \<le> rataDie d" "rataDie d < daysBefore (p + 1)"
    using yearIdx_bracket[of "rataDie d"] by (simp_all add: p_def)
  have yd0: "0 \<le> yd" using br(1) by (simp add: yd_def)
  have mk: "monthKey t = (p + 1, m)"
    by (simp add: monthKey_def monthOf_def yearOf_def ydayOf_def d_def p_def yd_def m_def)
  have sd: "spec_dateWindow t = d" by (simp add: spec_dateWindow_def d_def unixDay_def)
  note r = monthOfYday_range[OF yd0, of "isLeap (p + 1)", folded m_def]
  have lo: "spec_monthStart (p + 1) m \<le> d"
    using r by (simp add: spec_monthStart_eq yd_def rataDie_def)
  have hi: "d < spec_monthStart (if m = 12 then p + 1 + 1 else p + 1)
                                 (if m = 12 then 1 else m + 1)"
  proof (cases "m = 12")
    case True
    have "d < daysBefore (p + 1) - 719162" using br(2) by (simp add: rataDie_def)
    then show ?thesis using True
      by (simp add: spec_monthStart_eq daysBeforeMonth_vals add.commute)
  next
    case False
    then have "yd < daysBeforeMonth (isLeap (p + 1)) (m + 1)" using r by simp
    then show ?thesis using False by (simp add: spec_monthStart_eq yd_def rataDie_def)
  qed
  show ?thesis unfolding mk sd using r lo hi by simp
qed

lemma keepSet_spec:
  assumes "newestFirst groups"
  shows "keepSet groups policy = spec_keepSet groups policy"
  unfolding keepSet_def spec_keepSet_def
    markWindows_day_spec[OF assms] markWindows_week_spec[OF assms]
    markWindows_spec[OF monthKey_convex assms] markLast_take
  by simp

lemma ApplyGroupRetention_zero:
  "ApplyGroupRetention groups \<lparr>KeepLast = 0, KeepDaily = 0, KeepWeekly = 0, KeepMonthly = 0\<rparr>
     = (groups, [])"
  by (simp add: ApplyGroupRetention_def allZero_def)

lemma exRet_days:
  "unixDay 1709542800000000000 = 19786"
  "unixDay 1709373600000000000 = 19784"
  "unixDay 1709366400000000000 = 19784"
  "unixDay 1709164800000000000 = 19782"
  "unixDay 1708819200000000000 = 19778"
  "unixDay 1705276800000000000 = 19737"
  by (simp_all add: unixDay_def)

lemma exRet_years:
  "yearOf 19786 = 2024" "yearOf 19784 = 2024" "yearOf 19782 = 2024" "yearOf 19778 = 2024"
  "yearOf 19737 = 2024"
  "ydayOf 19786 = 63" "ydayOf 19784 = 61" "ydayOf 19782 = 59" "ydayOf 19778 = 55"
  "ydayOf 19737 = 14"
  "isLeap 2024"
  by (simp_all add: yearOf_def ydayOf_def rataDie_def yearIdx_def daysBefore_def
        isLeap_def Let_def)

lemma exRet_months:
  "monthOf 19786 = 3" "monthOf 19784 = 3" "monthOf 19782 = 2" "monthOf 19778 = 2"
  "monthOf 19737 = 1"
  by (simp_all add: monthOf_def exRet_years monthOfYday_def)

lemma exRet_windows:
  "spec_dateWindow 1709542800000000000 = 19786"
  "spec_dateWindow 1709373600000000000 = 19784"
  "spec_dateWindow 1709366400000000000 = 19784"
  "spec_dateWindow 1709164800000000000 = 19782"
  "spec_dateWindow 1708819200000000000 = 19778"
  "spec_dateWindow 1705276800000000000 = 19737"
  "spec_weekWindow 1709542800000000000 = 2827"
  "spec_weekWindow 1709373600000000000 = 2826"
  "spec_weekWindow 1709366400000000000 = 2826"
  "spec_weekWindow 1709164800000000000 = 2826"
  "spec_weekWindow 1708819200000000000 = 2825"
  "spec_weekWindow 1705276800000000000 = 2820"
  "monthKey 1709542800000000000 = (2024, 3)"
  "monthKey 1709373600000000000 = (2024, 3)"
  "monthKey 1709366400000000000 = (2024, 3)"
  "monthKey 1709164800000000000 = (2024, 2)"
  "monthKey 1708819200000000000 = (2024, 2)"
  "monthKey 1705276800000000000 = (2024, 1)"
  unfolding spec_dateWindow_def spec_weekWindow_def monthKey_def exRet_days exRet_years
    exRet_months
  by simp_all

lemma exRet_spec:
  "spec_keepSet exRetGroups \<lparr>KeepLast = 1, KeepDaily = 2, KeepWeekly = 2, KeepMonthly = 2\<rparr>
     = {''J6'', ''J5'', ''J3''}"
  "spec_keepSet exRetGroups \<lparr>KeepLast = 0, KeepDaily = 0, KeepWeekly = 3, KeepMonthly = 0\<rparr>
     = {''J6'', ''J5'', ''J2''}"
  "spec_keepSet exRetGroups \<lparr>KeepLast = 0, KeepDaily = 0, KeepWeekly = 0, KeepMonthly = 3\<rparr>
     = {''J6'', ''J3'', ''J1''}"
  by (simp_all add: spec_keepSet_def exRetGroups_def exGroup_def exRet_windows Let_def
        insert_commute)

text \<open>
  Claim C5. For groups ordered newest first, the keep-last loop marks the first
  \<open>KeepLast\<close> groups, and the daily, weekly and monthly loops mark what the specified
  walk marks over the UTC date, the Monday-to-Sunday week and the calendar month: the
  first group met of each distinct window, for the first \<open>n\<close> distinct windows. The month
  key of an instant is the month whose span of days holds it. So the keep-set is the
  specified one; the policy with all four dimensions zero keeps every group and removes
  none, and no groups give no groups.
\<close>

theorem retention_as_specified:
  assumes "newestFirst groups"
  shows "markLast 0 (KeepLast policy) groups = map JobID (take (nat (KeepLast policy)) groups) \<and>
         markWindows dayKey (KeepDaily policy) 0 None groups
           = spec_markWindows spec_dateWindow (KeepDaily policy) [] groups \<and>
         markWindows ISOWeek (KeepWeekly policy) 0 None groups
           = spec_markWindows spec_weekWindow (KeepWeekly policy) [] groups \<and>
         markWindows monthKey (KeepMonthly policy) 0 None groups
           = spec_markWindows monthKey (KeepMonthly policy) [] groups \<and>
         (case monthKey t of (y, m) \<Rightarrow>
            1 \<le> m \<and> m \<le> 12 \<and>
            spec_monthStart y m \<le> spec_dateWindow t \<and>
            spec_dateWindow t < spec_monthStart (if m = 12 then y + 1 else y)
                                                (if m = 12 then 1 else m + 1)) \<and>
         keepSet groups policy = spec_keepSet groups policy \<and>
         ApplyGroupRetention groups policy =
           (if groups = [] then ([], [])
            else if KeepLast policy = 0 \<and> KeepDaily policy = 0 \<and>
                    KeepWeekly policy = 0 \<and> KeepMonthly policy = 0 then (groups, [])
            else (filter (\<lambda>g. JobID g \<in> spec_keepSet groups policy) groups,
                  filter (\<lambda>g. JobID g \<notin> spec_keepSet groups policy) groups)) \<and>
         ApplyGroupRetention groups
           \<lparr>KeepLast = 0, KeepDaily = 0, KeepWeekly = 0, KeepMonthly = 0\<rparr> = (groups, []) \<and>
         ApplyGroupRetention [] policy = ([], [])"
proof (intro conjI)
  show "markLast 0 (KeepLast policy) groups = map JobID (take (nat (KeepLast policy)) groups)"
    using markLast_take[of 0 "KeepLast policy" groups] by simp
  show "markWindows dayKey (KeepDaily policy) 0 None groups
           = spec_markWindows spec_dateWindow (KeepDaily policy) [] groups"
    by (rule markWindows_day_spec[OF assms])
  show "markWindows ISOWeek (KeepWeekly policy) 0 None groups
           = spec_markWindows spec_weekWindow (KeepWeekly policy) [] groups"
    by (rule markWindows_week_spec[OF assms])
  show "markWindows monthKey (KeepMonthly policy) 0 None groups
           = spec_markWindows monthKey (KeepMonthly policy) [] groups"
    by (rule markWindows_spec[OF monthKey_convex assms])
  show "case monthKey t of (y, m) \<Rightarrow>
            1 \<le> m \<and> m \<le> 12 \<and>
            spec_monthStart y m \<le> spec_dateWindow t \<and>
            spec_dateWindow t < spec_monthStart (if m = 12 then y + 1 else y)
                                                (if m = 12 then 1 else m + 1)"
    by (rule monthKey_interval)
  show "keepSet groups policy = spec_keepSet groups policy"
    by (rule keepSet_spec[OF assms])
  show "ApplyGroupRetention groups policy =
           (if groups = [] then ([], [])
            else if KeepLast policy = 0 \<and> KeepDaily policy = 0 \<and>
                    KeepWeekly policy = 0 \<and> KeepMonthly policy = 0 then (groups, [])
            else (filter (\<lambda>g. JobID g \<in> spec_keepSet groups policy) groups,
                  filter (\<lambda>g. JobID g \<notin> spec_keepSet groups policy) groups))"
    by (simp add: ApplyGroupRetention_def allZero_def keepSet_spec[OF assms])
  show "ApplyGroupRetention groups
           \<lparr>KeepLast = 0, KeepDaily = 0, KeepWeekly = 0, KeepMonthly = 0\<rparr> = (groups, [])"
    by (rule ApplyGroupRetention_zero)
  show "ApplyGroupRetention [] policy = ([], [])"
    by (simp add: ApplyGroupRetention_def)
qed

theorem retention_as_specified_witness:
  "newestFirst exRetGroups \<and>
   map JobID (fst (ApplyGroupRetention exRetGroups
      \<lparr>KeepLast = 1, KeepDaily = 2, KeepWeekly = 2, KeepMonthly = 2\<rparr>)) = [''J6'', ''J5'', ''J3''] \<and>
   map JobID (snd (ApplyGroupRetention exRetGroups
      \<lparr>KeepLast = 1, KeepDaily = 2, KeepWeekly = 2, KeepMonthly = 2\<rparr>)) = [''J4'', ''J2'', ''J1''] \<and>
   map JobID (fst (ApplyGroupRetention exRetGroups
      \<lparr>KeepLast = 0, KeepDaily = 0, KeepWeekly = 3, KeepMonthly = 0\<rparr>)) = [''J6'', ''J5'', ''J2''] \<and>
   map JobID (fst (ApplyGroupRetention exRetGroups
      \<lparr>KeepLast = 0, KeepDaily = 0, KeepWeekly = 0, KeepMonthly = 3\<rparr>)) = [''J6'', ''J3'', ''J1''] \<and>
   ApplyGroupRetention exRetGroups
      \<lparr>KeepLast = 0, KeepDaily = 0, KeepWeekly = 0, KeepMonthly = 0\<rparr> = (exRetGroups, []) \<and>
   ApplyGroupRetention [] \<lparr>KeepLast = 1, KeepDaily = 2, KeepWeekly = 2, KeepMonthly = 2\<rparr>
      = ([], []) \<and>
   ISOWeek 1709373600000000000 = ISOWeek 1709164800000000000 \<and>
   monthKey 1709373600000000000 = (2024, 3) \<and> monthKey 1709164800000000000 = (2024, 2) \<and>
   spec_monthStart 2024 3 = 19783"
proof -
  have n: "newestFirst exRetGroups"
    by (simp add: newestFirst_def exRetGroups_def exGroup_def)
  have ne: "exRetGroups \<noteq> []" by (simp add: exRetGroups_def)
  note r1 = retention_as_specified[OF n,
      of "\<lparr>KeepLast = 1, KeepDaily = 2, KeepWeekly = 2, KeepMonthly = 2\<rparr>" 1709373600000000000]
  note r2 = retention_as_specified[OF n,
      of "\<lparr>KeepLast = 0, KeepDaily = 0, KeepWeekly = 3, KeepMonthly = 0\<rparr>" 1709373600000000000]
  note r3 = retention_as_specified[OF n,
      of "\<lparr>KeepLast = 0, KeepDaily = 0, KeepWeekly = 0, KeepMonthly = 3\<rparr>" 1709373600000000000]
  have a1: "ApplyGroupRetention exRetGroups
        \<lparr>KeepLast = 1, KeepDaily = 2, KeepWeekly = 2, KeepMonthly = 2\<rparr> =
          (filter (\<lambda>g. JobID g \<in> {''J6'', ''J5'', ''J3''}) exRetGroups,
           filter (\<lambda>g. JobID g \<notin> {''J6'', ''J5'', ''J3''}) exRetGroups)"
    using r1 ne by (simp add: exRet_spec)
  have a2: "ApplyGroupRetention exRetGroups
        \<lparr>KeepLast = 0, KeepDaily = 0, KeepWeekly = 3, KeepMonthly = 0\<rparr> =
          (filter (\<lambda>g. JobID g \<in> {''J6'', ''J5'', ''J2''}) exRetGroups,
           filter (\<lambda>g. JobID g \<notin> {''J6'', ''J5'', ''J2''}) exRetGroups)"
    using r2 ne by (simp add: exRet_spec)
  have a3: "ApplyGroupRetention exRetGroups
        \<lparr>KeepLast = 0, KeepDaily = 0, KeepWeekly = 0, KeepMonthly = 3\<rparr> =
          (filter (\<lambda>g. JobID g \<in> {''J6'', ''J3'', ''J1''}) exRetGroups,
           filter (\<lambda>g. JobID g \<notin> {''J6'', ''J3'', ''J1''}) exRetGroups)"
    using r3 ne by (simp add: exRet_spec)
  from r1 have z: "ApplyGroupRetention exRetGroups
      \<lparr>KeepLast = 0, KeepDaily = 0, KeepWeekly = 0, KeepMonthly = 0\<rparr> = (exRetGroups, [])"
    and e: "ApplyGroupRetention [] \<lparr>KeepLast = 1, KeepDaily = 2, KeepWeekly = 2, KeepMonthly = 2\<rparr>
      = ([], [])"
    by simp_all
  have w: "ISOWeek 1709373600000000000 = ISOWeek 1709164800000000000"
    by (simp add: ISOWeek_eq exRet_windows)
  have ms: "spec_monthStart 2024 3 = 19783" by (simp add: spec_monthStart_def)
  have k1: "map JobID (fst (ApplyGroupRetention exRetGroups
      \<lparr>KeepLast = 1, KeepDaily = 2, KeepWeekly = 2, KeepMonthly = 2\<rparr>)) = [''J6'', ''J5'', ''J3'']"
    and k2: "map JobID (snd (ApplyGroupRetention exRetGroups
      \<lparr>KeepLast = 1, KeepDaily = 2, KeepWeekly = 2, KeepMonthly = 2\<rparr>)) = [''J4'', ''J2'', ''J1'']"
    unfolding a1 by (simp_all add: exRetGroups_def exGroup_def)
  have k3: "map JobID (fst (ApplyGroupRetention exRetGroups
      \<lparr>KeepLast = 0, KeepDaily = 0, KeepWeekly = 3, KeepMonthly = 0\<rparr>)) = [''J6'', ''J5'', ''J2'']"
    unfolding a2 by (simp add: exRetGroups_def exGroup_def)
  have k4: "map JobID (fst (ApplyGroupRetention exRetGroups
      \<lparr>KeepLast = 0, KeepDaily = 0, KeepWeekly = 0, KeepMonthly = 3\<rparr>)) = [''J6'', ''J3'', ''J1'']"
    unfolding a3 by (simp add: exRetGroups_def exGroup_def)
  from n k1 k2 k3 k4 z e w exRet_windows(14,16) ms show ?thesis by (intro conjI)
qed

section \<open>Properties of the cross-instance comparisons\<close>

lemmas eval_defs = cnpg_crossInstanceComparison_def exTriage_def exCD_def primaryTL_def primaryLSN_def
     parseTimelineInt_def ParseInt_def digitVal_def TrimSpace_def isSpace_def
     parseLSNValue_def wrap64_def showInt_def showDec.simps digitChar_def

lemma cnpg_split_brain_scenario: "cnpg_crossInstanceComparison (exTriage (exCD ''c-1'' ''5'' ''0/A0'')
   [exCD ''c-1'' ''5'' ''0/A0'', exCD ''c-2'' ''6'' ''0/50'', exCD ''c-3'' ''5'' ''0/99'']) ''c-1''
   = \<lparr>MostAdvanced = ''c-2'', MostAdvancedValue = 6, SafeToHeal = False,
    Warnings =
      [''SPLIT-BRAIN RISK: c-2 has timeline 6 > primary timeline 5''],
    SplitBrainDetails = [''c-2 has timeline 6 > primary timeline 5''],
    CheckpointLocation = ''0/50'', PrimaryMembers = [],
    BestPrimarySeqno = 0\<rparr>"
  by (simp add: eval_defs)


lemma compareLoop_skip:
  "cdPod inst = primaryName \<or> cdTimeline inst = ''unknown'' \<Longrightarrow>
   compareLoop primaryName pTL pLSN (inst # rest) (ma, maTL, maLSN, sb) =
   compareLoop primaryName pTL pLSN rest (ma, maTL, maLSN, sb)"
  by simp

lemma compareLoop_higher:
  "\<not> (cdPod inst = primaryName \<or> cdTimeline inst = ''unknown'') \<Longrightarrow>
   parseTimelineInt (cdTimeline inst) > maTL \<Longrightarrow>
   compareLoop primaryName pTL pLSN (inst # rest) (ma, maTL, maLSN, sb) =
   compareLoop primaryName pTL pLSN rest
     (cdPod inst, parseTimelineInt (cdTimeline inst), cdCheckpointLocation inst,
      sb @ [cdPod inst @ '' has timeline '' @ cdTimeline inst @
            '' > primary timeline '' @ showInt pTL])"
  by (simp add: Let_def)

lemma compareLoop_lsn:
  "\<not> (cdPod inst = primaryName \<or> cdTimeline inst = ''unknown'') \<Longrightarrow>
   \<not> parseTimelineInt (cdTimeline inst) > maTL \<Longrightarrow>
   parseTimelineInt (cdTimeline inst) = maTL \<and> cdCheckpointLocation inst \<noteq> ''unknown'' \<and>
     pLSN \<noteq> ''unknown'' \<Longrightarrow>
   parseLSNValue (cdCheckpointLocation inst) > parseLSNValue pLSN \<Longrightarrow>
   compareLoop primaryName pTL pLSN (inst # rest) (ma, maTL, maLSN, sb) =
   compareLoop primaryName pTL pLSN rest
     (ma, maTL, maLSN,
      sb @ [cdPod inst @ '' LSN '' @ cdCheckpointLocation inst @
            '' ahead of primary '' @ pLSN @ '' on same timeline''])"
  by (simp add: Let_def)

lemma compareLoop_same:
  "\<not> (cdPod inst = primaryName \<or> cdTimeline inst = ''unknown'') \<Longrightarrow>
   \<not> parseTimelineInt (cdTimeline inst) > maTL \<Longrightarrow>
   \<not> (parseTimelineInt (cdTimeline inst) = maTL \<and> cdCheckpointLocation inst \<noteq> ''unknown'' \<and>
     pLSN \<noteq> ''unknown'' \<and>
     parseLSNValue (cdCheckpointLocation inst) > parseLSNValue pLSN) \<Longrightarrow>
   compareLoop primaryName pTL pLSN (inst # rest) (ma, maTL, maLSN, sb) =
   compareLoop primaryName pTL pLSN rest (ma, maTL, maLSN, sb)"
  by (auto simp: Let_def)

lemma compareLoop_flags:
  assumes "pTL \<le> maTL" and "pTL < maTL \<longrightarrow> sb \<noteq> []"
  shows "(snd (snd (snd (compareLoop primaryName pTL pLSN insts (ma, maTL, maLSN, sb)))) \<noteq> [])
     \<longleftrightarrow> (sb \<noteq> [] \<or> (\<exists>inst\<in>set insts. aheadOf primaryName pTL pLSN inst))"
  using assms
proof (induction insts arbitrary: ma maTL maLSN sb)
  case Nil
  then show ?case by simp
next
  case (Cons inst rest)
  let ?tl = "parseTimelineInt (cdTimeline inst)"
  let ?skip = "cdPod inst = primaryName \<or> cdTimeline inst = ''unknown''"
  let ?lsn = "?tl = maTL \<and> cdCheckpointLocation inst \<noteq> ''unknown'' \<and> pLSN \<noteq> ''unknown'' \<and>
     parseLSNValue (cdCheckpointLocation inst) > parseLSNValue pLSN"
  have ex: "(\<exists>i\<in>set (inst # rest). aheadOf primaryName pTL pLSN i) \<longleftrightarrow>
      aheadOf primaryName pTL pLSN inst \<or> (\<exists>i\<in>set rest. aheadOf primaryName pTL pLSN i)"
    by simp
  show ?case
  proof (cases ?skip)
    case True
    then have "\<not> aheadOf primaryName pTL pLSN inst" by (auto simp: aheadOf_def)
    with True show ?thesis
      unfolding compareLoop_skip[OF True] ex
      using Cons.IH[OF Cons.prems, of ma maLSN] by simp
  next
    case ns: False
    show ?thesis
    proof (cases "?tl > maTL")
      case True
      with Cons.prems(1) have 1: "pTL \<le> ?tl" and 2: "pTL < ?tl" by simp_all
      have 3: "pTL < ?tl \<longrightarrow> sb @ [cdPod inst @ '' has timeline '' @ cdTimeline inst @
            '' > primary timeline '' @ showInt pTL] \<noteq> []" by simp
      have a: "aheadOf primaryName pTL pLSN inst" using ns 2 by (simp add: aheadOf_def)
      show ?thesis
        unfolding compareLoop_higher[OF ns True] ex
        using Cons.IH[OF 1 3, of "cdPod inst" "cdCheckpointLocation inst"] a by simp
    next
      case nh: False
      show ?thesis
      proof (cases ?lsn)
        case True
        then have l1: "?tl = maTL \<and> cdCheckpointLocation inst \<noteq> ''unknown'' \<and> pLSN \<noteq> ''unknown''"
          and l2: "parseLSNValue (cdCheckpointLocation inst) > parseLSNValue pLSN" by simp_all
        have 3: "pTL < maTL \<longrightarrow> sb @ [cdPod inst @ '' LSN '' @ cdCheckpointLocation inst @
            '' ahead of primary '' @ pLSN @ '' on same timeline''] \<noteq> []" by simp
        have a: "aheadOf primaryName pTL pLSN inst"
          using ns True Cons.prems(1) by (auto simp: aheadOf_def)
        show ?thesis
          unfolding compareLoop_lsn[OF ns nh l1 l2] ex
          using Cons.IH[OF Cons.prems(1) 3, of ma maLSN] a by simp
      next
        case False
        have a: "aheadOf primaryName pTL pLSN inst \<longrightarrow> sb \<noteq> []"
          using ns nh False Cons.prems by (auto simp: aheadOf_def)
        show ?thesis
          unfolding compareLoop_same[OF ns nh False] ex
          using Cons.IH[OF Cons.prems, of ma maLSN] a by blast
      qed
    qed
  qed
qed

lemma cnpg_safe_iff:
  "SafeToHeal (cnpg_crossInstanceComparison data primaryName) \<longleftrightarrow>
   \<not> (\<exists>inst\<in>set (controlDataList data).
         aheadOf primaryName (primaryTL data) (primaryLSN data) inst)"
proof -
  obtain ma maTL maLSN sb where r: "compareLoop primaryName (primaryTL data) (primaryLSN data)
      (controlDataList data) (primaryName, primaryTL data, primaryLSN data, []) = (ma, maTL, maLSN, sb)"
    by (metis prod_cases4)
  have "SafeToHeal (cnpg_crossInstanceComparison data primaryName) = (sb = [])"
    by (simp add: cnpg_crossInstanceComparison_def Let_def r)
  moreover have "(sb \<noteq> []) \<longleftrightarrow> (\<exists>inst\<in>set (controlDataList data).
       aheadOf primaryName (primaryTL data) (primaryLSN data) inst)"
    using compareLoop_flags[of "primaryTL data" "primaryTL data" "[]" primaryName "primaryLSN data"
        "controlDataList data" primaryName "primaryLSN data"]
    by (simp add: r)
  ultimately show ?thesis by blast
qed

lemma bestPrimaryLoop_ge:
  "b \<le> fst (bestPrimaryLoop es pms (b, p)) \<and>
   (\<forall>pm\<in>set pms. \<forall>e. map_of es pm = Some e \<longrightarrow> Value e \<le> fst (bestPrimaryLoop es pms (b, p)))"
proof (induction pms arbitrary: b p)
  case Nil
  then show ?case by simp
next
  case (Cons pm pms)
  show ?case
  proof (cases "map_of es pm")
    case None
    with Cons.IH[of b p] show ?thesis by simp
  next
    case (Some e)
    show ?thesis
    proof (cases "Value e > b")
      case True
      with Some Cons.IH[of "Value e" pm] show ?thesis by auto
    next
      case False
      with Some Cons.IH[of b p] show ?thesis by auto
    qed
  qed
qed

lemma bestPrimaryLoop_attained:
  "fst (bestPrimaryLoop es pms (b, p)) = b \<or>
   (\<exists>pm\<in>set pms. \<exists>e. map_of es pm = Some e \<and> Value e = fst (bestPrimaryLoop es pms (b, p)))"
proof (induction pms arbitrary: b p)
  case Nil
  then show ?case by simp
next
  case (Cons pm pms)
  show ?case
  proof (cases "map_of es pm")
    case None
    with Cons.IH[of b p] show ?thesis by auto
  next
    case (Some e)
    show ?thesis
    proof (cases "Value e > b")
      case True
      with Some Cons.IH[of "Value e" pm] show ?thesis by auto
    next
      case False
      with Some Cons.IH[of b p] show ?thesis by auto
    qed
  qed
qed

lemma galera_best:
  "BestPrimarySeqno (galera_crossInstanceComparison data) =
     fst (bestPrimaryLoop (effectiveSeqnos data) (primaryMembers data) (- 2, []))"
  by (simp add: galera_crossInstanceComparison_def Let_def case_prod_beta)

lemma galera_unsafe_iff:
  "\<not> SafeToHeal (galera_crossInstanceComparison data) \<longleftrightarrow>
     card (set (observedUUIDs data)) > 1 \<or>
     (\<exists>(name, ws)\<in>set (wsrepMap data). ClusterStatus ws \<noteq> [] \<and> ClusterStatus ws \<noteq> ''Primary'') \<or>
     (primaryMembers data \<noteq> [] \<and>
      (\<exists>(name, es)\<in>set (effectiveSeqnos data).
          name \<notin> set (primaryMembers data) \<and>
          Value es > BestPrimarySeqno (galera_crossInstanceComparison data) \<and> Value es > 0))"
proof -
  have len: "length (observedUUIDs data) = card (set (observedUUIDs data))"
    by (simp add: observedUUIDs_def length_remdups_card_conv)
  show ?thesis
    unfolding galera_best
    by (simp add: galera_crossInstanceComparison_def Let_def case_prod_beta filter_empty_conv len)
       blast
qed

lemma exGalera_cmp: "galera_crossInstanceComparison exGalera =
  \<lparr>MostAdvanced = ''g-0'', MostAdvancedValue = 100, SafeToHeal = False,
    Warnings = [''SPLIT-BRAIN RISK: g-2 cluster_status=non-Primary''],
    SplitBrainDetails = [''g-2 cluster_status=non-Primary''], CheckpointLocation = [],
    PrimaryMembers = [''g-0'', ''g-1''], BestPrimarySeqno = 100\<rparr>"
  by (simp add: galera_crossInstanceComparison_def exGalera_def exWsrep_def exGrastate_def
      collectPrimaryMembers_def observedUUIDs_def Let_def)

lemma exGalera_spec: "\<not> spec_galera_unsafe exGalera"
  unfolding spec_galera_unsafe_def exGalera_cmp
  by (simp add: exGalera_def exWsrep_def exGrastate_def
      collectPrimaryMembers_def observedUUIDs_def Let_def)

text \<open>
  Claim C2, amended. Postgres: the result is unsafe exactly when some instance other
  than the primary, with a known timeline, has a timeline above the primary's, or the
  primary's timeline and (both checkpoint locations known) a greater LSN value.
  Galera: the result is unsafe exactly when more than one cluster UUID is observed, or
  some node reports a cluster status other than Primary, or the Primary component is
  not empty and a node outside it has a positive effective seqno above the best seqno
  of the component's members. That best seqno bounds the seqno of every member, and is
  \<open>-2\<close> or the seqno of a member.
\<close>

theorem safe_to_heal_iff:
  "(\<not> SafeToHeal (Comparison (cnpg_triageAnalyze e data)) \<longleftrightarrow>
      (\<exists>inst\<in>set (controlDataList data).
          aheadOf (currentPrimary e) (primaryTL data) (primaryLSN data) inst)) \<and>
   (\<not> SafeToHeal (galera_crossInstanceComparison gdata) \<longleftrightarrow>
      card (set (observedUUIDs gdata)) > 1 \<or>
      (\<exists>(name, ws)\<in>set (wsrepMap gdata).
          ClusterStatus ws \<noteq> [] \<and> ClusterStatus ws \<noteq> ''Primary'') \<or>
      (primaryMembers gdata \<noteq> [] \<and>
       (\<exists>(name, es)\<in>set (effectiveSeqnos gdata).
           name \<notin> set (primaryMembers gdata) \<and>
           Value es > BestPrimarySeqno (galera_crossInstanceComparison gdata) \<and>
           Value es > 0))) \<and>
   (\<forall>pm\<in>set (primaryMembers gdata). \<forall>es. map_of (effectiveSeqnos gdata) pm = Some es \<longrightarrow>
       Value es \<le> BestPrimarySeqno (galera_crossInstanceComparison gdata)) \<and>
   (BestPrimarySeqno (galera_crossInstanceComparison gdata) = - 2 \<or>
    (\<exists>pm\<in>set (primaryMembers gdata). \<exists>es. map_of (effectiveSeqnos gdata) pm = Some es \<and>
       Value es = BestPrimarySeqno (galera_crossInstanceComparison gdata)))"
proof (intro conjI)
  have "Comparison (cnpg_triageAnalyze e data) =
        cnpg_crossInstanceComparison data (currentPrimary e)"
    by (simp add: cnpg_triageAnalyze_def Let_def)
  then show "\<not> SafeToHeal (Comparison (cnpg_triageAnalyze e data)) \<longleftrightarrow>
      (\<exists>inst\<in>set (controlDataList data).
          aheadOf (currentPrimary e) (primaryTL data) (primaryLSN data) inst)"
    using cnpg_safe_iff[of data "currentPrimary e"] by simp
next
  show "\<not> SafeToHeal (galera_crossInstanceComparison gdata) \<longleftrightarrow>
      card (set (observedUUIDs gdata)) > 1 \<or>
      (\<exists>(name, ws)\<in>set (wsrepMap gdata).
          ClusterStatus ws \<noteq> [] \<and> ClusterStatus ws \<noteq> ''Primary'') \<or>
      (primaryMembers gdata \<noteq> [] \<and>
       (\<exists>(name, es)\<in>set (effectiveSeqnos gdata).
           name \<notin> set (primaryMembers gdata) \<and>
           Value es > BestPrimarySeqno (galera_crossInstanceComparison gdata) \<and>
           Value es > 0))"
    by (rule galera_unsafe_iff)
next
  show "\<forall>pm\<in>set (primaryMembers gdata). \<forall>es. map_of (effectiveSeqnos gdata) pm = Some es \<longrightarrow>
       Value es \<le> BestPrimarySeqno (galera_crossInstanceComparison gdata)"
    unfolding galera_best using bestPrimaryLoop_ge by blast
next
  show "BestPrimarySeqno (galera_crossInstanceComparison gdata) = - 2 \<or>
    (\<exists>pm\<in>set (primaryMembers gdata). \<exists>es. map_of (effectiveSeqnos gdata) pm = Some es \<and>
       Value es = BestPrimarySeqno (galera_crossInstanceComparison gdata))"
    unfolding galera_best using bestPrimaryLoop_attained by blast
qed

theorem safe_to_heal_iff_witness:
  "(\<exists>inst\<in>set [exCD ''c-1'' ''5'' ''0/A0'', exCD ''c-2'' ''6'' ''0/50'', exCD ''c-3'' ''5'' ''0/99''].
      aheadOf ''c-1'' 5 ''0/A0'' inst) \<and>
   (\<exists>(name, ws)\<in>set (wsrepMap exGalera).
      ClusterStatus ws \<noteq> [] \<and> ClusterStatus ws \<noteq> ''Primary'') \<and>
   primaryMembers exGalera = [''g-0'', ''g-1''] \<and>
   map_of (effectiveSeqnos exGalera) ''g-0'' = Some \<lparr>Value = 100, Source = ''wsrep_last_committed''\<rparr> \<and>
   (100::int) \<le> BestPrimarySeqno (galera_crossInstanceComparison exGalera)"
proof -
  let ?data = "exTriage (exCD ''c-1'' ''5'' ''0/A0'')
     [exCD ''c-1'' ''5'' ''0/A0'', exCD ''c-2'' ''6'' ''0/50'', exCD ''c-3'' ''5'' ''0/99'']"
  let ?e = "\<lparr>cfg = \<lparr>ClusterName = ''c'', Namespace = ''db'', InstanceNumber = None,
                        Force = False, BackupsPath = ''/backups'', NoEscrow = False,
                        ResticPassword = ''secret''\<rparr>,
             currentPrimary = ''c-1'', instances = 3\<rparr>"
  note t = safe_to_heal_iff[of ?e ?data exGalera]
  have unsafe: "\<not> SafeToHeal (Comparison (cnpg_triageAnalyze ?e ?data))"
    by (simp add: cnpg_triageAnalyze_def Let_def cnpg_split_brain_scenario)
  have ptl: "primaryTL ?data = 5" "primaryLSN ?data = ''0/A0''"
    by (simp_all add: eval_defs)
  have cdl: "controlDataList ?data =
      [exCD ''c-1'' ''5'' ''0/A0'', exCD ''c-2'' ''6'' ''0/50'', exCD ''c-3'' ''5'' ''0/99'']"
    by (simp add: exTriage_def)
  from t unsafe have 1: "\<exists>inst\<in>set (controlDataList ?data).
      aheadOf (currentPrimary ?e) (primaryTL ?data) (primaryLSN ?data) inst"
    by blast
  have 2: "\<exists>(name, ws)\<in>set (wsrepMap exGalera).
      ClusterStatus ws \<noteq> [] \<and> ClusterStatus ws \<noteq> ''Primary''"
    by (simp add: exGalera_def exWsrep_def Let_def)
  have 3: "primaryMembers exGalera = [''g-0'', ''g-1'']"
    by (simp add: exGalera_def exWsrep_def Let_def collectPrimaryMembers_def)
  have 4: "map_of (effectiveSeqnos exGalera) ''g-0'' =
      Some \<lparr>Value = 100, Source = ''wsrep_last_committed''\<rparr>"
    by (simp add: exGalera_def Let_def)
  from t have "\<forall>pm\<in>set (primaryMembers exGalera). \<forall>es.
       map_of (effectiveSeqnos exGalera) pm = Some es \<longrightarrow>
       Value es \<le> BestPrimarySeqno (galera_crossInstanceComparison exGalera)"
    by blast
  with 3 4 have 5: "(100::int) \<le> BestPrimarySeqno (galera_crossInstanceComparison exGalera)"
    by fastforce
  from 1 have first: "\<exists>inst\<in>set [exCD ''c-1'' ''5'' ''0/A0'', exCD ''c-2'' ''6'' ''0/50'',
      exCD ''c-3'' ''5'' ''0/99'']. aheadOf ''c-1'' 5 ''0/A0'' inst"
    unfolding ptl cdl by simp
  from first 2 3 4 5 show ?thesis by (intro conjI)
qed

theorem safe_to_heal_iff_counterexample:
  "\<not> (\<not> SafeToHeal (galera_crossInstanceComparison exGalera) \<longleftrightarrow> spec_galera_unsafe exGalera)"
  using exGalera_spec by (simp add: exGalera_cmp)

text \<open>
  Claim C6, the comparison at two inputs where it departs from the claim. With primary
  \<open>c-1\<close> (timeline 5, LSN 0/A0) and replica \<open>c-2\<close> (timeline 5, LSN 0/FF), \<open>c-2\<close> is
  flagged as ahead of the primary, yet \<open>MostAdvanced\<close> stays \<open>c-1\<close>. With replicas
  \<open>c-2\<close> (timeline 7) and \<open>c-3\<close> (timeline 6) in that order, \<open>c-3\<close> is ahead of the
  primary's timeline 5 and is not flagged.
\<close>

theorem cnpg_comparison_departs:
  "MostAdvanced (cnpg_crossInstanceComparison (exTriage (exCD ''c-1'' ''5'' ''0/A0'')
       [exCD ''c-1'' ''5'' ''0/A0'', exCD ''c-2'' ''5'' ''0/FF'']) ''c-1'') = ''c-1'' \<and>
   SplitBrainDetails (cnpg_crossInstanceComparison (exTriage (exCD ''c-1'' ''5'' ''0/A0'')
       [exCD ''c-1'' ''5'' ''0/A0'', exCD ''c-2'' ''5'' ''0/FF'']) ''c-1'') =
     [''c-2 LSN 0/FF ahead of primary 0/A0 on same timeline''] \<and>
   aheadOf ''c-1'' 5 ''0/A0'' (exCD ''c-3'' ''6'' ''0/10'') \<and>
   SplitBrainDetails (cnpg_crossInstanceComparison (exTriage (exCD ''c-1'' ''5'' ''0/A0'')
       [exCD ''c-1'' ''5'' ''0/A0'', exCD ''c-2'' ''7'' ''0/10'', exCD ''c-3'' ''6'' ''0/10''])
       ''c-1'') =
     [''c-2 has timeline 7 > primary timeline 5'']"
proof (intro conjI)
  show "MostAdvanced (cnpg_crossInstanceComparison (exTriage (exCD ''c-1'' ''5'' ''0/A0'')
       [exCD ''c-1'' ''5'' ''0/A0'', exCD ''c-2'' ''5'' ''0/FF'']) ''c-1'') = ''c-1''"
    by (simp add: eval_defs)
  show "SplitBrainDetails (cnpg_crossInstanceComparison (exTriage (exCD ''c-1'' ''5'' ''0/A0'')
       [exCD ''c-1'' ''5'' ''0/A0'', exCD ''c-2'' ''5'' ''0/FF'']) ''c-1'') =
     [''c-2 LSN 0/FF ahead of primary 0/A0 on same timeline'']"
    by (simp add: eval_defs)
  show "aheadOf ''c-1'' 5 ''0/A0'' (exCD ''c-3'' ''6'' ''0/10'')"
    by (simp add: aheadOf_def eval_defs)
  show "SplitBrainDetails (cnpg_crossInstanceComparison (exTriage (exCD ''c-1'' ''5'' ''0/A0'')
       [exCD ''c-1'' ''5'' ''0/A0'', exCD ''c-2'' ''7'' ''0/10'', exCD ''c-3'' ''6'' ''0/10''])
       ''c-1'') =
     [''c-2 has timeline 7 > primary timeline 5'']"
    by (simp add: eval_defs)
qed

section \<open>Properties of the Postgres repair flow\<close>

lemma date_ex: "unixDay 1719835200000000000 = 19905" "yearOf 19905 = 2024" "ydayOf 19905 = 182"
  "isLeap 2024"
  by (simp_all add: unixDay_def yearOf_def ydayOf_def rataDie_def yearIdx_def daysBefore_def
       isLeap_def Let_def)

lemma month_ex: "monthOf 19905 = 7"
  by (simp add: monthOf_def date_ex monthOfYday_def)

lemma mday_ex: "mdayOf 19905 = 1"
  by (simp add: mdayOf_def date_ex month_ex daysBeforeMonth_def)

lemma appendInt_ex: "appendInt 2024 4 = ''2024''" "appendInt 7 2 = ''07''" "appendInt 1 2 = ''01''"
   "appendInt 12 2 = ''12''" "appendInt 0 2 = ''00''"
  by (simp_all add: appendInt_def showDec.simps digitChar_def)

lemma jobID_ex: "jobIDOf 1719835200000000000 = ''20240701T120000Z''"
  by (simp add: jobIDOf_def date_ex month_ex mday_ex appendInt_ex Let_def)

lemma cnpg_assess_IsRunning: "IsRunning (cnpg_assess data comparison primaryName inst) = False"
  by (simp add: cnpg_assess_def Let_def)

lemma cnpg_assess_Instance: "Instance (cnpg_assess data comparison primaryName inst) = 0"
  by (simp add: cnpg_assess_def Let_def)

lemma cnpg_assess_Pod: "Pod (cnpg_assess data comparison primaryName inst) = cdPod inst"
  by (simp add: cnpg_assess_def Let_def)

lemma cnpg_no_diverged_calls:
  "divergedCalls c dumpFile start (cnpg_triageAnalyze e data) = []"
proof -
  have "filter (\<lambda>a. IsRunning a \<and> IsReady a) (Assessments (cnpg_triageAnalyze e data)) = []"
    unfolding filter_empty_conv
    by (auto simp: cnpg_triageAnalyze_def cnpg_buildAssessments_def Let_def cnpg_assess_IsRunning)
  then show ?thesis by (simp add: divergedCalls_def)
qed


lemma repairTargeted_primary:
  assumes "ClusterName (cfg e) @ ''-'' @ showInt n = currentPrimary e"
  shows "cnpg_repairTargeted pf e n result rr w =
     (Some (''ABORT: '' @ currentPrimary e @
            '' is the PRIMARY. Cannot heal primary. Use switchover first''), rr, w)"
  using assms by (simp add: cnpg_repairTargeted_def Let_def)

lemma Repair_targeted_primary_cases:
  assumes tgt: "InstanceNumber (cfg e) = Some n"
      and prim: "ClusterName (cfg e) @ ''-'' @ showInt n = currentPrimary e"
  shows "cnpg_Repair pf e start w =
     (case triageCollect pf w of
        (Inl err, w1) \<Rightarrow> (Inl (''triage failed: triage collect failed: '' @ err), w1)
      | (Inr data, w1) \<Rightarrow>
          if currentPrimary e = [] then
               (Inl (''ABORT: No primary detected. '' @
                     ''Cannot heal replicas without a healthy primary''), w1)
          else case getPod pf (currentPrimary e) w1 of
               Inl err \<Rightarrow>
                 (Inl (''ABORT: Primary pod '' @ currentPrimary e @ '' not found: '' @ err), w1)
             | Inr primaryPod \<Rightarrow>
                 if \<not> runningAndReady primaryPod then
                   (Inl (''ABORT: Primary '' @ currentPrimary e @
                         '' is not running and ready. Fix primary first''), w1)
                 else if \<not> NoEscrow (cfg e) \<and>
                         (BackupsPath (cfg e) = [] \<or> ResticPassword (cfg e) = []) then
                   (Inl (''repair requires --backups-path and RESTIC_PASSWORD for escrow '' @
                         ''(or --no-escrow to skip)''), w1)
                 else if NoEscrow (cfg e) then
                   (Inl (abortPrimary (currentPrimary e)), w1)
                 else
                   case backupDump pf (escrowCall e start) w1 of
                     (Inl err, w2) \<Rightarrow> (Inl (''pre-repair backup failed: '' @ err), w2)
                   | (Inr escrow, w2) \<Rightarrow>
                       (Inl (abortPrimary (currentPrimary e)),
                        runDiverged pf (divergedCalls (cfg e) cnpg_DumpFilename start
                           (cnpg_triageAnalyze e data)) w2))"
  unfolding cnpg_Repair_def escrowCall_def abortPrimary_def
  by (simp add: tgt repairTargeted_primary[OF prim] divergedCalls_def Let_def
        split: prod.splits sum.splits)



lemma Repair_targeted_primary_message:
  assumes tgt: "InstanceNumber (cfg e) = Some n"
      and prim: "ClusterName (cfg e) @ ''-'' @ showInt n = currentPrimary e"
      and tri: "triageCollect pf w = (Inr data, w1)"
      and pod: "getPod pf (currentPrimary e) w1 = Inr primaryPod" "runningAndReady primaryPod"
      and esc: "NoEscrow (cfg e) \<and> w2 = w1 \<or>
                \<not> NoEscrow (cfg e) \<and> BackupsPath (cfg e) \<noteq> [] \<and> ResticPassword (cfg e) \<noteq> [] \<and>
                (\<exists>snap. backupDump pf (escrowCall e start) w1 = (Inr snap, w2))"
  shows "fst (cnpg_Repair pf e start w) = Inl (abortPrimary (currentPrimary e))"
proof -
  from prim have "currentPrimary e \<noteq> []" by (metis Nil_is_append_conv list.distinct(1))
  then show ?thesis
    unfolding Repair_targeted_primary_cases[OF tgt prim]
    using tri pod esc by auto
qed










lemma exSplitBrain_unsafe: "\<not> SafeToHeal (Comparison (cnpg_triageAnalyze exEngine exSplitBrain))"
  unfolding exSplitBrain_def exEngine_def
  by (simp add: cnpg_triageAnalyze_def Let_def cnpg_split_brain_scenario)

lemma exSplitBrain_pods:
  "map Pod (Assessments (cnpg_triageAnalyze exEngine exSplitBrain)) = [''c-1'', ''c-2'', ''c-3'']"
  by (simp add: cnpg_triageAnalyze_def cnpg_buildAssessments_def Let_def cnpg_assess_Pod
       exSplitBrain_def exTriage_def exCD_def)

lemma showInt_012: "showInt 0 = ''0''" "showInt 1 = ''1''" "showInt 2 = ''2''"
  by (simp_all add: showInt_def showDec.simps digitChar_def)

lemma divergedCalls_presumed:
  "divergedCalls (cfg exEngine) cnpg_DumpFilename 1719835200000000000
      ((cnpg_triageAnalyze exEngine exSplitBrain)
         \<lparr>Assessments := [exReady ''c-0'' 0, exReady ''c-1'' 1, exReady ''c-2'' 2]\<rparr>) =
   [\<lparr>backupType = ''diverged'', donor = ''c-0'', stdinFilename = ''db/c/0-pgdumpall.sql'',
     jobTime = 1719835200000000000, extraTags = [(''job'', ''20240701T120000Z'')]\<rparr>,
    \<lparr>backupType = ''diverged'', donor = ''c-1'', stdinFilename = ''db/c/1-pgdumpall.sql'',
     jobTime = 1719835200000000000, extraTags = [(''job'', ''20240701T120000Z'')]\<rparr>,
    \<lparr>backupType = ''diverged'', donor = ''c-2'', stdinFilename = ''db/c/2-pgdumpall.sql'',
     jobTime = 1719835200000000000, extraTags = [(''job'', ''20240701T120000Z'')]\<rparr>]"
  using exSplitBrain_unsafe
  by (simp add: divergedCalls_def jobID_ex exReady_def showInt_012 cnpg_DumpFilename_def
       exEngine_def exConfig_def)

lemma exEngine_fields:
  "currentPrimary exEngine = ''c-1''" "InstanceNumber (cfg exEngine) = None"
  "NoEscrow (cfg exEngine) = False" "BackupsPath (cfg exEngine) = ''/backups''"
  "ResticPassword (cfg exEngine) = ''secret''" "Namespace (cfg exEngine) = ''db''"
  "ClusterName (cfg exEngine) = ''c''"
  by (simp_all add: exEngine_def exConfig_def)

lemma repairUntargeted_unsafe:
  "\<not> SafeToHeal (Comparison result) \<Longrightarrow>
   cnpg_repairUntargeted pf e result rr w =
     (Some (''HARD STOP: Split-brain detected. Cannot auto-heal all replicas. '' @
            ''Admin must review triage output, then use targeted repair: --instance <N>''),
      rr, w)"
  by (simp add: cnpg_repairUntargeted_def)

lemma Repair_exSplitBrain:
  "cnpg_Repair (exPlatform exSplitBrain) exEngine 1719835200000000000 [] =
     (Inl (''HARD STOP: Split-brain detected. Cannot auto-heal all replicas. '' @
           ''Admin must review triage output, then use targeted repair: --instance <N>''),
      [''snapshot db/c/pgdumpall.sql''])"
  by (simp add: cnpg_Repair_def exPlatform_def Let_def runningAndReady_def cnpg_no_diverged_calls
        repairUntargeted_unsafe[OF exSplitBrain_unsafe] cnpg_DumpFilename_def exEngine_fields)

text \<open>
  Claim C1, on a repair started at 2024-07-01T12:00:00Z for the split-brain cluster
  \<open>c-1\<close>, \<open>c-2\<close>, \<open>c-3\<close> with escrow enabled. The triage result is unsafe and has three
  assessments, but the repair issues no diverged capture: the only snapshot written is
  the escrow. The loop itself, given assessments that are marked running and ready and
  carry their ordinal, issues the three captures that the claim describes.
\<close>

theorem cnpg_diverged_captures_missing:
  "\<not> SafeToHeal (Comparison (cnpg_triageAnalyze exEngine exSplitBrain)) \<and>
   \<not> NoEscrow (cfg exEngine) \<and>
   map Pod (Assessments (cnpg_triageAnalyze exEngine exSplitBrain)) = [''c-1'', ''c-2'', ''c-3''] \<and>
   divergedCalls (cfg exEngine) cnpg_DumpFilename 1719835200000000000
      (cnpg_triageAnalyze exEngine exSplitBrain) = [] \<and>
   snd (cnpg_Repair (exPlatform exSplitBrain) exEngine 1719835200000000000 []) =
      [''snapshot db/c/pgdumpall.sql''] \<and>
   divergedCalls (cfg exEngine) cnpg_DumpFilename 1719835200000000000
      ((cnpg_triageAnalyze exEngine exSplitBrain)
         \<lparr>Assessments := [exReady ''c-0'' 0, exReady ''c-1'' 1, exReady ''c-2'' 2]\<rparr>) =
   [\<lparr>backupType = ''diverged'', donor = ''c-0'', stdinFilename = ''db/c/0-pgdumpall.sql'',
     jobTime = 1719835200000000000, extraTags = [(''job'', ''20240701T120000Z'')]\<rparr>,
    \<lparr>backupType = ''diverged'', donor = ''c-1'', stdinFilename = ''db/c/1-pgdumpall.sql'',
     jobTime = 1719835200000000000, extraTags = [(''job'', ''20240701T120000Z'')]\<rparr>,
    \<lparr>backupType = ''diverged'', donor = ''c-2'', stdinFilename = ''db/c/2-pgdumpall.sql'',
     jobTime = 1719835200000000000, extraTags = [(''job'', ''20240701T120000Z'')]\<rparr>]"
proof (intro conjI)
  show "\<not> SafeToHeal (Comparison (cnpg_triageAnalyze exEngine exSplitBrain))"
    by (rule exSplitBrain_unsafe)
  show "\<not> NoEscrow (cfg exEngine)"
    by (simp add: exEngine_fields)
  show "map Pod (Assessments (cnpg_triageAnalyze exEngine exSplitBrain)) =
      [''c-1'', ''c-2'', ''c-3'']"
    by (rule exSplitBrain_pods)
  show "divergedCalls (cfg exEngine) cnpg_DumpFilename 1719835200000000000
      (cnpg_triageAnalyze exEngine exSplitBrain) = []"
    by (rule cnpg_no_diverged_calls)
  show "snd (cnpg_Repair (exPlatform exSplitBrain) exEngine 1719835200000000000 []) =
      [''snapshot db/c/pgdumpall.sql'']"
    by (simp add: Repair_exSplitBrain)
  show "divergedCalls (cfg exEngine) cnpg_DumpFilename 1719835200000000000
      ((cnpg_triageAnalyze exEngine exSplitBrain)
         \<lparr>Assessments := [exReady ''c-0'' 0, exReady ''c-1'' 1, exReady ''c-2'' 2]\<rparr>) =
   [\<lparr>backupType = ''diverged'', donor = ''c-0'', stdinFilename = ''db/c/0-pgdumpall.sql'',
     jobTime = 1719835200000000000, extraTags = [(''job'', ''20240701T120000Z'')]\<rparr>,
    \<lparr>backupType = ''diverged'', donor = ''c-1'', stdinFilename = ''db/c/1-pgdumpall.sql'',
     jobTime = 1719835200000000000, extraTags = [(''job'', ''20240701T120000Z'')]\<rparr>,
    \<lparr>backupType = ''diverged'', donor = ''c-2'', stdinFilename = ''db/c/2-pgdumpall.sql'',
     jobTime = 1719835200000000000, extraTags = [(''job'', ''20240701T120000Z'')]\<rparr>]"
    by (rule divergedCalls_presumed)
qed

section \<open>Properties of the streaming dump backup\<close>

lemma stdinCopy_None: "stdinCopy pending None = (True, pending)"
  by (induction pending) simp_all

lemma stdinCopy_Some: "stdinCopy pending (Some k) = (pending \<le> k, min pending (Suc k))"
proof (induction pending arbitrary: k)
  case 0
  show ?case by simp
next
  case (Suc pending)
  show ?case by (cases k) (simp_all add: Suc.IH)
qed

lemma stdinCopy_sawEnd:
  "fst (stdinCopy pending takes) \<Longrightarrow> snd (stdinCopy pending takes) = pending"
  by (cases takes) (simp_all add: stdinCopy_None stdinCopy_Some)

lemma execFailedFirst_drained: "execFailedFirst run \<Longrightarrow> dumpDrained run"
  by (simp add: execFailedFirst_def dumpDrained_def BackupStdin_def stdinCopy_sawEnd
        Let_def case_prod_beta)

lemma execFailedFirst_archive:
  assumes "execFailedFirst run" "execResult run = Some x" "resticExit run = None"
  shows "fst (BackupStdin run) = Inl (''restic backup failed: '' @ x)"
  using assms by (simp add: execFailedFirst_def BackupStdin_def Let_def case_prod_beta)

lemma dumpFrom_reached:
  assumes "pipelineReached run" "dumpDrained run"
  shows "dumpFrom engineName tool c donorName call run =
     Some (case fst (BackupStdin run) of
        Inl err \<Rightarrow> Inl (''restic backup failed: '' @ err)
      | Inr summary \<Rightarrow>
          (case execResult run of
             Some err \<Rightarrow> Inl (tool @ '' exec failed: '' @ err)
           | None \<Rightarrow>
               Inr \<lparr>brSnapshotID = SnapshotID summary, brRepository = BackupsPath c,
                    brSize = TotalSize summary, brTags = dumpTags engineName c call\<rparr>))"
  using assms
  by (auto simp: dumpFrom_def pipelineReached_def dumpDrained_def execWait_def
        split: sum.splits option.splits prod.splits)

lemma dumpFrom_blocked:
  assumes "pipelineReached run" "\<not> dumpDrained run"
  shows "dumpFrom engineName tool c donorName call run = None"
  using assms
  by (auto simp: dumpFrom_def pipelineReached_def dumpDrained_def execWait_def
        split: sum.splits option.splits prod.splits)

lemma galera_BackupDump_reached:
  assumes "pipelineReached run" "dumpDrained run"
      and "donor call \<noteq> [] \<or> \<not> isl (healthyPod run)"
  shows "galera_BackupDump c call run =
     Some (case fst (BackupStdin run) of
        Inl err \<Rightarrow> Inl (''restic backup failed: '' @ err)
      | Inr summary \<Rightarrow>
          (case execResult run of
             Some err \<Rightarrow> Inl (''mysqldump exec failed: '' @ err)
           | None \<Rightarrow>
               Inr \<lparr>brSnapshotID = SnapshotID summary, brRepository = BackupsPath c,
                    brSize = TotalSize summary, brTags = dumpTags ''galera'' c call\<rparr>))"
  using assms(3)
  by (auto simp: galera_BackupDump_def dumpFrom_reached[OF assms(1,2)]
        split: sum.splits option.splits)

lemma exRunEarly_blocks:
  "pipelineReached exRunEarly \<and> \<not> dumpDrained exRunEarly \<and>
   fst (BackupStdin exRunEarly) = Inl ''restic backup failed: exit status 1'' \<and>
   cnpg_BackupDump (exConfig None False) exCall exRunEarly = None"
proof -
  have r: "pipelineReached exRunEarly"
    by (simp add: pipelineReached_def exRunEarly_def exRun_def runningAndReady_def)
  have b: "BackupStdin exRunEarly = (Inl ''restic backup failed: exit status 1'', 1)"
    by (simp add: BackupStdin_def exRunEarly_def exRun_def stdinCopy_Some)
  have n: "\<not> dumpDrained exRunEarly"
    by (simp add: dumpDrained_def b) (simp add: exRunEarly_def)
  show ?thesis
    using r n b by (simp add: cnpg_BackupDump_def dumpFrom_blocked)
qed

lemma exRun_facts:
  "pipelineReached exRun" "BackupStdin exRun = (Inl ''restic backup failed: exit status 1'', 2)"
  "dumpDrained exRun" "execFailedFirst exRun" "execResult exRun = Some ''connection reset by peer''"
proof -
  show "pipelineReached exRun"
    by (simp add: pipelineReached_def exRun_def runningAndReady_def)
  show b: "BackupStdin exRun = (Inl ''restic backup failed: exit status 1'', 2)"
    by (simp add: BackupStdin_def exRun_def stdinCopy_None)
  show "dumpDrained exRun" by (simp add: dumpDrained_def b) (simp add: exRun_def)
  show "execFailedFirst exRun" by (simp add: execFailedFirst_def exRun_def stdinCopy_None)
  show "execResult exRun = Some ''connection reset by peer''" by (simp add: exRun_def)
qed

text \<open>
  Claim C7, amended. Once the dump pipeline has been started and the call returns, it
  returns a result or exactly one error. An error of the archive step is always the one
  returned, wrapped as \<open>restic backup failed\<close>, whether or not the dump exec failed too
  and whichever failed first; the exec error is returned under its own wrapper,
  \<open>pg_dumpall exec failed\<close> or \<open>mysqldump exec failed\<close>, only when the archive step
  reported none. When the dump exec failed first and restic itself exited cleanly, the
  error of the archive step is the error of the exec.
\<close>

theorem dump_error_precedence:
  assumes "pipelineReached run" and "dumpDrained run"
      and "donor gcall \<noteq> [] \<or> \<not> isl (healthyPod run)"
  shows "(\<forall>a. fst (BackupStdin run) = Inl a \<longrightarrow>
            cnpg_BackupDump c call run = Some (Inl (''restic backup failed: '' @ a)) \<and>
            galera_BackupDump c gcall run = Some (Inl (''restic backup failed: '' @ a))) \<and>
         (\<forall>summary x. fst (BackupStdin run) = Inr summary \<and> execResult run = Some x \<longrightarrow>
            cnpg_BackupDump c call run = Some (Inl (''pg_dumpall exec failed: '' @ x)) \<and>
            galera_BackupDump c gcall run = Some (Inl (''mysqldump exec failed: '' @ x))) \<and>
         (\<forall>summary. fst (BackupStdin run) = Inr summary \<and> execResult run = None \<longrightarrow>
            (\<exists>r. cnpg_BackupDump c call run = Some (Inr r)) \<and>
            (\<exists>r. galera_BackupDump c gcall run = Some (Inr r))) \<and>
         (\<forall>x. execFailedFirst run \<and> execResult run = Some x \<and> resticExit run = None \<longrightarrow>
            fst (BackupStdin run) = Inl (''restic backup failed: '' @ x)) \<and>
         (pipelineFailed run \<longleftrightarrow> (\<exists>e. cnpg_BackupDump c call run = Some (Inl e))) \<and>
         (pipelineFailed run \<longleftrightarrow> (\<exists>e. galera_BackupDump c gcall run = Some (Inl e)))"
proof -
  note c = dumpFrom_reached[OF assms(1,2), of "''cnpg''" "''pg_dumpall''" c "donor call" call,
              folded cnpg_BackupDump_def]
  note g = galera_BackupDump_reached[OF assms, of c]
  have 1: "\<forall>a. fst (BackupStdin run) = Inl a \<longrightarrow>
            cnpg_BackupDump c call run = Some (Inl (''restic backup failed: '' @ a)) \<and>
            galera_BackupDump c gcall run = Some (Inl (''restic backup failed: '' @ a))"
    unfolding c g by simp
  have 2: "\<forall>summary x. fst (BackupStdin run) = Inr summary \<and> execResult run = Some x \<longrightarrow>
            cnpg_BackupDump c call run = Some (Inl (''pg_dumpall exec failed: '' @ x)) \<and>
            galera_BackupDump c gcall run = Some (Inl (''mysqldump exec failed: '' @ x))"
    unfolding c g by simp
  have 3: "\<forall>summary. fst (BackupStdin run) = Inr summary \<and> execResult run = None \<longrightarrow>
            (\<exists>r. cnpg_BackupDump c call run = Some (Inr r)) \<and>
            (\<exists>r. galera_BackupDump c gcall run = Some (Inr r))"
    unfolding c g by simp
  have 4: "\<forall>x. execFailedFirst run \<and> execResult run = Some x \<and> resticExit run = None \<longrightarrow>
            fst (BackupStdin run) = Inl (''restic backup failed: '' @ x)"
    using execFailedFirst_archive by blast
  have 5: "pipelineFailed run \<longleftrightarrow> (\<exists>e. cnpg_BackupDump c call run = Some (Inl e))"
    unfolding c pipelineFailed_def by (auto split: sum.splits option.splits)
  have 6: "pipelineFailed run \<longleftrightarrow> (\<exists>e. galera_BackupDump c gcall run = Some (Inl e))"
    unfolding g pipelineFailed_def by (auto split: sum.splits option.splits)
  from 1 2 3 4 5 6 show ?thesis by (intro conjI)
qed

theorem dump_error_precedence_counterexample:
  "pipelineReached exRun \<and> dumpDrained exRun \<and> execFailedFirst exRun \<and>
   fst (BackupStdin exRun) = Inl ''restic backup failed: exit status 1'' \<and>
   execResult exRun = Some ''connection reset by peer'' \<and>
   cnpg_BackupDump (exConfig None False) exCall exRun
     = Some (Inl ''restic backup failed: restic backup failed: exit status 1'') \<and>
   spec_pipelineError ''pg_dumpall'' exRun
     = ''pg_dumpall exec failed: connection reset by peer'' \<and>
   cnpg_BackupDump (exConfig None False) exCall exRun
     \<noteq> Some (Inl (spec_pipelineError ''pg_dumpall'' exRun))"
proof -
  have c: "cnpg_BackupDump (exConfig None False) exCall exRun
     = Some (Inl ''restic backup failed: restic backup failed: exit status 1'')"
    unfolding cnpg_BackupDump_def dumpFrom_reached[OF exRun_facts(1,3)]
    by (simp add: exRun_facts(2))
  have s: "spec_pipelineError ''pg_dumpall'' exRun
     = ''pg_dumpall exec failed: connection reset by peer''"
    by (simp add: spec_pipelineError_def exRun_facts)
  show ?thesis using exRun_facts c s by simp
qed

theorem dump_error_precedence_witness:
  "pipelineReached exRunClean \<and> dumpDrained exRunClean \<and> donor exCall = ''c-1'' \<and>
   execFailedFirst exRunClean \<and> execResult exRunClean = Some ''connection reset by peer'' \<and>
   resticExit exRunClean = None \<and>
   fst (BackupStdin exRunClean) = Inl ''restic backup failed: connection reset by peer'' \<and>
   cnpg_BackupDump (exConfig None False) exCall exRunClean
     = Some (Inl ''restic backup failed: restic backup failed: connection reset by peer'') \<and>
   galera_BackupDump (exConfig None False) exCall exRunClean
     = Some (Inl ''restic backup failed: restic backup failed: connection reset by peer'')"
proof -
  have r: "pipelineReached exRunClean"
    by (simp add: pipelineReached_def exRunClean_def exRun_def runningAndReady_def)
  have f: "execFailedFirst exRunClean"
    by (simp add: execFailedFirst_def exRunClean_def exRun_def stdinCopy_None)
  have dr: "dumpDrained exRunClean" by (rule execFailedFirst_drained[OF f])
  have d: "donor exCall \<noteq> [] \<or> \<not> isl (healthyPod exRunClean)"
    by (simp add: exCall_def)
  have n: "donor exCall = ''c-1''" by (simp add: exCall_def)
  have x: "execResult exRunClean = Some ''connection reset by peer''"
    and e: "resticExit exRunClean = None"
    by (simp_all add: exRunClean_def exRun_def)
  note t = dump_error_precedence[OF r dr d, of "exConfig None False" exCall]
  from t f x e have a: "fst (BackupStdin exRunClean)
      = Inl (''restic backup failed: '' @ ''connection reset by peer'')"
    by blast
  with t have "cnpg_BackupDump (exConfig None False) exCall exRunClean
     = Some (Inl (''restic backup failed: '' @ ''restic backup failed: '' @ ''connection reset by peer'')) \<and>
   galera_BackupDump (exConfig None False) exCall exRunClean
     = Some (Inl (''restic backup failed: '' @ ''restic backup failed: '' @ ''connection reset by peer''))"
    by simp
  with r dr n f x e a show ?thesis by simp
qed

section \<open>Properties of the Galera heal sequence\<close>

lemma trace_effect [simp]: "trace (effect a w) = trace w"
  by (cases a) (simp_all add: effect_def)

lemma attempt_trace [simp]: "trace (snd (attempt fails a w)) = trace w @ [a]"
  by (simp add: attempt_def Let_def split: option.splits)

lemma attempt_ok:
  "fails (length (trace w)) = None \<Longrightarrow>
   attempt fails a w = (None, effect a (w\<lparr>trace := trace w @ [a]\<rparr>))"
  by (simp add: attempt_def Let_def)

lemma attempt_fail:
  "fails (length (trace w)) = Some err \<Longrightarrow>
   attempt fails a w = (Some err, w\<lparr>trace := trace w @ [a]\<rparr>)"
  by (simp add: attempt_def Let_def)

lemma rescue_trace:
  "trace (rescue fails e instanceNum now hasGaleraPVC True scaledDown w) =
     trace w @ rescueActs e instanceNum now hasGaleraPVC scaledDown"
  by (simp add: rescue_def rescueActs_def Let_def)

lemma crSuspended_attempt_other:
  "a \<noteq> SuspendCR \<Longrightarrow> a \<noteq> ResumeCR \<Longrightarrow>
   crSuspended (snd (attempt fails a w)) = crSuspended w"
  by (cases a) (simp_all add: attempt_def Let_def effect_def split: option.splits)

lemma crSuspended_attempt_resume:
  "crSuspended (snd (attempt fails ResumeCR w)) =
     (crSuspended w \<and> fails (length (trace w)) \<noteq> None)"
  by (simp add: attempt_def Let_def effect_def split: option.splits)

lemma rescue_suspended:
  "crSuspended (rescue fails e instanceNum now hasGaleraPVC True scaledDown w) =
     (crSuspended w \<and>
      fails (length (trace w) +
             length (rescueActs e instanceNum now hasGaleraPVC scaledDown) - 1) \<noteq> None)"
  by (simp add: rescue_def rescueActs_def Let_def crSuspended_attempt_resume
        crSuspended_attempt_other)

lemma rescuedI:
  assumes "0 < k" "k < length (healPlan e targetPod instanceNum now hasGaleraPVC)"
    and "trace W = trace w @ take (Suc k) (healPlan e targetPod instanceNum now hasGaleraPVC)"
    and "crSuspended W"
    and "scaledDown \<longleftrightarrow>
           1 < k \<and> healPlan e targetPod instanceNum now hasGaleraPVC ! k \<noteq> ResumeCR"
    and "fails (length (trace w) + k) = Some err"
  shows "rescued fails e targetPod instanceNum now hasGaleraPVC w (prefix @ err)
           (rescue fails e instanceNum now hasGaleraPVC True scaledDown W)"
proof -
  have len: "length (trace W) = length (trace w) + Suc k"
    using assms(2,3) by simp
  have pos: "0 < length (rescueActs e instanceNum now hasGaleraPVC scaledDown)"
    by (simp add: rescueActs_def)
  have "crSuspended (rescue fails e instanceNum now hasGaleraPVC True scaledDown W) \<longleftrightarrow>
      fails (length (trace w) + k +
             length (rescueActs e instanceNum now hasGaleraPVC scaledDown)) \<noteq> None"
    using assms(4) pos by (simp add: rescue_suspended len)
  then show ?thesis
    unfolding rescued_def
    using assms rescue_trace[of fails e instanceNum now hasGaleraPVC scaledDown W]
    by (intro exI[of _ k] exI[of _ scaledDown] exI[of _ prefix] exI[of _ err]) simp
qed

lemma attempt_DeleteRecoveryPods:
  "snd (attempt fails DeleteRecoveryPods W) = W\<lparr>trace := trace W @ [DeleteRecoveryPods]\<rparr>"
  by (simp add: attempt_def Let_def effect_def split: option.splits)

lemma heal_tail_rescued:
  assumes plan: "healPlan e targetPod instanceNum now hasGaleraPVC =
                   pre @ [DeleteRecoveryPods, Scale (replicas e), ResumeCR]"
      and tr: "trace W = trace w @ pre" and su: "crSuspended W" and m: "2 \<le> length pre"
      and res: "(let w5 = snd (attempt fails DeleteRecoveryPods W) in
                 case attempt fails (Scale (replicas e)) w5 of
                   (Some err, w6) \<Rightarrow>
                     (Some (''failed to scale StatefulSet back up: '' @ err),
                      rescue fails e instanceNum now hasGaleraPVC True True w6)
                 | (None, w6) \<Rightarrow>
                     (case attempt fails ResumeCR w6 of
                        (Some err, w7) \<Rightarrow>
                          (Some (''failed to resume CR: '' @ err),
                           rescue fails e instanceNum now hasGaleraPVC True False w7)
                      | (None, w7) \<Rightarrow> (None, w7))) = (Some msg, w')"
  shows "rescued fails e targetPod instanceNum now hasGaleraPVC w msg w'"
proof -
  let ?n = "length (trace w)"
  let ?m = "length pre"
  define W5 where "W5 = W\<lparr>trace := trace W @ [DeleteRecoveryPods]\<rparr>"
  have t5: "trace W5 = trace w @ pre @ [DeleteRecoveryPods]" and s5: "crSuspended W5"
    by (simp_all add: W5_def tr su)
  have l5: "length (trace W5) = ?n + (?m + 1)" by (simp add: t5)
  have planlen: "length (healPlan e targetPod instanceNum now hasGaleraPVC) = ?m + 3"
    by (simp add: plan)
  show ?thesis
  proof (cases "fails (?n + (?m + 1))")
    case (Some err)
    define F where "F = W5\<lparr>trace := trace W5 @ [Scale (replicas e)]\<rparr>"
    have a6: "attempt fails (Scale (replicas e)) W5 = (Some err, F)"
      unfolding F_def using Some attempt_fail[of fails W5 err] by (simp add: l5)
    from res have "msg = ''failed to scale StatefulSet back up: '' @ err"
      and "w' = rescue fails e instanceNum now hasGaleraPVC True True F"
      by (simp_all add: attempt_DeleteRecoveryPods W5_def[symmetric] a6)
    moreover have "rescued fails e targetPod instanceNum now hasGaleraPVC w
        (''failed to scale StatefulSet back up: '' @ err)
        (rescue fails e instanceNum now hasGaleraPVC True True F)"
    proof (rule rescuedI[where k="?m + 1"])
      show "0 < ?m + 1" by simp
      show "?m + 1 < length (healPlan e targetPod instanceNum now hasGaleraPVC)"
        by (simp add: planlen)
      show "trace F = trace w @
          take (Suc (?m + 1)) (healPlan e targetPod instanceNum now hasGaleraPVC)"
        by (simp add: F_def t5 plan)
      show "crSuspended F" by (simp add: F_def s5)
      show "True \<longleftrightarrow> 1 < ?m + 1 \<and>
          healPlan e targetPod instanceNum now hasGaleraPVC ! (?m + 1) \<noteq> ResumeCR"
        using m by (auto simp: plan nth_append)
      show "fails (?n + (?m + 1)) = Some err" by (rule Some)
    qed
    ultimately show ?thesis by simp
  next
    case None
    define W6 where "W6 = effect (Scale (replicas e)) (W5\<lparr>trace := trace W5 @ [Scale (replicas e)]\<rparr>)"
    have a6: "attempt fails (Scale (replicas e)) W5 = (None, W6)"
      unfolding W6_def using None attempt_ok[of fails W5] by (simp add: l5)
    have t6: "trace W6 = trace w @ pre @ [DeleteRecoveryPods, Scale (replicas e)]"
      and s6: "crSuspended W6"
      by (simp_all add: W6_def effect_def t5 s5)
    have l6: "length (trace W6) = ?n + (?m + 2)" by (simp add: t6)
    show ?thesis
    proof (cases "fails (?n + (?m + 2))")
      case (Some err)
      define F where "F = W6\<lparr>trace := trace W6 @ [ResumeCR]\<rparr>"
      have a7: "attempt fails ResumeCR W6 = (Some err, F)"
        unfolding F_def using Some attempt_fail[of fails W6 err] by (simp add: l6)
      from res have "msg = ''failed to resume CR: '' @ err"
        and "w' = rescue fails e instanceNum now hasGaleraPVC True False F"
        by (simp_all add: attempt_DeleteRecoveryPods W5_def[symmetric] a6 a7)
      moreover have "rescued fails e targetPod instanceNum now hasGaleraPVC w
          (''failed to resume CR: '' @ err)
          (rescue fails e instanceNum now hasGaleraPVC True False F)"
      proof (rule rescuedI[where k="?m + 2"])
        show "0 < ?m + 2" by simp
        show "?m + 2 < length (healPlan e targetPod instanceNum now hasGaleraPVC)"
          by (simp add: planlen)
        show "trace F = trace w @
            take (Suc (?m + 2)) (healPlan e targetPod instanceNum now hasGaleraPVC)"
          by (simp add: F_def t6 plan)
        show "crSuspended F" by (simp add: F_def s6)
        show "False \<longleftrightarrow> 1 < ?m + 2 \<and>
            healPlan e targetPod instanceNum now hasGaleraPVC ! (?m + 2) \<noteq> ResumeCR"
          by (simp add: plan nth_append)
        show "fails (?n + (?m + 2)) = Some err" by (rule Some)
      qed
      ultimately show ?thesis by simp
    next
      case None
      have "attempt fails ResumeCR W6 = (None, effect ResumeCR (W6\<lparr>trace := trace W6 @ [ResumeCR]\<rparr>))"
        using None attempt_ok[of fails W6] by (simp add: l6)
      with res show ?thesis
        by (simp add: attempt_DeleteRecoveryPods W5_def[symmetric] a6)
    qed
  qed
qed

lemma healNode_rescued:
  assumes res: "healNode fails e targetPod instanceNum now hasGaleraPVC w = (Some msg, w')"
      and ok0: "fails (length (trace w)) = None"
  shows "rescued fails e targetPod instanceNum now hasGaleraPVC w msg w'"
proof -
  let ?n = "length (trace w)"
  let ?sh = "RunHelper (storageHelper e instanceNum now) (storagePVC targetPod)"
  let ?gh = "RunHelper (galeraHelper e instanceNum now) (galeraPVC targetPod)"
  let ?st = "Scale (scaleTarget e instanceNum)"
  define W1 where "W1 = effect SuspendCR (w\<lparr>trace := trace w @ [SuspendCR]\<rparr>)"
  have a1: "attempt fails SuspendCR w = (None, W1)"
    unfolding W1_def by (rule attempt_ok[of fails w, OF ok0])
  have t1: "trace W1 = trace w @ [SuspendCR]" and s1: "crSuspended W1"
    by (simp_all add: W1_def effect_def)
  have l1: "length (trace W1) = ?n + 1" by (simp add: t1)
  show ?thesis
  proof (cases "fails (?n + 1)")
    case (Some err)
    define F where "F = W1\<lparr>trace := trace W1 @ [?st]\<rparr>"
    have a2: "attempt fails ?st W1 = (Some err, F)"
      unfolding F_def using Some attempt_fail[of fails W1 err] by (simp add: l1)
    from res have "msg = ''failed to scale StatefulSet: '' @ err"
      and "w' = rescue fails e instanceNum now hasGaleraPVC True False F"
      by (simp_all add: healNode_def a1 a2)
    moreover have "rescued fails e targetPod instanceNum now hasGaleraPVC w
        (''failed to scale StatefulSet: '' @ err)
        (rescue fails e instanceNum now hasGaleraPVC True False F)"
      using Some by (intro rescuedI[where k=1]) (simp_all add: healPlan_def F_def t1 s1)
    ultimately show ?thesis by simp
  next
    case None
    define W2 where "W2 = effect ?st (W1\<lparr>trace := trace W1 @ [?st]\<rparr>)"
    have a2: "attempt fails ?st W1 = (None, W2)"
      unfolding W2_def using None attempt_ok[of fails W1] by (simp add: l1)
    have t2: "trace W2 = trace w @ [SuspendCR, ?st]" and s2: "crSuspended W2"
      by (simp_all add: W2_def effect_def t1 s1)
    have l2: "length (trace W2) = ?n + 2" by (simp add: t2)
    show ?thesis
    proof (cases "fails (?n + 2)")
      case (Some err)
      define F where "F = W2\<lparr>trace := trace W2 @ [?sh]\<rparr>"
      have a3: "attempt fails ?sh W2 = (Some err, F)"
        unfolding F_def using Some attempt_fail[of fails W2 err] by (simp add: l2)
      from res have "msg = ''storage helper failed: '' @ err"
        and "w' = rescue fails e instanceNum now hasGaleraPVC True True F"
        by (simp_all add: healNode_def a1 a2 a3)
      moreover have "rescued fails e targetPod instanceNum now hasGaleraPVC w
          (''storage helper failed: '' @ err)
          (rescue fails e instanceNum now hasGaleraPVC True True F)"
        using Some by (intro rescuedI[where k=2]) (simp_all add: healPlan_def F_def t2 s2)
      ultimately show ?thesis by simp
    next
      case None
      define W3 where "W3 = effect ?sh (W2\<lparr>trace := trace W2 @ [?sh]\<rparr>)"
      have a3: "attempt fails ?sh W2 = (None, W3)"
        unfolding W3_def using None attempt_ok[of fails W2] by (simp add: l2)
      have t3: "trace W3 = trace w @ [SuspendCR, ?st, ?sh]" and s3: "crSuspended W3"
        by (simp_all add: W3_def effect_def t2 s2)
      have l3: "length (trace W3) = ?n + 3" by (simp add: t3)
      show ?thesis
      proof (cases hasGaleraPVC)
        case False
        then have hg: "hasGaleraPVC = False" by simp
        have plan: "healPlan e targetPod instanceNum now False =
            [SuspendCR, ?st, ?sh] @ [DeleteRecoveryPods, Scale (replicas e), ResumeCR]"
          by (simp add: healPlan_def)
        from res show ?thesis
          unfolding hg
          by (intro heal_tail_rescued[OF plan t3 s3]) (simp_all add: healNode_def a1 a2 a3)
      next
        case True
        then have hg: "hasGaleraPVC = True" by simp
        show ?thesis
        proof (cases "fails (?n + 3)")
          case (Some err)
          define F where "F = W3\<lparr>trace := trace W3 @ [?gh]\<rparr>"
          have a4: "attempt fails ?gh W3 = (Some err, F)"
            unfolding F_def using Some attempt_fail[of fails W3 err] by (simp add: l3)
          from res True have "msg = ''galera config helper failed: '' @ err"
            and "w' = rescue fails e instanceNum now hasGaleraPVC True True F"
            by (simp_all add: healNode_def a1 a2 a3 a4)
          moreover have "rescued fails e targetPod instanceNum now hasGaleraPVC w
              (''galera config helper failed: '' @ err)
              (rescue fails e instanceNum now hasGaleraPVC True True F)"
            using Some True
            by (intro rescuedI[where k=3]) (simp_all add: healPlan_def F_def t3 s3)
          ultimately show ?thesis by simp
        next
          case None
          define W4 where "W4 = effect ?gh (W3\<lparr>trace := trace W3 @ [?gh]\<rparr>)"
          have a4: "attempt fails ?gh W3 = (None, W4)"
            unfolding W4_def using None attempt_ok[of fails W3] by (simp add: l3)
          have t4: "trace W4 = trace w @ [SuspendCR, ?st, ?sh, ?gh]" and s4: "crSuspended W4"
            by (simp_all add: W4_def effect_def t3 s3)
          have plan: "healPlan e targetPod instanceNum now True =
              [SuspendCR, ?st, ?sh, ?gh] @ [DeleteRecoveryPods, Scale (replicas e), ResumeCR]"
            by (simp add: healPlan_def)
          from res show ?thesis
            unfolding hg
            by (intro heal_tail_rescued[OF plan t4 s4]) (simp_all add: healNode_def a1 a2 a3 a4)
        qed
      qed
    qed
  qed
qed

lemma healNode_suspend_failed:
  assumes "fails (length (trace w)) = Some err"
  shows "healNode fails e targetPod instanceNum now hasGaleraPVC w =
           (Some (''failed to suspend CR: '' @ err), w\<lparr>trace := trace w @ [SuspendCR]\<rparr>)"
  by (simp add: healNode_def attempt_fail[of fails w err, OF assms])

lemma exHeal:
  "healNode exFails exGaleraEngine ''g-2'' 2 1719835200 True exWorld =
     (Some ''failed to scale StatefulSet: conflict'',
      \<lparr>crSuspended = True, stsReplicas = 3,
       trace = [SuspendCR, Scale 2,
                DeletePod (storageHelper exGaleraEngine 2 1719835200),
                DeletePod (galeraHelper exGaleraEngine 2 1719835200),
                ResumeCR]\<rparr>)"
  by (simp add: healNode_def attempt_def effect_def rescue_def Let_def exFails_def exWorld_def
       scaleTarget_def exGaleraEngine_def)

text \<open>
  Claim C8, amended. When \<open>healNode\<close> returns an error after the CR was suspended, it
  stopped at some call \<open>k\<close> of its plan and then ran the rescue: delete the storage
  helper pod, delete the Galera helper pod when there is a Galera PVC, scale back to the
  original replica count when the failure came after the scale-down and before the final
  resume, and resume the CR. The message returned ends with the error of call \<open>k\<close>. The CR
  is left suspended exactly when the resume call of the rescue failed.
\<close>

theorem heal_rescue_runs:
  assumes "healNode fails e targetPod instanceNum now hasGaleraPVC w = (Some msg, w')"
      and "fails (length (trace w)) = None"
  shows "\<exists>k scaledDown prefix err.
        0 < k \<and> k < length (healPlan e targetPod instanceNum now hasGaleraPVC) \<and>
        trace w' = trace w @ take (Suc k) (healPlan e targetPod instanceNum now hasGaleraPVC)
                   @ rescueActs e instanceNum now hasGaleraPVC scaledDown \<and>
        (scaledDown \<longleftrightarrow>
           1 < k \<and> healPlan e targetPod instanceNum now hasGaleraPVC ! k \<noteq> ResumeCR) \<and>
        fails (length (trace w) + k) = Some err \<and>
        msg = prefix @ err \<and>
        (crSuspended w' \<longleftrightarrow>
           fails (length (trace w) + k +
                  length (rescueActs e instanceNum now hasGaleraPVC scaledDown)) \<noteq> None)"
  using healNode_rescued[OF assms] unfolding rescued_def .

theorem heal_rescue_runs_counterexample:
  "fst (healNode exFails exGaleraEngine ''g-2'' 2 1719835200 True exWorld) =
      Some ''failed to scale StatefulSet: conflict'' \<and>
   exFails (length (trace exWorld)) = None \<and>
   crSuspended (snd (healNode exFails exGaleraEngine ''g-2'' 2 1719835200 True exWorld))"
  by (simp add: exHeal) (simp add: exFails_def exWorld_def)

theorem heal_rescue_runs_witness:
  "healNode exFails exGaleraEngine ''g-2'' 2 1719835200 True exWorld =
     (Some ''failed to scale StatefulSet: conflict'',
      \<lparr>crSuspended = True, stsReplicas = 3,
       trace = [SuspendCR, Scale 2,
                DeletePod (storageHelper exGaleraEngine 2 1719835200),
                DeletePod (galeraHelper exGaleraEngine 2 1719835200),
                ResumeCR]\<rparr>) \<and>
   exFails (length (trace exWorld)) = None \<and>
   (\<exists>k scaledDown prefix err.
        0 < k \<and> k < length (healPlan exGaleraEngine ''g-2'' 2 1719835200 True) \<and>
        [SuspendCR, Scale 2,
         DeletePod (storageHelper exGaleraEngine 2 1719835200),
         DeletePod (galeraHelper exGaleraEngine 2 1719835200), ResumeCR]
          = take (Suc k) (healPlan exGaleraEngine ''g-2'' 2 1719835200 True)
            @ rescueActs exGaleraEngine 2 1719835200 True scaledDown \<and>
        exFails k = Some err \<and>
        ''failed to scale StatefulSet: conflict'' = prefix @ err)"
proof -
  have ok0: "exFails (length (trace exWorld)) = None"
    by (simp add: exFails_def exWorld_def)
  from heal_rescue_runs[OF exHeal ok0] exHeal ok0 show ?thesis
    by (simp add: exWorld_def) blast
qed

end
